(* ===== verification/Prelude.thy ===== *)
theory Prelude
  imports Complex_Main "HOL-Library.AList" "HOL-Library.Sublist"
begin

text \<open>
  What every component shares: the exceptions the scripts raise and catch, the effects of a
  Python statement as a state-passing step with a result, dictionaries as association lists in
  insertion order, and the list lemmas the loops need.
\<close>

named_theorems step_simps "unfolding rules of the effect combinators"
named_theorems keeps_intros "introduction rules for invariants of steps"
named_theorems frame_intros "introduction rules for state components no step writes"

section \<open>Exceptions and results\<close>

text \<open>
  The exceptions of the sources, with the part of the message that the code looks at.
  \<open>IllTyped\<close> is not a Python exception: it marks a point where the Python would go on with a
  value of the wrong type (a JSON file edited by hand, say); the model stops there.
\<close>

datatype py_exc =
    FileNotFoundError string
  | PermissionError string
  | OSError string
  | FileOperationError string
  | JSONDecodeError
  | ValueError string
  | KeyError string
  | TypeError string
  | AttributeError string
  | IndexError
  | ZeroDivisionError
  | StatisticsError
  | ReError
  | CalledProcessError int string
  | TestRunnerException
  | ArgumentTypeError string
  | SystemExit int
  | IllTyped string

type_synonym 'a result = "py_exc + 'a"

fun res_bind :: "'a result \<Rightarrow> ('a \<Rightarrow> 'b result) \<Rightarrow> 'b result" where
  "res_bind (Inl e) f = Inl e"
| "res_bind (Inr a) f = f a"

lemma res_bind_Inr_iff:
  "res_bind r f = Inr b \<longleftrightarrow> (\<exists>a. r = Inr a \<and> f a = Inr b)"
  by (cases r) auto

text \<open>A list comprehension whose element expression may raise.\<close>

fun res_map :: "('a \<Rightarrow> 'b result) \<Rightarrow> 'a list \<Rightarrow> 'b list result" where
  "res_map f [] = Inr []"
| "res_map f (x # xs) =
     res_bind (f x) (\<lambda>y. res_bind (res_map f xs) (\<lambda>ys. Inr (y # ys)))"

lemma res_map_inverse:
  assumes "\<And>x. x \<in> set xs \<Longrightarrow> f (g x) = Inr x"
  shows "res_map f (map g xs) = Inr xs"
  using assms by (induction xs) auto

lemma res_map_cong [fundef_cong]:
  assumes "xs = ys" and "\<And>x. x \<in> set ys \<Longrightarrow> f x = g x"
  shows "res_map f xs = res_map g ys"
  using assms(2) unfolding assms(1) by (induction ys) auto

lemma res_map_Inr: "(\<And>x. f x = Inr (g x)) \<Longrightarrow> res_map f xs = Inr (map g xs)"
  by (induction xs) auto

text \<open>\<open>/\<close> on numbers.\<close>

definition py_div :: "rat \<Rightarrow> rat \<Rightarrow> rat result" where
  "py_div a b = (if b = 0 then Inl ZeroDivisionError else Inr (a / b))"

text \<open>The truth value of an optional string.\<close>

fun truthy :: "string option \<Rightarrow> bool" where
  "truthy None = False"
| "truthy (Some s) = (s \<noteq> [])"

section \<open>Steps: statements with effects\<close>

text \<open>
  A statement or a function call with effects takes the state and returns its result (the value,
  or the exception it raises) with the state it leaves. The state an exception leaves is the
  state at the point where it was raised: Python does not roll assignments back.
\<close>

type_synonym ('s, 'a) step = "'s \<Rightarrow> 'a result \<times> 's"

definition ret :: "'a \<Rightarrow> ('s, 'a) step" where
  "ret a s = (Inr a, s)"

definition raise :: "py_exc \<Rightarrow> ('s, 'a) step" where
  "raise e s = (Inl e, s)"

definition and_then :: "('s, 'a) step \<Rightarrow> ('a \<Rightarrow> ('s, 'b) step) \<Rightarrow> ('s, 'b) step" where
  "and_then m f s = (case m s of (Inl e, s') \<Rightarrow> (Inl e, s') | (Inr a, s') \<Rightarrow> f a s')"

definition handle :: "('s, 'a) step \<Rightarrow> (py_exc \<Rightarrow> ('s, 'a) step) \<Rightarrow> ('s, 'a) step" where
  "handle m h s = (case m s of (Inl e, s') \<Rightarrow> h e s' | (Inr a, s') \<Rightarrow> (Inr a, s'))"

definition gets :: "('s \<Rightarrow> 'a) \<Rightarrow> ('s, 'a) step" where
  "gets f s = (Inr (f s), s)"

definition modify :: "('s \<Rightarrow> 's) \<Rightarrow> ('s, unit) step" where
  "modify f s = (Inr (), f s)"

definition of_result :: "'a result \<Rightarrow> ('s, 'a) step" where
  "of_result r s = (r, s)"

text \<open>\<open>for x in xs: body\<close>, without \<open>break\<close>.\<close>

fun for_each :: "('x \<Rightarrow> ('s, unit) step) \<Rightarrow> 'x list \<Rightarrow> ('s, unit) step" where
  "for_each body [] = ret ()"
| "for_each body (x # xs) = and_then (body x) (\<lambda>_. for_each body xs)"

lemma ret_apply [simp, step_simps]: "ret a s = (Inr a, s)"
  by (simp add: ret_def)

lemma raise_apply [simp, step_simps]: "raise e s = (Inl e, s)"
  by (simp add: raise_def)

lemma gets_apply [simp, step_simps]: "gets f s = (Inr (f s), s)"
  by (simp add: gets_def)

lemma modify_apply [simp, step_simps]: "modify f s = (Inr (), f s)"
  by (simp add: modify_def)

lemma of_result_apply [simp, step_simps]: "of_result r s = (r, s)"
  by (simp add: of_result_def)

lemma and_then_Inl: "m s = (Inl e, s') \<Longrightarrow> and_then m f s = (Inl e, s')"
  by (simp add: and_then_def)

lemma and_then_Inr: "m s = (Inr a, s') \<Longrightarrow> and_then m f s = f a s'"
  by (simp add: and_then_def)

lemma handle_Inl: "m s = (Inl e, s') \<Longrightarrow> handle m h s = h e s'"
  by (simp add: handle_def)

lemma handle_Inr: "m s = (Inr a, s') \<Longrightarrow> handle m h s = (Inr a, s')"
  by (simp add: handle_def)

lemmas step_eval = and_then_Inl and_then_Inr handle_Inl handle_Inr

lemma and_then_simps [simp, step_simps]:
  "and_then (ret a) f s = f a s"
  "and_then (raise e) f' s = (Inl e, s)"
  "and_then (gets g) f'' s = f'' (g s) s"
  "and_then (modify h) f3 s = f3 () (h s)"
  "and_then (of_result (Inr a)) f4 s = f4 a s"
  "and_then (of_result (Inl e)) f5 s = (Inl e, s)"
  by (simp_all add: and_then_def)

lemma and_then_result:
  "and_then m f s = (Inr b, s'') \<longleftrightarrow> (\<exists>a s'. m s = (Inr a, s') \<and> f a s' = (Inr b, s''))"
  by (auto simp: and_then_def split: prod.splits sum.splits)

lemma and_then_resultE:
  assumes "and_then m f s = (Inr b, s'')"
  obtains a s' where "m s = (Inr a, s')" and "f a s' = (Inr b, s'')"
  using assms by (auto simp: and_then_result)

text \<open>\<open>try: ... except Exception: return r\<close>: everything is caught but an exit and the model's own
  stop.\<close>

fun is_exception :: "py_exc \<Rightarrow> bool" where
  "is_exception (SystemExit n) = False"
| "is_exception (IllTyped m) = False"
| "is_exception e = True"

definition catch_all :: "('s, 'a) step \<Rightarrow> 'a \<Rightarrow> ('s, 'a) step" where
  "catch_all m r = handle m (\<lambda>e. if is_exception e then ret r else raise e)"

text \<open>
  Invariants and frames of steps. \<open>keeps P m\<close>: whatever \<open>m\<close> returns or raises, \<open>P\<close> still
  holds in the state it leaves. \<open>frames f m\<close>: \<open>m\<close> does not change what \<open>f\<close> reads.
\<close>

definition keeps :: "('s \<Rightarrow> bool) \<Rightarrow> ('s, 'a) step \<Rightarrow> bool" where
  "keeps P m \<longleftrightarrow> (\<forall>s. P s \<longrightarrow> P (snd (m s)))"

definition frames :: "('s \<Rightarrow> 'b) \<Rightarrow> ('s, 'a) step \<Rightarrow> bool" where
  "frames f m \<longleftrightarrow> (\<forall>s. f (snd (m s)) = f s)"

lemma keepsD: "keeps P m \<Longrightarrow> P s \<Longrightarrow> m s = (r, s') \<Longrightarrow> P s'"
  by (metis keeps_def snd_conv)

lemma framesD: "frames f m \<Longrightarrow> m s = (r, s') \<Longrightarrow> f s' = f s"
  by (metis frames_def snd_conv)

lemma keeps_basic [keeps_intros]:
  "keeps P (ret a)" "keeps P (raise e)" "keeps P (gets g)" "keeps P (of_result r)"
  by (simp_all add: keeps_def)

lemma keeps_modify [keeps_intros]: "(\<And>s. P s \<Longrightarrow> P (h s)) \<Longrightarrow> keeps P (modify h)"
  by (simp add: keeps_def)

lemma keeps_and_then [keeps_intros]:
  "keeps P m \<Longrightarrow> (\<And>a. keeps P (f a)) \<Longrightarrow> keeps P (and_then m f)"
  by (fastforce simp: keeps_def and_then_def split: prod.splits sum.splits)

lemma keeps_handle [keeps_intros]:
  "keeps P m \<Longrightarrow> (\<And>e. keeps P (h e)) \<Longrightarrow> keeps P (handle m h)"
  by (fastforce simp: keeps_def handle_def split: prod.splits sum.splits)

lemma keeps_if [keeps_intros]: "keeps P m \<Longrightarrow> keeps P m' \<Longrightarrow> keeps P (if b then m else m')"
  by simp

lemma keeps_for_each [keeps_intros]:
  "(\<And>x. keeps P (body x)) \<Longrightarrow> keeps P (for_each body xs)"
  by (induction xs) (simp_all add: keeps_intros)

lemma frames_basic [frame_intros]:
  "frames f (ret a)" "frames f (raise e)" "frames f (gets g)" "frames f (of_result r)"
  by (simp_all add: frames_def)

lemma frames_modify [frame_intros]: "(\<And>s. f (h s) = f s) \<Longrightarrow> frames f (modify h)"
  by (simp add: frames_def)

lemma frames_and_then [frame_intros]:
  "frames f m \<Longrightarrow> (\<And>a. frames f (g a)) \<Longrightarrow> frames f (and_then m g)"
  unfolding frames_def and_then_def by (simp split: prod.split sum.split) (metis snd_conv)

lemma frames_handle [frame_intros]:
  "frames f m \<Longrightarrow> (\<And>e. frames f (h e)) \<Longrightarrow> frames f (handle m h)"
  unfolding frames_def handle_def by (simp split: prod.split sum.split) (metis snd_conv)

lemma frames_if [frame_intros]: "frames f m \<Longrightarrow> frames f m' \<Longrightarrow> frames f (if b then m else m')"
  by simp

lemma frames_for_each [frame_intros]:
  "(\<And>x. frames f (body x)) \<Longrightarrow> frames f (for_each body xs)"
  by (induction xs) (simp_all add: frame_intros)

lemma keeps_catch_all [keeps_intros]: "keeps P m \<Longrightarrow> keeps P (catch_all m r)"
  unfolding catch_all_def by (intro keeps_intros)

lemma frames_catch_all [frame_intros]: "frames f m \<Longrightarrow> frames f (catch_all m r)"
  unfolding catch_all_def by (intro frame_intros)

lemma catch_all_state: "snd (catch_all m r s) = snd (m s)"
  by (simp add: catch_all_def handle_def split: prod.split sum.split)

lemma catch_all_Inr: "m s = (Inr a, s') \<Longrightarrow> catch_all m r s = (Inr a, s')"
  by (simp add: catch_all_def handle_def)

text \<open>A step that returns in a state: it raises nothing there.\<close>

definition returns :: "('s, 'a) step \<Rightarrow> 's \<Rightarrow> bool" where
  "returns m s \<longleftrightarrow> (\<exists>a s'. m s = (Inr a, s'))"

lemma returnsI: "m s = (Inr a, s') \<Longrightarrow> returns m s"
  by (auto simp: returns_def)

lemma returnsE:
  assumes "returns m s"
  obtains a s' where "m s = (Inr a, s')"
  using assms by (auto simp: returns_def)

lemma returns_basic [simp]: "returns (ret a) s" "returns (gets g) s" "returns (modify h) s"
  by (auto simp: returns_def)

lemma returns_and_then:
  "returns m s \<Longrightarrow> (\<And>a s'. m s = (Inr a, s') \<Longrightarrow> returns (f a) s') \<Longrightarrow> returns (and_then m f) s"
  by (auto simp: returns_def and_then_def)

lemma returns_catch_all:
  "(\<And>e s'. m s = (Inl e, s') \<Longrightarrow> is_exception e) \<Longrightarrow> returns (catch_all m r) s"
  by (cases "m s"; cases "fst (m s)") (auto simp: returns_def catch_all_def handle_def)

end
