(* ===== verification/Py_Text.thy ===== *)
theory Py_Text
  imports Prelude
begin

text \<open>
  Text as the scripts handle it: the \<open>str\<close> operations they call, the line iteration of text
  files, decimal numerals, and the two formats they print. A Python string is a list of
  characters whose codes are below 256 (HOL's \<open>char\<close>); the classes \<open>\s\<close> and \<open>\w\<close> of the
  \<open>re\<close> module and \<open>str.lower\<close> are exact on that range. The two symbols beyond it that the
  report prints (a check mark and a cross) are written as their UTF-8 bytes.
\<close>

section \<open>Characters\<close>

abbreviation LF :: char where "LF \<equiv> CHR 0x0A"
abbreviation CR :: char where "CR \<equiv> CHR 0x0D"

definition code :: "char \<Rightarrow> nat" where
  "code c = of_char c"

text \<open>The class \<open>\s\<close>.\<close>

definition is_space :: "char \<Rightarrow> bool" where
  "is_space c \<longleftrightarrow> (let n = code c in
     9 \<le> n \<and> n \<le> 13 \<or> 28 \<le> n \<and> n \<le> 32 \<or> n = 133 \<or> n = 160)"

text \<open>The class \<open>\w\<close>: letters, digits and numeric signs, and the underscore.\<close>

definition is_word :: "char \<Rightarrow> bool" where
  "is_word c \<longleftrightarrow> (let n = code c in
     48 \<le> n \<and> n \<le> 57 \<or> 65 \<le> n \<and> n \<le> 90 \<or> n = 95 \<or> 97 \<le> n \<and> n \<le> 122 \<or>
     n = 170 \<or> n = 178 \<or> n = 179 \<or> n = 181 \<or> n = 185 \<or> n = 186 \<or>
     188 \<le> n \<and> n \<le> 190 \<or> 192 \<le> n \<and> n \<le> 214 \<or> 216 \<le> n \<and> n \<le> 246 \<or> 248 \<le> n)"

definition lower_char :: "char \<Rightarrow> char" where
  "lower_char c = (let n = code c in
     if 65 \<le> n \<and> n \<le> 90 \<or> 192 \<le> n \<and> n \<le> 222 \<and> n \<noteq> 215 then char_of (n + 32) else c)"

text \<open>\<open>str.lower\<close>.\<close>

definition lower :: "string \<Rightarrow> string" where
  "lower s = map lower_char s"

lemma is_space_LF [simp]: "is_space LF"
  by (simp add: is_space_def code_def)

section \<open>Searching, splitting and joining\<close>

text \<open>\<open>sub in s\<close>.\<close>

fun contains :: "string \<Rightarrow> string \<Rightarrow> bool" where
  "contains sub [] = (sub = [])"
| "contains sub (c # cs) = (prefix sub (c # cs) \<or> contains sub cs)"

lemma contains_iff: "contains sub s \<longleftrightarrow> (\<exists>a b. s = a @ sub @ b)"
proof (induction s)
  case Nil
  then show ?case by auto
next
  case (Cons c cs)
  show ?case
  proof
    assume "contains sub (c # cs)"
    then show "\<exists>a b. c # cs = a @ sub @ b"
    proof (cases "prefix sub (c # cs)")
      case True
      then show ?thesis by (metis append_Nil prefix_def)
    next
      case False
      with \<open>contains sub (c # cs)\<close> Cons.IH show ?thesis by (metis append_Cons contains.simps(2))
    qed
  next
    assume "\<exists>a b. c # cs = a @ sub @ b"
    then obtain a b where ab: "c # cs = a @ sub @ b" by blast
    show "contains sub (c # cs)"
    proof (cases a)
      case Nil
      with ab have "prefix sub (c # cs)" by simp
      then show ?thesis by simp
    next
      case (Cons x xs)
      with ab have "cs = xs @ sub @ b" by simp
      with Cons.IH show ?thesis by auto
    qed
  qed
qed

lemma contains_append: "contains sub s \<Longrightarrow> contains sub (a @ s @ b)"
  unfolding contains_iff by (metis append.assoc)

lemma contains_Nil [simp]: "contains [] s"
  by (cases s) auto

text \<open>\<open>s.replace(a, b)\<close> for single characters.\<close>

definition replace_char :: "char \<Rightarrow> char \<Rightarrow> string \<Rightarrow> string" where
  "replace_char a b s = map (\<lambda>c. if c = a then b else c) s"

lemma length_replace_char [simp]: "length (replace_char a b s) = length s"
  by (simp add: replace_char_def)

lemma replace_char_absent: "a \<noteq> b \<Longrightarrow> a \<notin> set (replace_char a b s)"
  by (auto simp: replace_char_def)

text \<open>\<open>s.split(sep)\<close> for a one-character separator.\<close>

fun split_on :: "char \<Rightarrow> string \<Rightarrow> string list" where
  "split_on sep [] = [[]]"
| "split_on sep (c # cs) =
     (if c = sep then [] # split_on sep cs
      else case split_on sep cs of [] \<Rightarrow> [[c]] | w # ws \<Rightarrow> (c # w) # ws)"

text \<open>\<open>sep.join(xs)\<close>.\<close>

fun join :: "string \<Rightarrow> string list \<Rightarrow> string" where
  "join sep [] = []"
| "join sep [x] = x"
| "join sep (x # y # ys) = x @ sep @ join sep (y # ys)"

lemma split_on_nonempty [simp]: "split_on sep s \<noteq> []"
  by (induction s) (auto split: list.split)

lemma join_Cons: "ws \<noteq> [] \<Longrightarrow> join sep (w # ws) = w @ sep @ join sep ws"
  by (cases ws) auto

lemma join_Cons_Cons: "join sep ((c # w) # ws) = c # join sep (w # ws)"
  by (cases ws) auto

lemma join_split_on: "join [sep] (split_on sep s) = s"
  by (induction s) (auto simp: join_Cons join_Cons_Cons split: list.split)

lemma split_on_no_sep: "sep \<notin> set w \<Longrightarrow> split_on sep w = [w]"
  by (induction w) auto

lemma split_on_append_sep: "sep \<notin> set w \<Longrightarrow> split_on sep (w @ sep # s) = w # split_on sep s"
  by (induction w) auto

lemma split_on_join:
  assumes "xs \<noteq> []" and "\<And>x. x \<in> set xs \<Longrightarrow> sep \<notin> set x"
  shows "split_on sep (join [sep] xs) = xs"
  using assms by (induction "[sep]" xs rule: join.induct) (auto simp: split_on_no_sep split_on_append_sep)

lemma split_on_pieces: "w \<in> set (split_on sep s) \<Longrightarrow> sep \<notin> set w"
proof (induction s arbitrary: w)
  case (Cons c cs)
  then show ?case
    by (cases "split_on sep cs") (auto split: if_splits)
qed simp

text \<open>\<open>s.split(sep, maxsplit=1)\<close> where \<open>sep\<close> occurs: the text before and after the first one.\<close>

definition split_once :: "char \<Rightarrow> string \<Rightarrow> string \<times> string" where
  "split_once sep s = (takeWhile (\<lambda>c. c \<noteq> sep) s, drop 1 (dropWhile (\<lambda>c. c \<noteq> sep) s))"

lemma split_once_append: "sep \<notin> set a \<Longrightarrow> split_once sep (a @ sep # b) = (a, b)"
  by (induction a) (auto simp: split_once_def)

lemma split_once_rebuild:
  "sep \<in> set s \<Longrightarrow> fst (split_once sep s) @ sep # snd (split_once sep s) = s"
  by (induction s) (auto simp: split_once_def)

section \<open>Lines of a text file\<close>

text \<open>
  Reading in text mode translates every line end to a line feed; iterating over the file (or
  \<open>readlines\<close>) yields the lines with their line feeds, the last one possibly without.
\<close>

fun universal_newlines :: "string \<Rightarrow> string" where
  "universal_newlines [] = []"
| "universal_newlines [c] = [if c = CR then LF else c]"
| "universal_newlines (c # d # cs) =
     (if c = CR then LF # (if d = LF then universal_newlines cs else universal_newlines (d # cs))
      else c # universal_newlines (d # cs))"

lemma universal_newlines_no_CR: "CR \<notin> set (universal_newlines s)"
proof (induction s rule: universal_newlines.induct)
  case (3 c d cs)
  then show ?case by auto
qed auto

lemma universal_newlines_id: "CR \<notin> set s \<Longrightarrow> universal_newlines s = s"
  by (induction s rule: universal_newlines.induct) auto

fun file_lines :: "string \<Rightarrow> string list" where
  "file_lines [] = []"
| "file_lines (c # cs) =
     (if c = LF then [c] # file_lines cs
      else case file_lines cs of [] \<Rightarrow> [[c]] | l # ls \<Rightarrow> (c # l) # ls)"

lemma concat_file_lines [simp]: "concat (file_lines s) = s"
  by (induction s) (auto split: list.splits)

text \<open>What a list of lines read from a file looks like: only the last may lack its line feed.\<close>

definition full_line :: "string \<Rightarrow> bool" where
  "full_line l \<longleftrightarrow> l \<noteq> [] \<and> last l = LF \<and> LF \<notin> set (butlast l)"

definition open_line :: "string \<Rightarrow> bool" where
  "open_line l \<longleftrightarrow> l \<noteq> [] \<and> LF \<notin> set l"

fun lines_ok :: "string list \<Rightarrow> bool" where
  "lines_ok [] = True"
| "lines_ok [l] = (full_line l \<or> open_line l)"
| "lines_ok (l # m # ls) = (full_line l \<and> lines_ok (m # ls))"

lemma lines_ok_file_lines: "lines_ok (file_lines s)"
proof (induction s)
  case (Cons c cs)
  show ?case
  proof (cases "file_lines cs")
    case Nil
    then show ?thesis by (auto simp: full_line_def open_line_def)
  next
    case (Cons l ls)
    with Cons.IH show ?thesis
      by (cases ls) (auto simp: full_line_def open_line_def)
  qed
qed simp

lemma lines_okD: "lines_ok (ls @ l # m # ms) \<Longrightarrow> full_line l"
  by (induction ls rule: lines_ok.induct) auto

lemma lines_ok_ConsD: "lines_ok (l # ls) \<Longrightarrow> lines_ok ls"
  by (cases ls) auto

lemma lines_ok_appendD: "lines_ok (ls @ ms) \<Longrightarrow> lines_ok ls \<and> lines_ok ms"
proof (induction ls)
  case (Cons l ls)
  from Cons.prems have "lines_ok (ls @ ms)" by (auto dest: lines_ok_ConsD)
  with Cons.IH have IH: "lines_ok ls \<and> lines_ok ms" by blast
  with Cons.prems show ?case by (cases ls; cases ms) auto
qed simp

lemma file_lines_append_full:
  assumes "full_line l"
  shows "file_lines (l @ s) = l # file_lines s"
proof -
  from assms obtain b where l: "l = b @ [LF]" and b: "LF \<notin> set b"
    by (metis append_butlast_last_id full_line_def)
  have "file_lines (b @ LF # s) = (b @ [LF]) # file_lines s"
    using b by (induction b) auto
  with l show ?thesis by simp
qed

lemma file_lines_open: "open_line l \<Longrightarrow> file_lines l = [l]"
proof (induction l)
  case (Cons c cs)
  then show ?case by (cases cs) (auto simp: open_line_def)
qed (simp add: open_line_def)

lemma file_lines_concat: "lines_ok ls \<Longrightarrow> file_lines (concat ls) = ls"
proof (induction ls rule: lines_ok.induct)
  case (2 l)
  then show ?case
    using file_lines_append_full [of l "[]"] by (auto simp: file_lines_open)
next
  case (3 l m ls)
  then show ?case by (simp add: file_lines_append_full)
qed simp

section \<open>Numerals and number formats\<close>

definition digit :: "nat \<Rightarrow> char" where
  "digit d = ''0123456789'' ! d"

text \<open>\<open>str(n)\<close> of a natural number and of an integer.\<close>

fun nat_str :: "nat \<Rightarrow> string" where
  "nat_str n = (if n < 10 then [digit n] else nat_str (n div 10) @ [digit (n mod 10)])"

declare nat_str.simps [simp del]

definition int_str :: "int \<Rightarrow> string" where
  "int_str i = (if i < 0 then ''-'' @ nat_str (nat (- i)) else nat_str (nat i))"

definition is_digit :: "char \<Rightarrow> bool" where
  "is_digit c \<longleftrightarrow> 48 \<le> code c \<and> code c \<le> 57"

definition str_nat :: "string \<Rightarrow> nat" where
  "str_nat s = foldl (\<lambda>a c. 10 * a + (code c - 48)) 0 s"

definition str_int :: "string \<Rightarrow> int" where
  "str_int s = (case s of [] \<Rightarrow> 0 | c # cs \<Rightarrow> if c = CHR ''-'' then - int (str_nat cs) else int (str_nat s))"

lemma code_digit: "d < 10 \<Longrightarrow> code (digit d) = 48 + d"
proof -
  assume "d < 10"
  then have "d \<in> set [0..<10]" by simp
  then show ?thesis by (auto simp: code_def digit_def upt_rec)
qed

lemma is_digit_digit: "d < 10 \<Longrightarrow> is_digit (digit d)"
  by (simp add: is_digit_def code_digit)

lemma nat_str_digits: "c \<in> set (nat_str n) \<Longrightarrow> is_digit c"
  by (induction n rule: nat_str.induct) (subst (asm) (2) nat_str.simps, auto simp: is_digit_digit split: if_splits)

lemma nat_str_nonempty [simp]: "nat_str n \<noteq> []"
  by (subst nat_str.simps) simp

lemma str_nat_snoc: "str_nat (s @ [c]) = 10 * str_nat s + (code c - 48)"
  by (simp add: str_nat_def)

lemma str_nat_nat_str [simp]: "str_nat (nat_str n) = n"
proof (induction n rule: nat_str.induct)
  case (1 n)
  show ?case
  proof (cases "n < 10")
    case True
    then show ?thesis by (simp add: nat_str.simps [of n] str_nat_def code_digit)
  next
    case False
    then show ?thesis
      by (simp add: nat_str.simps [of n] str_nat_snoc code_digit "1.IH")
  qed
qed

lemma minus_not_digit: "\<not> is_digit (CHR ''-'')"
  by (simp add: is_digit_def code_def)

lemma str_int_int_str [simp]: "str_int (int_str i) = i"
proof (cases "i < 0")
  case True
  then show ?thesis by (simp add: int_str_def str_int_def)
next
  case False
  obtain c cs where n: "nat_str (nat i) = c # cs" by (cases "nat_str (nat i)") auto
  then have "c \<noteq> CHR ''-''" using nat_str_digits [of c "nat i"] minus_not_digit by auto
  then have "str_int (nat_str (nat i)) = int (str_nat (nat_str (nat i)))"
    unfolding n by (simp add: str_int_def)
  with False show ?thesis by (simp add: int_str_def)
qed

lemma int_str_inj: "int_str i = int_str j \<longleftrightarrow> i = j"
  by (metis str_int_int_str)

lemma nat_str_inj: "nat_str i = nat_str j \<longleftrightarrow> i = j"
  by (metis str_nat_nat_str)

text \<open>
  The format \<open>.1f\<close>. A Python float is modelled by the rational number it stands for; the format
  rounds that number to one decimal, ties to the even digit.
\<close>

definition round_half_even :: "rat \<Rightarrow> int" where
  "round_half_even x = (let f = \<lfloor>x\<rfloor>; d = x - of_int f in
     if d < 1 / 2 then f else if d > 1 / 2 then f + 1 else if even f then f else f + 1)"

definition format_1f :: "rat \<Rightarrow> string" where
  "format_1f x = (let q = nat (round_half_even (10 * \<bar>x\<bar>)) in
     (if x < 0 then ''-'' else []) @ nat_str (q div 10) @ ''.'' @ [digit (q mod 10)])"

lemma round_half_even_error: "\<bar>of_int (round_half_even x) - x\<bar> \<le> 1 / 2"
proof -
  have "of_int \<lfloor>x\<rfloor> \<le> x" and "x < of_int \<lfloor>x\<rfloor> + 1" by linarith+
  then show ?thesis by (simp add: round_half_even_def Let_def)
qed

end
