(* ===== verification/Json.thy ===== *)
theory Json
  imports Py_Text
begin

text \<open>
  JSON documents as Python values: what \<open>json.dump\<close> writes and \<open>json.load\<close> returns, the
  truth value of a document, and the accessors with the exceptions the scripts can meet. Objects
  are Python dictionaries: association lists in insertion order, updated in place.
\<close>

section \<open>Dictionaries\<close>

type_synonym ('k, 'v) dict = "('k \<times> 'v) list"

text \<open>\<open>d[k] = v\<close> keeps the position of an existing key and appends a new one.\<close>

abbreviation dict_set :: "'k \<Rightarrow> 'v \<Rightarrow> ('k, 'v) dict \<Rightarrow> ('k, 'v) dict" where
  "dict_set \<equiv> AList.update"

abbreviation dict_get :: "('k, 'v) dict \<Rightarrow> 'k \<Rightarrow> 'v option" where
  "dict_get \<equiv> map_of"

abbreviation dict_has :: "('k, 'v) dict \<Rightarrow> 'k \<Rightarrow> bool" where
  "dict_has d k \<equiv> map_of d k \<noteq> None"

abbreviation dict_keys :: "('k, 'v) dict \<Rightarrow> 'k list" where
  "dict_keys d \<equiv> map fst d"

abbreviation dict_values :: "('k, 'v) dict \<Rightarrow> 'v list" where
  "dict_values d \<equiv> map snd d"

text \<open>The dictionary that a literal or a comprehension with these items builds: later items win.\<close>

definition dict_of :: "('k \<times> 'v) list \<Rightarrow> ('k, 'v) dict" where
  "dict_of kvs = foldl (\<lambda>d (k, v). dict_set k v d) [] kvs"

text \<open>
  The contract of a keyed store that the runner's bookkeeping relies on: what a lookup returns
  after a store, and which keys there are.
\<close>

locale keyed_store =
  fixes lookup :: "'m \<Rightarrow> 'k \<Rightarrow> 'v option"
    and store :: "'k \<Rightarrow> 'v \<Rightarrow> 'm \<Rightarrow> 'm"
    and nothing :: "'m"
  assumes lookup_nothing: "lookup nothing k = None"
    and lookup_store: "lookup (store k v m) k' = (if k' = k then Some v else lookup m k')"
begin

definition store_all :: "('k \<times> 'v) list \<Rightarrow> 'm \<Rightarrow> 'm" where
  "store_all kvs m = foldl (\<lambda>m (k, v). store k v m) m kvs"

lemma lookup_store_all:
  "lookup (store_all kvs m) k = (case map_of (rev kvs) k of Some v \<Rightarrow> Some v | None \<Rightarrow> lookup m k)"
  unfolding store_all_def
  by (induction kvs rule: rev_induct) (auto simp: lookup_store)

lemma lookup_store_all_nothing: "lookup (store_all kvs nothing) k = map_of (rev kvs) k"
  by (simp add: lookup_store_all lookup_nothing split: option.split)

lemma lookup_store_all_notin: "k \<notin> fst ` set kvs \<Longrightarrow> lookup (store_all kvs m) k = lookup m k"
  by (simp add: lookup_store_all split: option.split) (metis map_of_SomeD image_eqI fst_conv set_rev option.distinct(1) option.exhaust)

end

interpretation dct: keyed_store map_of AList.update "[]"
  by unfold_locales (auto simp: update_conv')

lemma dict_get_dict_of: "dict_get (dict_of kvs) k = map_of (rev kvs) k"
  using dct.lookup_store_all_nothing [of kvs k] by (simp add: dct.store_all_def dict_of_def)

lemma dict_set_new: "k \<notin> set (dict_keys d) \<Longrightarrow> dict_set k v d = d @ [(k, v)]"
  by (induction d) auto

lemma dict_set_keys: "set (dict_keys (dict_set k v d)) = insert k (set (dict_keys d))"
  by (auto simp: update_keys)

lemma dict_of_distinct_aux:
  "distinct (dict_keys d @ map fst kvs) \<Longrightarrow> foldl (\<lambda>d (k, v). dict_set k v d) d kvs = d @ kvs"
  by (induction kvs arbitrary: d) (auto simp: dict_set_new)

lemma dict_of_distinct: "distinct (map fst kvs) \<Longrightarrow> dict_of kvs = kvs"
  unfolding dict_of_def using dict_of_distinct_aux [of "[]" kvs] by simp

lemma distinct_dict_of: "distinct (dict_keys (dict_of kvs))"
  unfolding dict_of_def by (induction kvs rule: rev_induct) (auto simp: distinct_update)

section \<open>Documents\<close>

datatype json =
    JNull
  | JBool bool
  | JInt int
  | JFloat rat
  | JStr string
  | JArr "json list"
  | JObj "(string, json) dict"

text \<open>The truth value that \<open>if not data\<close> tests.\<close>

fun json_truthy :: "json \<Rightarrow> bool" where
  "json_truthy JNull = False"
| "json_truthy (JBool b) = b"
| "json_truthy (JInt i) = (i \<noteq> 0)"
| "json_truthy (JFloat q) = (q \<noteq> 0)"
| "json_truthy (JStr s) = (s \<noteq> [])"
| "json_truthy (JArr xs) = (xs \<noteq> [])"
| "json_truthy (JObj d) = (d \<noteq> [])"

text \<open>\<open>doc[k]\<close>, \<open>doc.get(k)\<close> and \<open>doc.items()\<close> with a string key.\<close>

fun json_item :: "string \<Rightarrow> json \<Rightarrow> json result" where
  "json_item k (JObj d) = (case dict_get d k of Some v \<Rightarrow> Inr v | None \<Rightarrow> Inl (KeyError k))"
| "json_item k _ = Inl (TypeError ''indices must be integers'')"

fun json_get :: "string \<Rightarrow> json \<Rightarrow> json \<Rightarrow> json result" where
  "json_get k dflt (JObj d) = (case dict_get d k of Some v \<Rightarrow> Inr v | None \<Rightarrow> Inr dflt)"
| "json_get k dflt _ = Inl (AttributeError ''get'')"

fun json_items :: "json \<Rightarrow> (string, json) dict result" where
  "json_items (JObj d) = Inr d"
| "json_items _ = Inl (AttributeError ''items'')"

text \<open>\<open>len(doc)\<close>.\<close>

fun json_len :: "json \<Rightarrow> nat result" where
  "json_len (JStr s) = Inr (length s)"
| "json_len (JArr xs) = Inr (length xs)"
| "json_len (JObj d) = Inr (length d)"
| "json_len _ = Inl (TypeError ''object has no len()'')"

section \<open>Typed values in documents\<close>

text \<open>
  Reading a typed value out of a document. The Python stores whatever it finds; where the value
  has another type than the annotation says, the model stops with \<open>IllTyped\<close>.
\<close>

fun un_str :: "json \<Rightarrow> string result" where
  "un_str (JStr s) = Inr s"
| "un_str _ = Inl (IllTyped ''str'')"

fun un_int :: "json \<Rightarrow> int result" where
  "un_int (JInt i) = Inr i"
| "un_int _ = Inl (IllTyped ''int'')"

fun un_bool :: "json \<Rightarrow> bool result" where
  "un_bool (JBool b) = Inr b"
| "un_bool _ = Inl (IllTyped ''bool'')"

fun un_float :: "json \<Rightarrow> rat result" where
  "un_float (JFloat q) = Inr q"
| "un_float (JInt i) = Inr (of_int i)"
| "un_float _ = Inl (IllTyped ''float'')"

fun un_opt :: "(json \<Rightarrow> 'a result) \<Rightarrow> json \<Rightarrow> 'a option result" where
  "un_opt f JNull = Inr None"
| "un_opt f j = res_bind (f j) (\<lambda>a. Inr (Some a))"

fun un_list :: "(json \<Rightarrow> 'a result) \<Rightarrow> json \<Rightarrow> 'a list result" where
  "un_list f (JArr xs) = res_map f xs"
| "un_list f _ = Inl (IllTyped ''list'')"

definition un_pair :: "(json \<Rightarrow> 'a result) \<Rightarrow> string \<times> json \<Rightarrow> (string \<times> 'a) result" where
  "un_pair f = (\<lambda>(k, v). res_bind (f v) (\<lambda>a. Inr (k, a)))"

fun un_dict :: "(json \<Rightarrow> 'a result) \<Rightarrow> json \<Rightarrow> (string, 'a) dict result" where
  "un_dict f (JObj d) = res_map (un_pair f) d"
| "un_dict f _ = Inl (IllTyped ''dict'')"

fun opt_json :: "('a \<Rightarrow> json) \<Rightarrow> 'a option \<Rightarrow> json" where
  "opt_json f None = JNull"
| "opt_json f (Some a) = f a"

definition list_json :: "('a \<Rightarrow> json) \<Rightarrow> 'a list \<Rightarrow> json" where
  "list_json f xs = JArr (map f xs)"

definition dict_json :: "('a \<Rightarrow> json) \<Rightarrow> (string, 'a) dict \<Rightarrow> json" where
  "dict_json f d = JObj (map (\<lambda>(k, v). (k, f v)) d)"

text \<open>
  The contract of a type that is written to a document and read back; lists, optional values and
  dictionaries of such a type satisfy it too.
\<close>

locale json_codec =
  fixes to_json :: "'a \<Rightarrow> json"
    and of_json :: "json \<Rightarrow> 'a result"
  assumes of_to_json: "of_json (to_json a) = Inr a"
begin

lemma of_to_list: "un_list of_json (list_json to_json xs) = Inr xs"
  by (simp add: list_json_def res_map_inverse of_to_json)

lemma of_to_dict: "un_dict of_json (dict_json to_json d) = Inr d"
  by (induction d) (auto simp: dict_json_def un_pair_def of_to_json)

lemma of_to_opt: "(\<And>a. to_json a \<noteq> JNull) \<Longrightarrow> un_opt of_json (opt_json to_json x) = Inr x"
proof (cases x)
  case (Some a)
  assume "\<And>a. to_json a \<noteq> JNull"
  then have "to_json a \<noteq> JNull" .
  then show ?thesis using Some of_to_json [of a] by (cases "to_json a") auto
qed simp

end

interpretation str_codec: json_codec JStr un_str by unfold_locales simp
interpretation int_codec: json_codec JInt un_int by unfold_locales simp
interpretation float_codec: json_codec JFloat un_float by unfold_locales simp

end
