(* ===== verification/Datetime.thy ===== *)
theory Datetime
  imports Py_Text
begin

text \<open>
  \<open>datetime\<close> values as the scripts use them: ISO text and its parser, the \<open>strftime\<close> formats of
  log names, work directories and the report, and the difference of two times.
\<close>

section \<open>Values\<close>

text \<open>A local time without zone, as \<open>datetime.now()\<close> gives it; \<open>micro\<close> are microseconds.\<close>

record datetime =
  year :: nat
  month :: nat
  day :: nat
  hour :: nat
  minute :: nat
  second :: nat
  micro :: nat

definition leap :: "nat \<Rightarrow> bool" where
  "leap y \<longleftrightarrow> 4 dvd y \<and> (\<not> 100 dvd y \<or> 400 dvd y)"

definition days_in_month :: "nat \<Rightarrow> nat \<Rightarrow> nat" where
  "days_in_month y m = (if m = 2 then (if leap y then 29 else 28)
     else if m = 4 \<or> m = 6 \<or> m = 9 \<or> m = 11 then 30 else 31)"

definition datetime_ok :: "datetime \<Rightarrow> bool" where
  "datetime_ok t \<longleftrightarrow> 1 \<le> year t \<and> year t \<le> 9999 \<and> 1 \<le> month t \<and> month t \<le> 12 \<and>
     1 \<le> day t \<and> day t \<le> days_in_month (year t) (month t) \<and>
     hour t < 24 \<and> minute t < 60 \<and> second t < 60 \<and> micro t < 1000000"

section \<open>Text\<close>

text \<open>A number with leading zeros, as \<open>%0wd\<close> prints it.\<close>

definition pad :: "nat \<Rightarrow> nat \<Rightarrow> string" where
  "pad w n = replicate (w - length (nat_str n)) (CHR ''0'') @ nat_str n"

lemma length_nat_str: "n < 10 ^ w \<Longrightarrow> 0 < w \<Longrightarrow> length (nat_str n) \<le> w"
proof (induction n arbitrary: w rule: nat_str.induct)
  case (1 n)
  show ?case
  proof (cases "n < 10")
    case True
    with "1.prems" show ?thesis by (simp add: nat_str.simps [of n])
  next
    case False
    then obtain v where w: "w = Suc v" and v: "0 < v"
      using "1.prems" by (cases w; cases "w - 1") auto
    with "1.prems" have "n div 10 < 10 ^ v" by simp
    with False v "1.IH" have "length (nat_str (n div 10)) \<le> v" by blast
    with False w show ?thesis by (simp add: nat_str.simps [of n])
  qed
qed

lemma length_pad: "n < 10 ^ w \<Longrightarrow> 0 < w \<Longrightarrow> length (pad w n) = w"
  using length_nat_str [of n w] by (simp add: pad_def)

lemma pad_digits: "list_all is_digit (pad w n)"
  by (auto simp: pad_def list_all_iff is_digit_def code_def nat_str_digits [unfolded is_digit_def code_def])

lemma str_nat_zeros: "str_nat (replicate k (CHR ''0'') @ s) = str_nat s"
proof -
  have "foldl (\<lambda>a c. 10 * a + (code c - 48)) 0 (replicate k (CHR ''0'')) = 0"
    by (induction k) (simp_all add: code_def)
  then show ?thesis by (simp add: str_nat_def)
qed

lemma str_nat_pad [simp]: "str_nat (pad w n) = n"
  by (simp add: pad_def str_nat_zeros)

text \<open>\<open>isoformat()\<close>: the microseconds are left out when they are 0.\<close>

definition isoformat :: "datetime \<Rightarrow> string" where
  "isoformat t = pad 4 (year t) @ ''-'' @ pad 2 (month t) @ ''-'' @ pad 2 (day t) @ ''T'' @
     pad 2 (hour t) @ '':'' @ pad 2 (minute t) @ '':'' @ pad 2 (second t) @
     (if micro t = 0 then [] else ''.'' @ pad 6 (micro t))"

text \<open>
  \<open>datetime.fromisoformat\<close> on texts of the shape \<open>isoformat\<close> produces. Newer versions of Python
  accept further shapes; the model stops on them.
\<close>

definition num_at :: "string \<Rightarrow> nat \<Rightarrow> nat \<Rightarrow> nat option" where
  "num_at s i w = (let t = take w (drop i s) in
     if length t = w \<and> list_all is_digit t then Some (str_nat t) else None)"

definition fromisoformat :: "string \<Rightarrow> datetime result" where
  "fromisoformat s =
     (if (length s = 19 \<or> length s = 26 \<and> s ! 19 = CHR ''.'') \<and> s ! 4 = CHR ''-'' \<and> s ! 7 = CHR ''-'' \<and>
         s ! 13 = CHR '':'' \<and> s ! 16 = CHR '':''
      then case (num_at s 0 4, num_at s 5 2, num_at s 8 2, num_at s 11 2, num_at s 14 2, num_at s 17 2,
                 if length s = 19 then Some 0 else num_at s 20 6) of
             (Some y, Some mo, Some d, Some h, Some mi, Some se, Some us) \<Rightarrow>
               let t = \<lparr>year = y, month = mo, day = d, hour = h, minute = mi, second = se, micro = us\<rparr>
               in if datetime_ok t then Inr t else Inl (ValueError s)
           | _ \<Rightarrow> Inl (ValueError s)
      else Inl (IllTyped ''another ISO form''))"

lemma num_at_append: "length a = i \<Longrightarrow> n < 10 ^ w \<Longrightarrow> 0 < w \<Longrightarrow> num_at (a @ pad w n @ b) i w = Some n"
  by (simp add: num_at_def length_pad pad_digits)

text \<open>Reading a printed time gives the time back.\<close>

lemma fromisoformat_isoformat: "datetime_ok t \<Longrightarrow> fromisoformat (isoformat t) = Inr t"
proof -
  assume ok: "datetime_ok t"
  obtain y mo d h mi se us where t: "t = \<lparr>year = y, month = mo, day = d, hour = h, minute = mi, second = se, micro = us\<rparr>"
    by (cases t)
  have "days_in_month y mo \<le> 31" by (simp add: days_in_month_def)
  with ok t have b: "y < 10 ^ 4" "mo < 10 ^ 2" "d < 10 ^ 2" "h < 10 ^ 2" "mi < 10 ^ 2" "se < 10 ^ 2" "us < 10 ^ 6"
    by (auto simp: datetime_ok_def)
  define tl where "tl = (if us = 0 then [] else ''.'' @ pad 6 us)"
  define s where "s = isoformat t"
  have s: "s = pad 4 y @ ''-'' @ pad 2 mo @ ''-'' @ pad 2 d @ ''T'' @ pad 2 h @ '':'' @ pad 2 mi @ '':'' @ pad 2 se @ tl"
    by (simp add: s_def isoformat_def t tl_def)
  note len = length_pad [OF b(1)] length_pad [OF b(2)] length_pad [OF b(3)] length_pad [OF b(4)]
    length_pad [OF b(5)] length_pad [OF b(6)] length_pad [OF b(7)]
  have ls: "length s = 19 + length tl" by (simp add: s len)
  have fields: "num_at s 0 4 = Some y" "num_at s 5 2 = Some mo" "num_at s 8 2 = Some d"
    "num_at s 11 2 = Some h" "num_at s 14 2 = Some mi" "num_at s 17 2 = Some se"
    using num_at_append [OF _ b(1), of "[]" 0]
      num_at_append [OF _ b(2), of "pad 4 y @ ''-''" 5]
      num_at_append [OF _ b(3), of "pad 4 y @ ''-'' @ pad 2 mo @ ''-''" 8]
      num_at_append [OF _ b(4), of "pad 4 y @ ''-'' @ pad 2 mo @ ''-'' @ pad 2 d @ ''T''" 11]
      num_at_append [OF _ b(5), of "pad 4 y @ ''-'' @ pad 2 mo @ ''-'' @ pad 2 d @ ''T'' @ pad 2 h @ '':''" 14]
      num_at_append [OF _ b(6), of "pad 4 y @ ''-'' @ pad 2 mo @ ''-'' @ pad 2 d @ ''T'' @ pad 2 h @ '':'' @ pad 2 mi @ '':''" 17]
    by (simp_all add: s len)
  have seps: "s ! 4 = CHR ''-''" "s ! 7 = CHR ''-''" "s ! 13 = CHR '':''" "s ! 16 = CHR '':''"
    by (simp_all add: s nth_append len)
  have "fromisoformat s = Inr t"
  proof (cases "us = 0")
    case True
    then have "length s = 19" using ls by (simp add: tl_def)
    with fields seps True ok show ?thesis
      by (simp add: fromisoformat_def t)
  next
    case False
    then have l: "length s = 26" using ls by (simp add: tl_def len)
    have dot: "s ! 19 = CHR ''.''" using False by (simp add: s tl_def nth_append len)
    have "num_at s 20 6 = Some us"
      using num_at_append [OF _ b(7), of "pad 4 y @ ''-'' @ pad 2 mo @ ''-'' @ pad 2 d @ ''T'' @ pad 2 h @ '':'' @ pad 2 mi @ '':'' @ pad 2 se @ ''.''" 20 "[]"] False
      by (simp add: s tl_def len)
    with fields seps l dot ok show ?thesis
      by (simp add: fromisoformat_def t)
  qed
  then show ?thesis by (simp add: s_def)
qed

text \<open>The \<open>strftime\<close> formats of the report, of log file names and of work directories (with the
  microseconds cut to milliseconds).\<close>

definition strftime_report :: "datetime \<Rightarrow> string" where
  "strftime_report t = pad 4 (year t) @ ''-'' @ pad 2 (month t) @ ''-'' @ pad 2 (day t) @ '' '' @
     pad 2 (hour t) @ '':'' @ pad 2 (minute t) @ '':'' @ pad 2 (second t)"

definition strftime_log :: "datetime \<Rightarrow> string" where
  "strftime_log t = pad 4 (year t) @ pad 2 (month t) @ pad 2 (day t) @ ''_'' @
     pad 2 (hour t) @ pad 2 (minute t) @ pad 2 (second t)"

definition strftime_work :: "datetime \<Rightarrow> string" where
  "strftime_work t = strftime_log t @ ''_'' @ take 3 (pad 6 (micro t))"

section \<open>Differences\<close>

definition days_before_year :: "int \<Rightarrow> int" where
  "days_before_year y = (let y1 = y - 1 in y1 * 365 + y1 div 4 - y1 div 100 + y1 div 400)"

definition days_before_month :: "nat \<Rightarrow> nat \<Rightarrow> nat" where
  "days_before_month y m = sum_list (map (days_in_month y) [1..<m])"

definition to_micros :: "datetime \<Rightarrow> int" where
  "to_micros t = (let days = days_before_year (int (year t)) + int (days_before_month (year t) (month t) + day t)
     in (((days * 24 + int (hour t)) * 60 + int (minute t)) * 60 + int (second t)) * 1000000 + int (micro t))"

text \<open>\<open>str(t1 - t0)\<close>: days, hours, minutes, seconds and microseconds, the last only if not 0.\<close>

definition timedelta_str :: "int \<Rightarrow> string" where
  "timedelta_str d =
     (let us = d mod 1000000; secs = (d div 1000000) mod 86400; days = d div 86400000000;
          hms = nat_str (nat (secs div 3600)) @ '':'' @ pad 2 (nat (secs div 60 mod 60)) @ '':'' @
                pad 2 (nat (secs mod 60))
      in (if days = 0 then [] else int_str days @ '' day'' @ (if \<bar>days\<bar> = 1 then [] else ''s'') @ '', '') @
         hms @ (if us = 0 then [] else ''.'' @ pad 6 (nat us)))"

end
