(* ===== verification/File_System.thy ===== *)
theory File_System
  imports Json Datetime
begin

text \<open>
  The world the scripts act on. Their own files (logs, state, reports) are explicit: a file maps
  to its content, and opening one raises what Python raises. Everything behind the operating
  system's interface (the cluster, the clock, the work directories of a test run, the programs
  the scripts start) is a parameter: a state of type \<open>'x\<close> and a record of operations on it.
  \<open>commands\<close> is a history variable: the command lines started so far, oldest first.
\<close>

section \<open>Paths\<close>

text \<open>\<open>pathlib.PurePosixPath\<close>: the root, if any, and the components without empty ones and dots.\<close>

datatype path = Path (anchor: string) (parts: "string list")

definition path_parts :: "string \<Rightarrow> string list" where
  "path_parts s = filter (\<lambda>p. p \<noteq> [] \<and> p \<noteq> ''.'') (split_on (CHR ''/'') s)"

definition path_of :: "string \<Rightarrow> path" where
  "path_of s = Path
     (if prefix ''//'' s \<and> \<not> prefix ''///'' s then ''//'' else if prefix ''/'' s then ''/'' else [])
     (path_parts s)"

definition path_str :: "path \<Rightarrow> string" where
  "path_str p = (if anchor p = [] \<and> parts p = [] then ''.''
     else anchor p @ join ''/'' (parts p))"

text \<open>\<open>p / s\<close>: an absolute right side replaces the left one.\<close>

definition path_div :: "path \<Rightarrow> string \<Rightarrow> path" where
  "path_div p s = (if prefix ''/'' s then path_of s else Path (anchor p) (parts p @ path_parts s))"

definition path_parent :: "path \<Rightarrow> path" where
  "path_parent p = Path (anchor p) (butlast (parts p))"

text \<open>The directories a path goes through, the outermost first.\<close>

definition ancestors :: "path \<Rightarrow> path list" where
  "ancestors p = map (\<lambda>k. Path (anchor p) (take k (parts p))) [0..<length (parts p)]"

definition path_ok :: "path \<Rightarrow> bool" where
  "path_ok p \<longleftrightarrow> anchor p \<in> {[], ''/'', ''//''} \<and>
     list_all (\<lambda>q. q \<noteq> [] \<and> q \<noteq> ''.'' \<and> CHR ''/'' \<notin> set q) (parts p)"

lemma path_ok_path_of: "path_ok (path_of s)"
  by (auto simp: path_ok_def path_of_def path_parts_def list_all_iff dest: split_on_pieces)

lemma path_ok_path_div: "path_ok p \<Longrightarrow> path_ok (path_div p s)"
  using path_ok_path_of [of s]
  by (auto simp: path_ok_def path_div_def path_of_def path_parts_def list_all_iff dest: split_on_pieces)

lemma path_parts_join:
  assumes "list_all (\<lambda>q. q \<noteq> [] \<and> q \<noteq> ''.'' \<and> CHR ''/'' \<notin> set q) ps"
  shows "path_parts (join ''/'' ps) = ps"
proof (cases "ps = []")
  case True
  then show ?thesis by (simp add: path_parts_def)
next
  case False
  with assms have "split_on (CHR ''/'') (join ''/'' ps) = ps"
    by (intro split_on_join) (auto simp: list_all_iff)
  with assms show ?thesis
    by (auto simp: path_parts_def list_all_iff intro: filter_True)
qed

lemma path_parts_slash: "path_parts (CHR ''/'' # s) = path_parts s"
  by (simp add: path_parts_def)

lemma join_not_slash:
  assumes "list_all (\<lambda>q. q \<noteq> [] \<and> q \<noteq> ''.'' \<and> CHR ''/'' \<notin> set q) ps"
  shows "\<not> prefix ''/'' (join ''/'' ps)"
proof (cases ps)
  case (Cons q qs)
  with assms obtain c cs where q: "q = c # cs" "c \<noteq> CHR ''/''"
    by (cases q) auto
  then show ?thesis using Cons by (cases qs) auto
qed simp

lemma path_of_path_str: "path_ok p \<Longrightarrow> path_of (path_str p) = p"
proof -
  assume ok: "path_ok p"
  obtain a ps where p: "p = Path a ps" by (cases p)
  from ok p have ps: "list_all (\<lambda>q. q \<noteq> [] \<and> q \<noteq> ''.'' \<and> CHR ''/'' \<notin> set q) ps"
    and a: "a = [] \<or> a = ''/'' \<or> a = ''//''"
    by (auto simp: path_ok_def)
  note j = path_parts_join [OF ps] and n = join_not_slash [OF ps]
  from n have n2: "\<And>c cs. join ''/'' ps = c # cs \<Longrightarrow> c \<noteq> CHR ''/''"
    by auto
  show ?thesis
    using a j n
    by (cases "join ''/'' ps")
       (auto simp: p path_of_def path_str_def path_parts_slash path_parts_def dest: n2)
qed

section \<open>Files\<close>

text \<open>
  A file holds a text or a JSON document; a text that is no JSON document makes \<open>json.load\<close>
  raise. Contents are decoded text: encoding errors are not modelled. Writing to a file that may be
  opened can still fail, on a full disk say: \<open>cut_short\<close> tells what it then holds, for the files
  where this happens.
\<close>

datatype content = Text string | Json json

record 'x world =
  files :: "path \<Rightarrow> content option"
  dirs :: "path \<Rightarrow> bool"
  unreadable :: "path \<Rightarrow> bool"
  unwritable :: "path \<Rightarrow> bool"
  cut_short :: "path \<Rightarrow> string option"
  commands :: "string list list"
  ext :: 'x

text \<open>What using a path raises when there is nothing there: the first component that is no directory
  decides, \<open>NotADirectoryError\<close> (an \<open>OSError\<close>) when it is a file.\<close>

definition missing_error :: "('x, 'z) world_scheme \<Rightarrow> path \<Rightarrow> py_exc" where
  "missing_error s p = (case find (\<lambda>q. \<not> dirs s q) (ancestors p) of
     Some q \<Rightarrow> if files s q = None then FileNotFoundError (path_str p) else OSError ''NotADirectoryError''
   | None \<Rightarrow> FileNotFoundError (path_str p))"

definition open_read :: "path \<Rightarrow> (('x, 'z) world_scheme, content) step" where
  "open_read p s = (case files s p of
     None \<Rightarrow> raise (if dirs s p then OSError ''IsADirectoryError'' else missing_error s p) s
   | Some c \<Rightarrow> if unreadable s p then raise (PermissionError (path_str p)) s else ret c s)"

text \<open>\<open>open(p, "w")\<close>: an existing file is emptied at once.\<close>

definition open_write :: "path \<Rightarrow> (('x, 'z) world_scheme, unit) step" where
  "open_write p s =
     (if dirs s p then raise (OSError ''IsADirectoryError'') s
      else if \<not> dirs s (path_parent p) then raise (missing_error s p) s
      else if unwritable s p then raise (PermissionError (path_str p)) s
      else ret () (s\<lparr>files := (files s)(p \<mapsto> Text [])\<rparr>))"

definition put_content :: "path \<Rightarrow> content \<Rightarrow> (('x, 'z) world_scheme, unit) step" where
  "put_content p c = modify (\<lambda>s. s\<lparr>files := (files s)(p \<mapsto> c)\<rparr>)"

text \<open>Writing a whole content to an open file, up to its flush or close.\<close>

definition write_content :: "path \<Rightarrow> content \<Rightarrow> (('x, 'z) world_scheme, unit) step" where
  "write_content p c s = (case cut_short s p of
     None \<Rightarrow> put_content p c s
   | Some t \<Rightarrow> and_then (put_content p (Text t)) (\<lambda>_. raise (OSError ''No space left on device'')) s)"

definition write_file :: "path \<Rightarrow> content \<Rightarrow> (('x, 'z) world_scheme, unit) step" where
  "write_file p c = and_then (open_write p) (\<lambda>_. write_content p c)"

text \<open>The text read from an open file, line ends translated.\<close>

fun text_of :: "content \<Rightarrow> string result" where
  "text_of (Text t) = Inr (universal_newlines t)"
| "text_of (Json j) = Inl (IllTyped ''text of a JSON document'')"

definition read_text :: "path \<Rightarrow> (('x, 'z) world_scheme, string) step" where
  "read_text p = and_then (open_read p) (\<lambda>c. of_result (text_of c))"

text \<open>\<open>Path.mkdir(exist_ok=True)\<close>.\<close>

definition mkdir :: "path \<Rightarrow> (('x, 'z) world_scheme, unit) step" where
  "mkdir p s =
     (if dirs s p then ret () s
      else if files s p \<noteq> None then raise (OSError ''FileExistsError'') s
      else if \<not> dirs s (path_parent p) then raise (missing_error s p) s
      else ret () (s\<lparr>dirs := (dirs s)(p := True)\<rparr>))"

text \<open>\<open>os.remove\<close>.\<close>

definition remove_file :: "path \<Rightarrow> (('x, 'z) world_scheme, unit) step" where
  "remove_file p s = (case files s p of
     None \<Rightarrow> raise (if dirs s p then OSError ''IsADirectoryError'' else missing_error s p) s
   | Some _ \<Rightarrow> if unwritable s p then raise (PermissionError (path_str p)) s
             else ret () (s\<lparr>files := (files s)(p := None)\<rparr>))"

text \<open>A path that can be written: what a run of the scripts takes for granted of its output.\<close>

definition can_write :: "('x, 'z) world_scheme \<Rightarrow> path \<Rightarrow> bool" where
  "can_write s p \<longleftrightarrow> \<not> dirs s p \<and> dirs s (path_parent p) \<and> \<not> unwritable s p \<and> cut_short s p = None"

text \<open>What decides whether a path can be written.\<close>

definition disk :: "('x, 'z) world_scheme \<Rightarrow> (path \<Rightarrow> bool) \<times> (path \<Rightarrow> bool) \<times> (path \<Rightarrow> string option)" where
  "disk s = (dirs s, unwritable s, cut_short s)"

lemma disk_update [simp]:
  "disk (s\<lparr>files := fs\<rparr>) = disk s" "disk (s\<lparr>commands := cs\<rparr>) = disk s" "disk (s\<lparr>ext := x\<rparr>) = disk s"
  by (simp_all add: disk_def)

lemma can_write_cong: "disk s' = disk s \<Longrightarrow> can_write s' = can_write s"
  by (simp add: fun_eq_iff can_write_def disk_def)

text \<open>Every case of writing a file.\<close>

lemma write_file_eval:
  "write_file p c s =
     (if dirs s p then (Inl (OSError ''IsADirectoryError''), s)
      else if \<not> dirs s (path_parent p) then (Inl (missing_error s p), s)
      else if unwritable s p then (Inl (PermissionError (path_str p)), s)
      else case cut_short s p of
        None \<Rightarrow> (Inr (), s\<lparr>files := (files s)(p \<mapsto> c)\<rparr>)
      | Some t \<Rightarrow> (Inl (OSError ''No space left on device''), s\<lparr>files := (files s)(p \<mapsto> Text t)\<rparr>))"
  by (simp add: write_file_def and_then_def open_write_def write_content_def put_content_def split: option.split)

lemma write_file_ok:
  "can_write s p \<Longrightarrow> write_file p c s = (Inr (), s\<lparr>files := (files s)(p \<mapsto> c)\<rparr>)"
  by (simp add: can_write_def write_file_eval)

lemma missing_error_cases:
  "missing_error s p = FileNotFoundError (path_str p) \<or> missing_error s p = OSError ''NotADirectoryError''"
  by (simp add: missing_error_def split: option.split)

lemma missing_error_exception [simp]: "is_exception (missing_error s p)"
  using missing_error_cases [of s p] by auto

lemma open_read_state [simp]: "snd (open_read p s) = s"
  by (simp add: open_read_def split: option.split)

lemma open_read_Some: "files s p = Some c \<Longrightarrow> \<not> unreadable s p \<Longrightarrow> open_read p s = (Inr c, s)"
  by (simp add: open_read_def)

lemma read_text_state [simp]: "snd (read_text p s) = s"
  by (simp add: read_text_def and_then_def open_read_def split: option.split)

lemma read_text_Some:
  "files s p = Some (Text t) \<Longrightarrow> \<not> unreadable s p \<Longrightarrow> read_text p s = (Inr (universal_newlines t), s)"
  by (simp add: read_text_def and_then_def open_read_Some)

text \<open>Nothing but the files changes when a file is written, and only that file.\<close>

lemma frames_open_read [frame_intros]: "frames f (open_read p)"
  by (simp add: frames_def)

lemma frames_read_text [frame_intros]: "frames f (read_text p)"
  by (simp add: frames_def)

lemma frames_write_file:
  assumes "\<And>s fs. f (s\<lparr>files := fs\<rparr>) = f s"
  shows "frames f (write_file p c)"
  by (auto simp: frames_def write_file_eval assms split: option.split)

lemma frames_world_write [frame_intros]:
  "frames dirs (write_file p c)" "frames unwritable (write_file p c)" "frames cut_short (write_file p c)"
  "frames unreadable (write_file p c)" "frames commands (write_file p c)"
  "frames ext (write_file p c)" "frames world.more (write_file p c)"
  by (rule frames_write_file, simp)+

lemma write_file_other: "q \<noteq> p \<Longrightarrow> files (snd (write_file p c s)) q = files s q"
  by (simp add: write_file_eval split: option.split)

section \<open>Programs and the clock\<close>

text \<open>What \<open>subprocess.run\<close> returns, output decoded.\<close>

record proc =
  returncode :: int
  out :: string
  err :: string

text \<open>
  The operating system: starting a program (command line, environment, working directory),
  the clocks, the process's environment and working directory, directories the scripts do not
  own, the search path, names for temporary files, and \<open>hashlib.md5(...).hexdigest()\<close>.
\<close>

record 'x os =
  os_run :: "string list \<Rightarrow> (string, string) dict option \<Rightarrow> string option \<Rightarrow> 'x \<Rightarrow> proc result \<times> 'x"
  os_time :: "'x \<Rightarrow> rat \<times> 'x"
  os_now :: "'x \<Rightarrow> datetime \<times> 'x"
  os_environ :: "'x \<Rightarrow> (string, string) dict"
  os_getcwd :: "'x \<Rightarrow> string"
  os_exists :: "string \<Rightarrow> 'x \<Rightarrow> bool"
  os_rmtree :: "string \<Rightarrow> 'x \<Rightarrow> unit result \<times> 'x"
  os_which :: "string \<Rightarrow> 'x \<Rightarrow> bool"
  os_tempfile :: "'x \<Rightarrow> path \<times> 'x"
  md5_hex :: "string \<Rightarrow> string"

text \<open>An operation of the operating system as a step of the scripts.\<close>

definition on_ext :: "('x \<Rightarrow> 'a \<times> 'x) \<Rightarrow> (('x, 'z) world_scheme, 'a) step" where
  "on_ext f s = (case f (ext s) of (a, x) \<Rightarrow> (Inr a, s\<lparr>ext := x\<rparr>))"

definition on_ext_result :: "('x \<Rightarrow> 'a result \<times> 'x) \<Rightarrow> (('x, 'z) world_scheme, 'a) step" where
  "on_ext_result f s = (case f (ext s) of (r, x) \<Rightarrow> (r, s\<lparr>ext := x\<rparr>))"

definition run_proc ::
  "'x os \<Rightarrow> string list \<Rightarrow> (string, string) dict option \<Rightarrow> string option \<Rightarrow> (('x, 'z) world_scheme, proc) step" where
  "run_proc os cmd env cwd s =
     on_ext_result (os_run os cmd env cwd) (s\<lparr>commands := commands s @ [cmd]\<rparr>)"

text \<open>\<open>subprocess.run(..., check=True)\<close>.\<close>

definition run_check ::
  "'x os \<Rightarrow> string list \<Rightarrow> string option \<Rightarrow> (('x, 'z) world_scheme, proc) step" where
  "run_check os cmd cwd = and_then (run_proc os cmd None cwd) (\<lambda>p.
     if returncode p = 0 then ret p else raise (CalledProcessError (returncode p) (err p)))"

lemma frames_on_ext:
  assumes "\<And>s x. f (s\<lparr>ext := x\<rparr>) = f s"
  shows "frames f (on_ext g)" and "frames f (on_ext_result h)"
  by (simp_all add: frames_def on_ext_def on_ext_result_def assms split: prod.split)

lemma frames_world_ext [frame_intros]:
  "frames files (on_ext g)" "frames dirs (on_ext g)" "frames unwritable (on_ext g)" "frames cut_short (on_ext g)"
  "frames unreadable (on_ext g)" "frames commands (on_ext g)" "frames world.more (on_ext g)"
  "frames files (on_ext_result h)" "frames dirs (on_ext_result h)" "frames unwritable (on_ext_result h)"
  "frames cut_short (on_ext_result h)"
  "frames unreadable (on_ext_result h)" "frames commands (on_ext_result h)" "frames world.more (on_ext_result h)"
  by (rule frames_on_ext, simp)+

lemma frames_run_proc:
  assumes "\<And>s x. f (s\<lparr>ext := x\<rparr>) = f s" and "\<And>s c. f (s\<lparr>commands := c\<rparr>) = f s"
  shows "frames f (run_proc os cmd env cwd)"
  by (simp add: frames_def run_proc_def on_ext_result_def assms split: prod.split)

lemma frames_world_run [frame_intros]:
  "frames files (run_proc os cmd env cwd)" "frames dirs (run_proc os cmd env cwd)"
  "frames unwritable (run_proc os cmd env cwd)" "frames cut_short (run_proc os cmd env cwd)"
  "frames unreadable (run_proc os cmd env cwd)"
  "frames world.more (run_proc os cmd env cwd)"
  by (rule frames_run_proc, simp, simp)+

lemma run_proc_commands: "commands (snd (run_proc os cmd env cwd s)) = commands s @ [cmd]"
  by (simp add: run_proc_def on_ext_result_def split: prod.split)

lemma run_proc_commandsD: "run_proc os cmd env cwd s = (r, s') \<Longrightarrow> commands s' = commands s @ [cmd]"
  using run_proc_commands [of os cmd env cwd s] by simp

section \<open>A scripted system\<close>

text \<open>
  A concrete operating system, on which the statements about any system can be evaluated: its
  state is the time and the results of the programs still to be started, each with its duration;
  when they are used up, every further program fails.
\<close>

definition sample_os :: "(rat \<times> (rat \<times> proc) list) os" where
  "sample_os = \<lparr>
     os_run = (\<lambda>cmd env cwd (t, script). case script of
        [] \<Rightarrow> (Inr \<lparr>returncode = 1, out = [], err = []\<rparr>, (t, []))
      | (d, p) # rest \<Rightarrow> (Inr p, (t + d, rest))),
     os_time = (\<lambda>(t, script). (t, (t, script))),
     os_now = (\<lambda>x. (\<lparr>year = 2024, month = 2, day = 29, hour = 12, minute = 30, second = 15, micro = 0\<rparr>, x)),
     os_environ = (\<lambda>_. [(''PATH'', ''/bin'')]),
     os_getcwd = (\<lambda>_. ''/repo''),
     os_exists = (\<lambda>_ _. False),
     os_rmtree = (\<lambda>_ x. (Inr (), x)),
     os_which = (\<lambda>_ _. True),
     os_tempfile = (\<lambda>x. (Path ''/'' [''tmp'', ''patched0''], x)),
     md5_hex = (\<lambda>s. replicate 32 (CHR ''0''))\<rparr>"

definition sample_world :: "(rat \<times> proc) list \<Rightarrow> (rat \<times> (rat \<times> proc) list) world" where
  "sample_world script = \<lparr>files = (\<lambda>_. None),
     dirs = (\<lambda>p. p \<in> {Path [] [], Path ''/'' [''tmp''], Path [] [''test-results''], Path [] [''test-results'', ''retries'']}),
     unreadable = (\<lambda>_. False), unwritable = (\<lambda>_. False), cut_short = (\<lambda>_. None), commands = [], ext = (0, script)\<rparr>"

end
