(* ===== verification/Trailing_Newline.thy ===== *)
theory Trailing_Newline
  imports File_System
begin

text \<open>
  \<open>scripts/ensure_one_trailing_newline.py\<close>: the line list transformation, and the script around
  it, which reads a file, transforms its lines and writes them back.
\<close>

section \<open>The script\<close>

definition has_trailing_newline :: "string \<Rightarrow> bool" where
  "has_trailing_newline line \<longleftrightarrow> drop (length line - 1) line = [LF]"

text \<open>
  \<open>re.match(r"^\s*$", line)\<close>: the dollar matches at the end and before a final line feed, which
  is itself in the class \<open>\s\<close>, so a line matches when it is all white space.
\<close>

definition blank_line :: "string \<Rightarrow> bool" where
  "blank_line line \<longleftrightarrow> list_all is_space line"

text \<open>The loop over \<open>lines[::-1]\<close> that leaves at the first line that is not blank.\<close>

fun count_blank :: "string list \<Rightarrow> nat" where
  "count_blank [] = 0"
| "count_blank (line # rest) = (if blank_line line then Suc (count_blank rest) else 0)"

definition process_lines :: "string list \<Rightarrow> string list result" where
  "process_lines lines =
     (let trim_count = count_blank (rev lines);
          cutoff_index = length lines - trim_count;
          new_lines = take cutoff_index lines
      in if new_lines = [] then Inl IndexError
         else let new_lines =
             (if has_trailing_newline (last new_lines) then new_lines
              else new_lines[length new_lines - 1 := last new_lines @ [LF]])
           in Inr (new_lines @ [[]]))"

text \<open>What a text becomes when its lines are read, processed and written back.\<close>

definition trim_text :: "string \<Rightarrow> string result" where
  "trim_text t = res_bind (process_lines (file_lines t)) (\<lambda>lines. Inr (concat lines))"

definition trim_main :: "string list \<Rightarrow> (('x, 'z) world_scheme, unit) step" where
  "trim_main argv =
     (if length argv \<noteq> 2 then raise (SystemExit 1)
      else let file_name = path_of (argv ! 1) in
        and_then (read_text file_name) (\<lambda>t.
        and_then (of_result (trim_text t)) (\<lambda>t'.
        write_file file_name (Text t'))))"

section \<open>Lemmas\<close>

lemma has_trailing_newline_iff: "has_trailing_newline l \<longleftrightarrow> l \<noteq> [] \<and> last l = LF"
  by (cases l rule: rev_cases) (auto simp: has_trailing_newline_def)

lemma count_blank_append:
  "list_all blank_line bs \<Longrightarrow> \<not> blank_line l \<Longrightarrow> count_blank (bs @ l # xs) = length bs"
  by (induction bs) auto

lemma count_blank_all: "list_all blank_line bs \<Longrightarrow> count_blank bs = length bs"
  by (induction bs) auto

text \<open>Every list of lines is all blank, or has a last line that is not.\<close>

lemma blank_split:
  obtains (blank) "list_all blank_line ls"
  | (split) xs l bs where "ls = xs @ l # bs" "\<not> blank_line l" "list_all blank_line bs"
proof (induction ls arbitrary: thesis rule: rev_induct)
  case Nil
  then show ?case by simp
next
  case (snoc y ys)
  show ?case
  proof (cases "blank_line y")
    case False
    show ?thesis by (rule snoc.prems(2) [of ys y "[]"]) (use False in auto)
  next
    case True
    show ?thesis
    proof (rule snoc.IH)
      assume "list_all blank_line ys"
      with True show ?thesis by (intro snoc.prems(1)) simp
    next
      fix xs l bs
      assume "ys = xs @ l # bs" "\<not> blank_line l" "list_all blank_line bs"
      with True show ?thesis by (intro snoc.prems(2) [of xs l "bs @ [y]"]) auto
    qed
  qed
qed

definition end_line :: "string \<Rightarrow> string" where
  "end_line l = (if has_trailing_newline l then l else l @ [LF])"

lemma process_lines_split:
  assumes "\<not> blank_line l" and "list_all blank_line bs"
  shows "process_lines (xs @ l # bs) = Inr (xs @ [end_line l, []])"
proof -
  have "count_blank (rev (xs @ l # bs)) = length bs"
    using count_blank_append [of "rev bs" l "rev xs"] assms by (simp add: list_all_iff)
  then have "count_blank (rev bs @ l # rev xs) = length bs" by simp
  then show ?thesis by (simp add: process_lines_def end_line_def Let_def)
qed

lemma process_lines_blank:
  assumes "list_all blank_line ls"
  shows "process_lines ls = Inl IndexError"
  using count_blank_all [of "rev ls"] assms by (simp add: process_lines_def list_all_iff)

lemma blank_end_line: "blank_line (end_line l) = blank_line l"
  by (simp add: end_line_def blank_line_def)

lemma end_line_idem [simp]: "end_line (end_line l) = end_line l"
  by (auto simp: end_line_def has_trailing_newline_iff)

lemma blank_line_Nil [simp]: "blank_line []"
  by (simp add: blank_line_def)

lemma full_line_end_line: "full_line l \<or> open_line l \<Longrightarrow> full_line (end_line l)"
  by (auto simp: full_line_def open_line_def end_line_def has_trailing_newline_iff dest: in_set_butlastD)

lemma lines_ok_snoc: "lines_ok (xs @ [l]) \<Longrightarrow> full_line m \<Longrightarrow> lines_ok (xs @ [m])"
  by (induction xs rule: lines_ok.induct) auto

text \<open>The normal form the script produces, with the lines it consists of.\<close>

lemma trim_text_shape:
  assumes "trim_text s = Inr t"
  obtains xs l where "file_lines t = xs @ [end_line l]" "\<not> blank_line l" "t = concat (xs @ [end_line l])"
    "\<exists>bs. file_lines s = xs @ l # bs \<and> list_all blank_line bs"
proof (cases rule: blank_split [of "file_lines s"])
  case blank
  with assms show ?thesis by (simp add: trim_text_def process_lines_blank)
next
  case (split xs l bs)
  have ok: "lines_ok (xs @ l # bs)" using lines_ok_file_lines [of s] split(1) by simp
  then have okl: "lines_ok (xs @ [l])" using lines_ok_appendD [of "xs @ [l]" bs] by simp
  then have "full_line l \<or> open_line l" using lines_ok_appendD [of xs "[l]"] by simp
  then have "lines_ok (xs @ [end_line l])" using okl lines_ok_snoc full_line_end_line by blast
  moreover have t: "t = concat (xs @ [end_line l])"
    using assms split by (simp add: trim_text_def process_lines_split)
  ultimately have "file_lines t = xs @ [end_line l]" by (simp only: file_lines_concat)
  then show ?thesis using that t split by blast
qed

section \<open>Properties\<close>

text \<open>C32: When some line is not blank, processing keeps every line up to the last such line
  unchanged, drops the blank lines after it, gives the last kept line a line feed if it has none,
  and adds one empty string.\<close>

theorem process_lines_keeps_content:
  assumes "\<not> blank_line l" and "list_all blank_line bs"
  shows "process_lines (xs @ l # bs) =
    Inr (xs @ [if has_trailing_newline l then l else l @ [LF], []])"
  using process_lines_split [OF assms] by (simp add: end_line_def)

theorem process_lines_keeps_content_witness:
  "process_lines ([''bla'' @ [LF]] @ ''useful'' # [[LF], '' '']) =
    Inr ([''bla'' @ [LF]] @ [if has_trailing_newline ''useful'' then ''useful'' else ''useful'' @ [LF], []])"
proof -
  have "\<not> blank_line ''useful''" "list_all blank_line [[LF], '' '']"
    by (simp_all add: blank_line_def is_space_def code_def)
  then show ?thesis by (rule process_lines_keeps_content)
qed

text \<open>C33: Processing raises \<open>IndexError\<close> exactly when every line is blank (in particular for an
  empty file), and it raises nothing else.\<close>

theorem process_lines_error_iff:
  "(process_lines ls = Inl IndexError \<longleftrightarrow> list_all blank_line ls) \<and>
   ((\<exists>e. process_lines ls = Inl e) \<longleftrightarrow> process_lines ls = Inl IndexError)"
proof (cases rule: blank_split [of ls])
  case blank
  then show ?thesis by (simp add: process_lines_blank)
next
  case (split xs l bs)
  then show ?thesis by (simp add: process_lines_split)
qed

text \<open>C34: The script is idempotent on texts: running it on its own output changes nothing.\<close>

theorem trim_text_idempotent:
  assumes "trim_text s = Inr t"
  shows "trim_text t = Inr t"
  using assms
proof (rule trim_text_shape)
  fix xs l
  assume t: "file_lines t = xs @ [end_line l]" "\<not> blank_line l" "t = concat (xs @ [end_line l])"
  then have "process_lines (file_lines t) = Inr (xs @ [end_line l, []])"
    using process_lines_split [of "end_line l" "[]" xs] by (simp add: blank_end_line)
  with t(3) show ?thesis by (simp add: trim_text_def)
qed

theorem trim_text_idempotent_witness:
  "trim_text (''a'' @ [LF]) = Inr (''a'' @ [LF])"
proof -
  have "trim_text (''a'' @ [LF, LF, LF]) = Inr (''a'' @ [LF])"
    by (simp add: trim_text_def process_lines_def has_trailing_newline_def blank_line_def is_space_def code_def)
  then show ?thesis by (rule trim_text_idempotent)
qed

text \<open>C35: A text the script has written ends with exactly one line feed: it ends with a line feed
  and its last line is not blank.\<close>

theorem trim_text_one_newline:
  assumes "trim_text s = Inr t"
  shows "has_trailing_newline t \<and> \<not> blank_line (last (file_lines t))"
  using assms
proof (rule trim_text_shape)
  fix xs l
  assume t: "file_lines t = xs @ [end_line l]" "\<not> blank_line l" "t = concat (xs @ [end_line l])"
  have "end_line l \<noteq> []" "last (end_line l) = LF"
    by (auto simp: end_line_def has_trailing_newline_iff)
  with t show ?thesis by (simp add: blank_end_line has_trailing_newline_iff)
qed

theorem trim_text_one_newline_witness:
  "has_trailing_newline (''a'' @ [LF]) \<and> \<not> blank_line (last (file_lines (''a'' @ [LF])))"
proof -
  have "trim_text ''a'' = Inr (''a'' @ [LF])"
    by (simp add: trim_text_def process_lines_def has_trailing_newline_def blank_line_def is_space_def code_def)
  then show ?thesis by (rule trim_text_one_newline)
qed

text \<open>C36: The script touches no file but the one it is given, and that one only after its text was
  read and processed; on success it holds the processed text. When it fails, nothing has changed,
  except that a write that breaks off leaves what was written so far.\<close>

theorem trim_main_effect:
  "let p = path_of (argv ! 1) in case trim_main argv s of
     (Inl e, s') \<Rightarrow> s' = s \<or> (\<exists>t t' cut. length argv = 2 \<and> fst (read_text p s) = Inr t \<and> trim_text t = Inr t' \<and>
       e = OSError ''No space left on device'' \<and> cut_short s p = Some cut \<and>
       s' = s\<lparr>files := (files s)(p \<mapsto> Text cut)\<rparr>)
   | (Inr u, s') \<Rightarrow> \<exists>t t'. fst (read_text p s) = Inr t \<and> trim_text t = Inr t' \<and>
       s' = s\<lparr>files := (files s)(p \<mapsto> Text t')\<rparr>"
proof (cases "length argv = 2")
  case True
  let ?p = "path_of (argv ! 1)"
  show ?thesis
  proof (cases "fst (read_text ?p s)")
    case (Inl e)
    then have "read_text ?p s = (Inl e, s)" by (metis prod.collapse read_text_state)
    with True show ?thesis by (simp add: trim_main_def and_then_def Let_def)
  next
    case (Inr t)
    then have r: "read_text ?p s = (Inr t, s)" by (metis prod.collapse read_text_state)
    show ?thesis
    proof (cases "trim_text t")
      case (Inl e)
      with True r show ?thesis by (simp add: trim_main_def and_then_def Let_def)
    next
      case (Inr t')
      with True r show ?thesis
        by (auto simp: trim_main_def and_then_def Let_def write_file_eval split: option.split)
    qed
  qed
qed (simp add: trim_main_def Let_def)

end
