(* ===== verification/Argparse.thy ===== *)
theory Argparse
  imports Py_Text
begin

text \<open>
  What the two programs use of the module \<open>argparse\<close> (as of Python 3.11): parsers with options only,
  no positional arguments, no short option but \<open>-h\<close>, and errors that end the program with exit code
  2. The namespace is the record of the program's options; an action of a parser is a function on
  it. Messages are not modelled.
\<close>

section \<open>Numbers\<close>

text \<open>\<open>int(s)\<close> for a string, with its white space, signs, underscores and its limit on digits.\<close>

definition int_space :: "char \<Rightarrow> bool" where
  "int_space c \<longleftrightarrow> (let n = code c in 9 \<le> n \<and> n \<le> 13 \<or> n = 32 \<or> n = 133 \<or> n = 160)"

definition int_strip :: "string \<Rightarrow> string" where
  "int_strip s = rev (dropWhile int_space (rev (dropWhile int_space s)))"

definition digit_groups :: "string \<Rightarrow> bool" where
  "digit_groups s \<longleftrightarrow> list_all (\<lambda>g. g \<noteq> [] \<and> list_all is_digit g) (split_on (CHR ''_'') s)"

definition py_int :: "string \<Rightarrow> int result" where
  "py_int s =
     (let t = int_strip s;
          signed = (t \<noteq> [] \<and> (hd t = CHR ''-'' \<or> hd t = CHR ''+''));
          body = (if signed then tl t else t);
          digits = filter (\<lambda>c. c \<noteq> CHR ''_'') body in
      if \<not> digit_groups body \<or> length digits > 4300 then Inl (ValueError ''invalid literal for int()'')
      else Inr (if signed \<and> hd t = CHR ''-'' then - int (str_nat digits) else int (str_nat digits)))"

section \<open>Parsers\<close>

text \<open>
  The actions: \<open>store_true\<close>, an option with one value (its \<open>type\<close> and \<open>store\<close> or \<open>append\<close>), one with
  \<open>nargs="*"\<close>, and \<open>help\<close> and \<open>version\<close>, which print something and exit. A parser maps its option
  strings to actions, in the order they were added.
\<close>

datatype 'o action =
    Flag "'o \<Rightarrow> 'o"
  | One "string \<Rightarrow> 'o \<Rightarrow> 'o result"
  | Many "string list \<Rightarrow> 'o \<Rightarrow> 'o"
  | Leave

type_synonym 'o parser = "(string \<times> 'o action) list"

text \<open>What an argument is taken for: a plain argument, the first \<open>--\<close>, an option with its explicit value
  (after an equals sign), an option the parser does not know, and \<open>-h\<close> with something attached,
  after an equals sign or not.\<close>

datatype 'o token =
    Plain string
  | Dashes
  | Option "'o action" "string option"
  | Unknown
  | Help_with bool string

definition short :: "string \<Rightarrow> bool" where
  "short opt \<longleftrightarrow> length opt = 2"

definition option_token :: "'o action \<Rightarrow> string \<Rightarrow> string option \<Rightarrow> 'o token" where
  "option_token act opt explicit = (case explicit of
     Some e \<Rightarrow> if short opt then Help_with True e else Option act explicit
   | None \<Rightarrow> Option act None)"

text \<open>\<open>_negative_number_matcher\<close>: \<open>^-\d+$|^-\d*\.\d+$\<close>.\<close>

definition negative_number :: "string \<Rightarrow> bool" where
  "negative_number a =
     (let b = (if a \<noteq> [] \<and> last a = LF then butlast a else a);
          whole = takeWhile is_digit (tl b); rest = dropWhile is_digit (tl b) in
      b \<noteq> [] \<and> hd b = CHR ''-'' \<and>
      (whole \<noteq> [] \<and> rest = [] \<or> rest \<noteq> [] \<and> hd rest = CHR ''.'' \<and> tl rest \<noteq> [] \<and> list_all is_digit (tl rest)))"

text \<open>\<open>_get_option_tuples\<close>: the options an argument may abbreviate.\<close>

definition candidates :: "'o parser \<Rightarrow> string \<Rightarrow> 'o token list" where
  "candidates p a =
     (if prefix ''--'' a
      then let (start, value) = split_once (CHR ''='') a;
               explicit = (if CHR ''='' \<in> set a then Some value else None) in
           map (\<lambda>(opt, act). option_token act opt explicit) (filter (\<lambda>(opt, act). prefix start opt) p)
      else concat (map (\<lambda>(opt, act).
             if opt = take 2 a then [Help_with False (drop 2 a)]
             else if prefix a opt then [Option act None] else []) p))"

text \<open>\<open>_parse_optional\<close>.\<close>

definition token :: "'o parser \<Rightarrow> string \<Rightarrow> 'o token result" where
  "token p a =
     (if a = [] \<or> hd a \<noteq> CHR ''-'' then Inr (Plain a)
      else case map_of p a of
        Some act \<Rightarrow> Inr (Option act None)
      | None \<Rightarrow>
        if length a = 1 then Inr (Plain a)
        else let (opt, value) = split_once (CHR ''='') a in
          case (if CHR ''='' \<in> set a then map_of p opt else None) of
            Some act \<Rightarrow> Inr (option_token act opt (Some value))
          | None \<Rightarrow> (case candidates p a of
              [t] \<Rightarrow> Inr t
            | [] \<Rightarrow> if negative_number a \<or> CHR '' '' \<in> set a then Inr (Plain a) else Inr Unknown
            | _ \<Rightarrow> Inl (SystemExit 2)))"

fun classify :: "'o parser \<Rightarrow> string list \<Rightarrow> 'o token list result" where
  "classify p [] = Inr []"
| "classify p (a # as) =
     (if a = ''--'' then Inr (Dashes # map Plain as)
      else res_bind (token p a) (\<lambda>t. res_bind (classify p as) (\<lambda>ts. Inr (t # ts))))"

text \<open>\<open>-h\<close> with more letters attached: another \<open>-h\<close>, or something that is reported only after the help
  was printed; with an equals sign or a dash it is an error.\<close>

fun help_code :: "bool \<Rightarrow> string \<Rightarrow> int" where
  "help_code sep [] = 2"
| "help_code sep (c # cs) =
     (if sep \<or> c = CHR ''-'' then 2
      else if c \<noteq> CHR ''h'' \<or> cs = [] then 0
      else if hd cs = CHR ''='' then 2 else help_code False cs)"

definition is_plain :: "'o token \<Rightarrow> bool" where
  "is_plain t \<longleftrightarrow> (case t of Plain a \<Rightarrow> True | _ \<Rightarrow> False)"

definition plain_text :: "'o token \<Rightarrow> string" where
  "plain_text t = (case t of Plain a \<Rightarrow> a | _ \<Rightarrow> [])"

text \<open>The loop of \<open>_parse_known_args\<close>: actions are taken from left to right; \<open>extras\<close> tells whether an
  argument was left over, which is an error in the end.\<close>

function consume :: "'o token list \<Rightarrow> bool \<Rightarrow> 'o \<Rightarrow> 'o result" where
  "consume [] extras ns = (if extras then Inl (SystemExit 2) else Inr ns)"
| "consume (Plain a # ts) extras ns = consume ts True ns"
| "consume (Dashes # ts) extras ns = consume ts True ns"
| "consume (Unknown # ts) extras ns = consume ts True ns"
| "consume (Help_with sep e # ts) extras ns = Inl (SystemExit (help_code sep e))"
| "consume (Option Leave explicit # ts) extras ns = Inl (SystemExit (if explicit = None then 0 else 2))"
| "consume (Option (Flag f) explicit # ts) extras ns =
     (if explicit = None then consume ts extras (f ns) else Inl (SystemExit 2))"
| "consume (Option (One f) (Some v) # ts) extras ns =
     (case f v ns of Inl e \<Rightarrow> Inl (SystemExit 2) | Inr ns' \<Rightarrow> consume ts extras ns')"
| "consume (Option (One f) None # ts) extras ns =
     (if ts = [] \<or> \<not> is_plain (hd ts) then Inl (SystemExit 2)
      else case f (plain_text (hd ts)) ns of Inl e \<Rightarrow> Inl (SystemExit 2) | Inr ns' \<Rightarrow> consume (tl ts) extras ns')"
| "consume (Option (Many f) (Some v) # ts) extras ns = consume ts extras (f [v] ns)"
| "consume (Option (Many f) None # ts) extras ns =
     consume (dropWhile is_plain ts) extras (f (map plain_text (takeWhile is_plain ts)) ns)"
  by pat_completeness auto

termination
  by (relation "measure (\<lambda>(ts, extras, ns). length ts)")
     (auto simp: less_Suc_eq_le length_dropWhile_le)

text \<open>\<open>parse_args\<close>, from the namespace of the defaults.\<close>

definition parse_args :: "'o parser \<Rightarrow> 'o \<Rightarrow> string list \<Rightarrow> 'o result" where
  "parse_args p defaults argv = res_bind (classify p argv) (\<lambda>ts. consume ts False defaults)"

section \<open>Lemmas\<close>

text \<open>Whatever is wrong with a command line ends the program; so does a request for help.\<close>

lemma token_errors: "token p a = Inl e \<Longrightarrow> e = SystemExit 2"
  by (auto simp: token_def split: if_splits option.splits prod.splits list.splits)

lemma classify_errors: "classify p as = Inl e \<Longrightarrow> e = SystemExit 2"
proof (induction as)
  case (Cons a as)
  then show ?case using token_errors [of p a]
    by (cases "token p a"; cases "classify p as") (auto split: if_splits)
qed simp

lemma help_code_cases: "help_code sep e \<noteq> 2 \<Longrightarrow> help_code sep e = 0"
  by (induction sep e rule: help_code.induct) (auto split: if_splits)

lemma consume_errors: "consume ts extras ns = Inl e \<Longrightarrow> e \<in> {SystemExit 0, SystemExit 2}"
  by (induction ts extras ns rule: consume.induct)
     (auto split: if_splits sum.splits dest: help_code_cases)

lemma parse_args_errors: "parse_args p dflt argv = Inl e \<Longrightarrow> e \<in> {SystemExit 0, SystemExit 2}"
  using classify_errors [of p argv] consume_errors [of _ False dflt e]
  by (cases "classify p argv") (auto simp: parse_args_def)

lemma token_plain: "a = [] \<or> hd a \<noteq> CHR ''-'' \<Longrightarrow> token p a = Inr (Plain a)"
  by (simp add: token_def)

lemma token_option: "map_of p a = Some act \<Longrightarrow> prefix ''-'' a \<Longrightarrow> token p a = Inr (Option act None)"
  by (cases a) (auto simp: token_def)

lemma classify_plain: "\<forall>a\<in>set as. a = [] \<or> hd a \<noteq> CHR ''-'' \<Longrightarrow> classify p as = Inr (map Plain as)"
  by (induction as) (auto simp: token_plain)

lemma consume_plain: "consume (map Plain as) True ns = Inl (SystemExit 2)"
  by (induction as) auto

text \<open>One step of a parse: a flag, and an option with its value.\<close>

lemma parse_flag:
  assumes "map_of p opt = Some (Flag f)" and "prefix ''-'' opt" and "opt \<noteq> ''--''"
  shows "parse_args p ns (opt # as) = parse_args p (f ns) as"
  by (cases "classify p as") (simp_all add: parse_args_def token_option [OF assms(1,2)] assms(3))

lemma parse_one:
  assumes "map_of p opt = Some (One f)" and "prefix ''-'' opt" and "opt \<noteq> ''--''"
    and "token p v = Inr (Plain v)" and "v \<noteq> ''--''" and "f v ns = Inr ns'"
  shows "parse_args p ns (opt # v # as) = parse_args p ns' as"
  by (cases "classify p as")
     (simp_all add: parse_args_def token_option [OF assms(1,2)] assms(3-6) is_plain_def plain_text_def)

lemma parse_nil [simp]: "parse_args p ns [] = Inr ns"
  by (simp add: parse_args_def)

text \<open>What \<open>str\<close> writes, \<open>int\<close> reads, as long as there are not too many digits.\<close>

lemma digit_not_space: "is_digit c \<Longrightarrow> \<not> int_space c"
  by (simp add: int_space_def is_digit_def Let_def)

lemma int_strip_id: "(\<And>c. c \<in> set s \<Longrightarrow> \<not> int_space c) \<Longrightarrow> int_strip s = s"
proof -
  have d: "dropWhile int_space t = t" if "\<And>c. c \<in> set t \<Longrightarrow> \<not> int_space c" for t
    using that by (cases t) simp_all
  assume n: "\<And>c. c \<in> set s \<Longrightarrow> \<not> int_space c"
  have "dropWhile int_space s = s" by (rule d) (rule n)
  moreover have "dropWhile int_space (rev s) = rev s" by (rule d) (simp add: n)
  ultimately show ?thesis by (simp add: int_strip_def)
qed

lemma py_int_digits:
  assumes "s \<noteq> []" and d: "\<And>c. c \<in> set s \<Longrightarrow> is_digit c" and "length s \<le> 4300"
  shows "py_int s = Inr (int (str_nat s))" and "py_int (CHR ''-'' # s) = Inr (- int (str_nat s))"
proof -
  have no: "CHR ''_'' \<notin> set s" "hd s \<noteq> CHR ''-''" "hd s \<noteq> CHR ''+''"
    using d [of "CHR ''_''"] d [OF hd_in_set [OF assms(1)]] by (auto simp: is_digit_def code_def)
  have groups: "digit_groups s" using assms(1) d no(1) by (simp add: digit_groups_def split_on_no_sep list_all_iff)
  have all: "filter (\<lambda>c. c \<noteq> CHR ''_'') s = s" using no(1) by (intro filter_True) auto
  have dash: "\<not> int_space (CHR ''-'')" by (simp add: int_space_def code_def)
  have "int_strip s = s" "int_strip (CHR ''-'' # s) = CHR ''-'' # s"
    by (rule int_strip_id, use d digit_not_space dash in auto)+
  then show "py_int s = Inr (int (str_nat s))" "py_int (CHR ''-'' # s) = Inr (- int (str_nat s))"
    using no groups all assms(3) by (simp_all add: py_int_def)
qed

lemma py_int_int_str: "length (int_str i) \<le> 4300 \<Longrightarrow> py_int (int_str i) = Inr i"
  using py_int_digits [OF nat_str_nonempty nat_str_digits, of "nat \<bar>i\<bar>"]
  by (cases "i < 0") (simp_all add: int_str_def)

text \<open>A numeral is taken for an argument, also a negative one: the parsers have no option that looks like
  a number.\<close>

lemma negative_number_int_str: "i < 0 \<Longrightarrow> negative_number (int_str i)"
proof -
  assume "i < 0"
  let ?s = "nat_str (nat (- i))"
  have d: "\<And>c. c \<in> set ?s \<Longrightarrow> is_digit c" by (rule nat_str_digits)
  then have "takeWhile is_digit ?s = ?s" "dropWhile is_digit ?s = []" by auto
  moreover have "last (CHR ''-'' # ?s) \<noteq> LF"
    using d [OF last_in_set [OF nat_str_nonempty]] by (auto simp: is_digit_def code_def)
  moreover have "takeWhile is_digit ?s \<noteq> []" unfolding calculation(1) by simp
  ultimately show ?thesis using \<open>i < 0\<close> unfolding int_str_def negative_number_def by (simp add: Let_def)
qed

end
