(* ===== verification/Runtime_History.thy ===== *)
theory Runtime_History
  imports File_System
begin

text \<open>
  The class \<open>RuntimeHistory\<close> of \<open>scripts/auto-retry-tests.py\<close>: a bounded log of the runtimes of
  one test, and the statistics taken from it. Runtimes are floats in the code; the model takes the
  rational numbers they stand for, and leaves out the rounding of sums and quotients.
\<close>

section \<open>The class\<close>

definition MIN_RUNTIME_THRESHOLD :: rat where
  "MIN_RUNTIME_THRESHOLD = 30"

definition MAX_RUNTIME_HISTORY :: nat where
  "MAX_RUNTIME_HISTORY = 50"

record runtime_history =
  rh_test_name :: string
  runtimes :: "rat list"
  last_updated :: string

text \<open>\<open>xs[-n:]\<close> for positive \<open>n\<close>.\<close>

definition last_n :: "nat \<Rightarrow> 'a list \<Rightarrow> 'a list" where
  "last_n n xs = drop (length xs - n) xs"

text \<open>\<open>add_runtime\<close> for a runtime that is long enough, and the time it is recorded at.\<close>

definition record_runtime :: "rat \<Rightarrow> string \<Rightarrow> runtime_history \<Rightarrow> runtime_history" where
  "record_runtime duration now h =
     (let rs = runtimes h @ [duration] in
      h\<lparr>runtimes := (if length rs > MAX_RUNTIME_HISTORY then last_n MAX_RUNTIME_HISTORY rs else rs),
        last_updated := now\<rparr>)"

definition add_runtime ::
  "'x os \<Rightarrow> rat \<Rightarrow> runtime_history \<Rightarrow> (('x, 'z) world_scheme, runtime_history) step" where
  "add_runtime os duration h =
     (if duration \<ge> MIN_RUNTIME_THRESHOLD
      then and_then (on_ext (os_now os)) (\<lambda>now. ret (record_runtime duration (isoformat now) h))
      else ret h)"

text \<open>\<open>statistics.mean\<close>, \<open>statistics.median\<close>, \<open>min\<close> and \<open>max\<close>, which raise on an empty list.\<close>

definition mean :: "rat list \<Rightarrow> rat result" where
  "mean xs = (if xs = [] then Inl StatisticsError else Inr (sum_list xs / of_nat (length xs)))"

definition median :: "rat list \<Rightarrow> rat result" where
  "median xs = (let ys = sort xs; n = length ys in
     if n = 0 then Inl StatisticsError
     else if n mod 2 = 1 then Inr (ys ! (n div 2)) else Inr ((ys ! (n div 2 - 1) + ys ! (n div 2)) / 2))"

definition min_of :: "rat list \<Rightarrow> rat result" where
  "min_of xs = (case xs of [] \<Rightarrow> Inl (ValueError ''min() arg is an empty sequence'') | y # ys \<Rightarrow> Inr (fold min ys y))"

definition max_of :: "rat list \<Rightarrow> rat result" where
  "max_of xs = (case xs of [] \<Rightarrow> Inl (ValueError ''max() arg is an empty sequence'') | y # ys \<Rightarrow> Inr (fold max ys y))"

definition get_average_runtime :: "runtime_history \<Rightarrow> rat result" where
  "get_average_runtime h = (if runtimes h \<noteq> [] then mean (runtimes h) else Inr 0)"

definition get_median_runtime :: "runtime_history \<Rightarrow> rat result" where
  "get_median_runtime h = (if runtimes h \<noteq> [] then median (runtimes h) else Inr 0)"

definition get_runtime_range :: "runtime_history \<Rightarrow> (rat \<times> rat) result" where
  "get_runtime_range h = (if runtimes h = [] then Inr (0, 0)
     else res_bind (min_of (runtimes h)) (\<lambda>lo. res_bind (max_of (runtimes h)) (\<lambda>hi. Inr (lo, hi))))"

definition estimate_remaining_time :: "runtime_history \<Rightarrow> rat result" where
  "estimate_remaining_time h = get_average_runtime h"

section \<open>The invariant\<close>

text \<open>A log is within its bound and holds no short runtime.\<close>

definition history_ok :: "runtime_history \<Rightarrow> bool" where
  "history_ok h \<longleftrightarrow> length (runtimes h) \<le> MAX_RUNTIME_HISTORY \<and>
     list_all (\<lambda>r. MIN_RUNTIME_THRESHOLD \<le> r) (runtimes h)"

lemma length_last_n [simp]: "length (last_n n xs) = min n (length xs)"
  by (simp add: last_n_def)

lemma last_n_all: "length xs \<le> n \<Longrightarrow> last_n n xs = xs"
  by (simp add: last_n_def)

lemma set_last_n: "set (last_n n xs) \<subseteq> set xs"
  by (simp add: last_n_def set_drop_subset)

lemma last_n_append_last_n: "last_n n (last_n n xs @ ys) = last_n n (xs @ ys)"
  by (cases "length xs \<le> n") (auto simp: last_n_def add.commute)

lemma record_runtime_runtimes:
  "runtimes (record_runtime d now h) = last_n MAX_RUNTIME_HISTORY (runtimes h @ [d])"
  by (simp add: record_runtime_def Let_def last_n_all)

lemma record_runtime_test_name [simp]: "rh_test_name (record_runtime d now h) = rh_test_name h"
  by (simp add: record_runtime_def Let_def)

lemma record_runtime_ok:
  assumes "history_ok h" and "MIN_RUNTIME_THRESHOLD \<le> d"
  shows "history_ok (record_runtime d now h)"
  using assms set_last_n [of MAX_RUNTIME_HISTORY "runtimes h @ [d]"]
  by (auto simp: history_ok_def record_runtime_runtimes list_all_iff)

text \<open>What one call does to the log and to the state: it returns, and it moves nothing but the clock.\<close>

lemma add_runtime_returns:
  obtains h' x where "add_runtime os d h s = (Inr h', s\<lparr>ext := x\<rparr>)"
    and "runtimes h' = (if MIN_RUNTIME_THRESHOLD \<le> d
           then last_n MAX_RUNTIME_HISTORY (runtimes h @ [d]) else runtimes h)"
    and "rh_test_name h' = rh_test_name h"
proof (cases "MIN_RUNTIME_THRESHOLD \<le> d")
  case True
  obtain now x where "os_now os (ext s) = (now, x)" by fastforce
  with True show ?thesis
    by (intro that [of "record_runtime d (isoformat now) h" x])
       (auto simp: add_runtime_def and_then_def on_ext_def record_runtime_runtimes)
next
  case False
  then show ?thesis by (intro that [of h "ext s"]) (auto simp: add_runtime_def)
qed

text \<open>A sequence of calls, the states threaded through.\<close>

fun add_runtimes ::
  "'x os \<Rightarrow> rat list \<Rightarrow> runtime_history \<Rightarrow> (('x, 'z) world_scheme, runtime_history) step" where
  "add_runtimes os [] h = ret h"
| "add_runtimes os (d # ds) h = and_then (add_runtime os d h) (add_runtimes os ds)"

section \<open>Statistics\<close>

text \<open>The average a history has, and that computing it raises nothing.\<close>

definition average_of :: "rat list \<Rightarrow> rat" where
  "average_of rs = (if rs = [] then 0 else sum_list rs / of_nat (length rs))"

lemma get_average_runtime_eval: "get_average_runtime h = Inr (average_of (runtimes h))"
  by (simp add: get_average_runtime_def mean_def average_of_def)

lemma median_returns: "xs \<noteq> [] \<Longrightarrow> \<exists>m. median xs = Inr m"
  unfolding median_def Let_def length_sort by (simp only: length_0_conv if_False split: if_split) blast

lemma min_of_Cons [simp]: "min_of (x # xs) = Inr (fold min xs x)"
  and max_of_Cons [simp]: "max_of (x # xs) = Inr (fold max xs x)"
  by (simp_all add: min_of_def max_of_def)

section \<open>Properties\<close>

text \<open>C30: A history refines a bounded log: recording a sequence of durations into a history that is
  within its bound never fails, and leaves the last 50 of the old runtimes followed by the new
  durations of at least 30 seconds, in order.\<close>

theorem add_runtimes_bounded_log:
  assumes "length (runtimes h) \<le> MAX_RUNTIME_HISTORY"
  shows "\<exists>h' s'. add_runtimes os ds h s = (Inr h', s') \<and>
    runtimes h' = last_n 50 (runtimes h @ filter (\<lambda>d. 30 \<le> d) ds) \<and> rh_test_name h' = rh_test_name h"
  using assms
proof (induction ds arbitrary: h s)
  case Nil
  then show ?case by (simp add: last_n_all MAX_RUNTIME_HISTORY_def)
next
  case (Cons d ds)
  obtain h1 x where h1: "add_runtime os d h s = (Inr h1, s\<lparr>ext := x\<rparr>)"
      "runtimes h1 = (if MIN_RUNTIME_THRESHOLD \<le> d
         then last_n MAX_RUNTIME_HISTORY (runtimes h @ [d]) else runtimes h)"
      "rh_test_name h1 = rh_test_name h"
    by (rule add_runtime_returns)
  then have "length (runtimes h1) \<le> MAX_RUNTIME_HISTORY" using Cons.prems by simp
  from Cons.IH [OF this, of "s\<lparr>ext := x\<rparr>"] h1 show ?case
    by (auto simp: and_then_def last_n_append_last_n [of 50 "runtimes h @ [d]"]
        MAX_RUNTIME_HISTORY_def MIN_RUNTIME_THRESHOLD_def)
qed

theorem add_runtimes_bounded_log_witness:
  "\<exists>h' s'. add_runtimes sample_os [12, 45, 31] \<lparr>rh_test_name = ''t'', runtimes = [30], last_updated = []\<rparr>
      (sample_world []) = (Inr h', s') \<and>
    runtimes h' = last_n 50 [30, 45, 31] \<and> rh_test_name h' = ''t''"
  using add_runtimes_bounded_log [of "\<lparr>rh_test_name = ''t'', runtimes = [30], last_updated = []\<rparr>"
      sample_os "[12, 45, 31]" "sample_world []"]
  by (simp add: MAX_RUNTIME_HISTORY_def)

end
