(* ===== verification/Test_Data.thy ===== *)
theory Test_Data
  imports Runtime_History
begin

text \<open>
  The data of \<open>scripts/auto-retry-tests.py\<close>: the dataclasses \<open>TestResult\<close> and \<open>TestSummary\<close>
  with their JSON form (\<open>asdict\<close>, and the constructors called with a dictionary read from a
  file), the command line arguments, and the state of the running program.
\<close>

section \<open>Results and summaries\<close>

record test_result =
  tr_test_name :: string
  attempt :: int
  attempt_type :: string
  success :: bool
  namespace :: "string option"
  duration :: rat
  log_file :: "string option"
  failed_step :: "string option"

record test_summary =
  ts_test_name :: string
  initial_result :: test_result
  retry_results :: "test_result list"
  final_status :: string
  total_attempts :: int
  final_namespace :: "string option"

text \<open>\<open>dataclasses.asdict\<close>.\<close>

definition test_result_json :: "test_result \<Rightarrow> json" where
  "test_result_json r = JObj [
     (''test_name'', JStr (tr_test_name r)),
     (''attempt'', JInt (attempt r)),
     (''attempt_type'', JStr (attempt_type r)),
     (''success'', JBool (success r)),
     (''namespace'', opt_json JStr (namespace r)),
     (''duration'', JFloat (duration r)),
     (''log_file'', opt_json JStr (log_file r)),
     (''failed_step'', opt_json JStr (failed_step r))]"

definition test_summary_json :: "test_summary \<Rightarrow> json" where
  "test_summary_json t = JObj [
     (''test_name'', JStr (ts_test_name t)),
     (''initial_result'', test_result_json (initial_result t)),
     (''retry_results'', list_json test_result_json (retry_results t)),
     (''final_status'', JStr (final_status t)),
     (''total_attempts'', JInt (total_attempts t)),
     (''final_namespace'', opt_json JStr (final_namespace t))]"

definition runtime_history_json :: "runtime_history \<Rightarrow> json" where
  "runtime_history_json h = JObj [
     (''test_name'', JStr (rh_test_name h)),
     (''runtimes'', list_json JFloat (runtimes h)),
     (''last_updated'', JStr (last_updated h))]"

text \<open>
  \<open>TestResult(**d)\<close>: an unknown key or a missing field without default is a \<open>TypeError\<close>; the
  fields with a default may be missing.
\<close>

definition result_fields :: "string list" where
  "result_fields = [''test_name'', ''attempt'', ''attempt_type'', ''success'', ''namespace'',
     ''duration'', ''log_file'', ''failed_step'']"

definition field_or :: "(string, json) dict \<Rightarrow> string \<Rightarrow> json \<Rightarrow> json" where
  "field_or d k dflt = (case dict_get d k of Some v \<Rightarrow> v | None \<Rightarrow> dflt)"

fun test_result_of_json :: "json \<Rightarrow> test_result result" where
  "test_result_of_json (JObj d) =
     (if \<not> list_all (\<lambda>k. k \<in> set result_fields) (dict_keys d)
      then Inl (TypeError ''unexpected keyword argument'')
      else if \<not> list_all (\<lambda>k. dict_has d k) (take 4 result_fields)
      then Inl (TypeError ''missing required arguments'')
      else res_bind (un_str (field_or d ''test_name'' JNull)) (\<lambda>n.
           res_bind (un_int (field_or d ''attempt'' JNull)) (\<lambda>a.
           res_bind (un_str (field_or d ''attempt_type'' JNull)) (\<lambda>t.
           res_bind (un_bool (field_or d ''success'' JNull)) (\<lambda>ok.
           res_bind (un_opt un_str (field_or d ''namespace'' JNull)) (\<lambda>ns.
           res_bind (un_float (field_or d ''duration'' (JFloat 0))) (\<lambda>du.
           res_bind (un_opt un_str (field_or d ''log_file'' JNull)) (\<lambda>l.
           res_bind (un_opt un_str (field_or d ''failed_step'' JNull)) (\<lambda>fs.
           Inr \<lparr>tr_test_name = n, attempt = a, attempt_type = t, success = ok, namespace = ns,
                duration = du, log_file = l, failed_step = fs\<rparr>)))))))))"
| "test_result_of_json _ = Inl (TypeError ''argument after ** must be a mapping'')"

text \<open>The summary that \<open>load_state\<close> rebuilds from a dictionary.\<close>

definition test_summary_of_json :: "json \<Rightarrow> test_summary result" where
  "test_summary_of_json j =
     res_bind (res_bind (json_item ''initial_result'' j) test_result_of_json) (\<lambda>i.
     res_bind (res_bind (json_item ''retry_results'' j) (un_list test_result_of_json)) (\<lambda>rs.
     res_bind (res_bind (json_item ''test_name'' j) un_str) (\<lambda>n.
     res_bind (res_bind (json_item ''final_status'' j) un_str) (\<lambda>st.
     res_bind (res_bind (json_item ''total_attempts'' j) un_int) (\<lambda>ta.
     res_bind (res_bind (json_get ''final_namespace'' JNull j) (un_opt un_str)) (\<lambda>ns.
     Inr \<lparr>ts_test_name = n, initial_result = i, retry_results = rs, final_status = st,
          total_attempts = ta, final_namespace = ns\<rparr>))))))"

lemma opt_str_back: "un_opt un_str (opt_json JStr x) = Inr x"
  by (rule str_codec.of_to_opt) simp

lemma test_result_of_to_json: "test_result_of_json (test_result_json r) = Inr r"
  by (simp add: test_result_json_def result_fields_def field_or_def opt_str_back)

interpretation result_codec: json_codec test_result_json test_result_of_json
  by unfold_locales (rule test_result_of_to_json)

lemma test_summary_of_to_json: "test_summary_of_json (test_summary_json t) = Inr t"
  by (simp add: test_summary_json_def test_summary_of_json_def test_result_of_to_json
      result_codec.of_to_list opt_str_back)

interpretation summary_codec: json_codec test_summary_json test_summary_of_json
  by unfold_locales (rule test_summary_of_to_json)

section \<open>Arguments and state\<close>

text \<open>The command line arguments, \<open>argparse\<close>'s namespace.\<close>

record args =
  arg_parallel :: int
  arg_venv :: "string option"
  arg_extra_args :: "string list"
  arg_attempts_parallel :: int
  arg_attempts_serial :: int
  arg_delete_failed_namespaces :: bool
  arg_output_dir :: string
  arg_resume :: "string option"
  arg_rerun_failed :: "string option"

definition out_path :: "args \<Rightarrow> path" where
  "out_path a = path_of (arg_output_dir a)"

definition state_file :: "args \<Rightarrow> path" where
  "state_file a = path_div (out_path a) ''test_run_state.json''"

definition runtime_file :: "args \<Rightarrow> path" where
  "runtime_file a = path_div (out_path a) ''runtime_history.json''"

text \<open>
  The object graph of the running program, the world below it: the state manager's runtime
  histories, and the runner's fields.
\<close>

record 'x manager = "'x world" +
  histories :: "(string, runtime_history) dict"

record 'x runner = "'x manager" +
  results :: "test_result list"
  test_summaries :: "(string, test_summary) dict"
  start_time :: datetime
  failed_tests :: "string list"
  parallel_attempts_done :: int
  serial_attempts_done :: "(string, int) dict"
  initial_result_log :: "string option"

text \<open>Whether a path is what \<open>pathlib\<close> would build, for the paths below the output directory.\<close>

lemma path_ok_out_path [simp]: "path_ok (out_path a)"
  by (simp add: out_path_def path_ok_path_of)

lemma file_paths_differ: "state_file a \<noteq> runtime_file a"
  by (simp add: state_file_def runtime_file_def path_div_def path_parts_def)

text \<open>Concrete arguments and a fresh runner in the scripted system, for evaluation.\<close>

definition sample_args :: args where
  "sample_args = \<lparr>arg_parallel = 2, arg_venv = None, arg_extra_args = [], arg_attempts_parallel = 1,
     arg_attempts_serial = 2, arg_delete_failed_namespaces = False, arg_output_dir = ''test-results'',
     arg_resume = None, arg_rerun_failed = None\<rparr>"

definition sample_runner :: "(rat \<times> proc) list \<Rightarrow> (rat \<times> (rat \<times> proc) list) runner" where
  "sample_runner script = \<lparr>files = files (sample_world script), dirs = dirs (sample_world script),
     unreadable = unreadable (sample_world script), unwritable = unwritable (sample_world script),
     cut_short = cut_short (sample_world script),
     commands = [], ext = ext (sample_world script), histories = [],
     results = [], test_summaries = [],
     start_time = \<lparr>year = 2024, month = 2, day = 29, hour = 12, minute = 0, second = 0, micro = 7\<rparr>,
     failed_tests = [], parallel_attempts_done = 0, serial_attempts_done = [], initial_result_log = None\<rparr>"

lemma sample_out_path [simp]: "out_path sample_args = Path [] [''test-results'']"
  by (simp add: out_path_def sample_args_def path_of_def path_parts_def)

lemma sample_can_write [simp]:
  "can_write (sample_runner script) (state_file sample_args)"
  "can_write (sample_runner script) (runtime_file sample_args)"
  by (simp_all add: can_write_def sample_runner_def sample_world_def state_file_def runtime_file_def
      path_div_def path_parts_def path_parent_def)

end
