(* ===== verification/State_Manager.thy ===== *)
theory State_Manager
  imports Test_Data
begin

text \<open>
  The class \<open>StateManager\<close> of \<open>scripts/auto-retry-tests.py\<close>: guarded file and JSON operations,
  the runtime histories and their file, and the state file that a run is resumed from. Messages
  printed to the console are not modelled.
\<close>

section \<open>Guarded operations\<close>

text \<open>
  The context manager \<open>safe_file_operation\<close> around a body that opens the file in this mode and
  works on it: what the body raises is raised again as the manager's \<open>except\<close> clauses say.
  \<open>SystemExit\<close> is no \<open>Exception\<close>, and the model's own stop is never caught.
\<close>

definition safe_file_operation :: "path \<Rightarrow> string \<Rightarrow> ('s, 'a) step \<Rightarrow> ('s, 'a) step" where
  "safe_file_operation p mode body = handle body (\<lambda>e. raise (case e of
     FileNotFoundError m \<Rightarrow>
       if mode = ''r'' then FileOperationError (''File not found: '' @ path_str p) else e
   | PermissionError m \<Rightarrow> FileOperationError (''Permission denied: '' @ path_str p)
   | SystemExit n \<Rightarrow> e
   | IllTyped m \<Rightarrow> e
   | _ \<Rightarrow> FileOperationError (''Unexpected error with '' @ path_str p)))"

text \<open>\<open>json.load\<close> of an opened file.\<close>

fun json_load :: "content \<Rightarrow> json result" where
  "json_load (Json j) = Inr j"
| "json_load (Text t) = Inl JSONDecodeError"

text \<open>
  \<open>safe_json_operation\<close>. Its result is a Python value: the document, \<open>None\<close>, or a truth value.
\<close>

definition safe_json_operation ::
  "string \<Rightarrow> path \<Rightarrow> json \<Rightarrow> (('x, 'z) world_scheme, json) step" where
  "safe_json_operation operation p data =
     handle
       (if operation = ''load''
        then safe_file_operation p ''r'' (and_then (open_read p) (\<lambda>c. of_result (json_load c)))
        else if operation = ''save''
        then and_then (safe_file_operation p ''w'' (write_file p (Json data))) (\<lambda>_. ret (JBool True))
        else raise (ValueError (''Unknown operation: '' @ operation)))
       (\<lambda>e. case e of
          FileOperationError m \<Rightarrow>
            if operation = ''load'' \<and> contains ''not found'' m then ret JNull
            else if operation = ''load'' then ret JNull else ret (JBool False)
        | _ \<Rightarrow> raise e)"

section \<open>Runtime histories\<close>

text \<open>One item of the history file: the history to keep, if any runtime is long enough.\<close>

definition load_entry :: "json \<Rightarrow> runtime_history option result" where
  "load_entry data =
     res_bind (res_bind (json_item ''runtimes'' data) (un_list un_float)) (\<lambda>rs.
     let filtered = filter (\<lambda>r. r \<ge> MIN_RUNTIME_THRESHOLD) rs in
     if filtered = [] then Inr None
     else res_bind (res_bind (json_item ''test_name'' data) un_str) (\<lambda>n.
          res_bind (res_bind (json_item ''last_updated'' data) un_str) (\<lambda>u.
          Inr (Some \<lparr>rh_test_name = n, runtimes = filtered, last_updated = u\<rparr>))))"

definition set_history :: "string \<Rightarrow> runtime_history \<Rightarrow> ('x, 'z) manager_scheme \<Rightarrow> ('x, 'z) manager_scheme" where
  "set_history n h s = s\<lparr>histories := dict_set n h (histories s)\<rparr>"

text \<open>The loop of \<open>load_runtime_history\<close>; its result is \<open>loaded_count\<close>.\<close>

fun load_entries :: "(string, json) dict \<Rightarrow> (('x, 'z) manager_scheme, nat) step" where
  "load_entries [] = ret 0"
| "load_entries ((n, data) # rest) =
     and_then (of_result (load_entry data)) (\<lambda>r. case r of
       None \<Rightarrow> load_entries rest
     | Some h \<Rightarrow> and_then (modify (set_history n h)) (\<lambda>_.
                and_then (load_entries rest) (\<lambda>k. ret (Suc k))))"

definition save_runtime_history :: "args \<Rightarrow> (('x, 'z) manager_scheme, json) step" where
  "save_runtime_history a s =
     safe_json_operation ''save'' (runtime_file a) (dict_json runtime_history_json (histories s)) s"

definition load_runtime_history :: "args \<Rightarrow> (('x, 'z) manager_scheme, unit) step" where
  "load_runtime_history a =
     and_then (safe_json_operation ''load'' (runtime_file a) JNull) (\<lambda>data.
     if \<not> json_truthy data then ret ()
     else and_then (of_result (json_items data)) (\<lambda>items.
          and_then (load_entries items) (\<lambda>loaded_count.
          if loaded_count > 0 then and_then (save_runtime_history a) (\<lambda>_. ret ()) else ret ())))"

definition update_runtime_history ::
  "'x os \<Rightarrow> args \<Rightarrow> string \<Rightarrow> rat \<Rightarrow> (('x, 'z) manager_scheme, unit) step" where
  "update_runtime_history os a n d =
     and_then (gets histories) (\<lambda>hs.
     and_then (if dict_has hs n then ret ()
               else and_then (on_ext (os_now os)) (\<lambda>now.
                 modify (set_history n \<lparr>rh_test_name = n, runtimes = [], last_updated = isoformat now\<rparr>))) (\<lambda>_.
     and_then (gets (\<lambda>s. the (dict_get (histories s) n))) (\<lambda>h.
     and_then (add_runtime os d h) (\<lambda>h'.
     and_then (modify (set_history n h')) (\<lambda>_.
     and_then (save_runtime_history a) (\<lambda>_. ret ()))))))"

definition get_estimated_runtime :: "string \<Rightarrow> ('x, 'z) manager_scheme \<Rightarrow> rat result" where
  "get_estimated_runtime n s = (case dict_get (histories s) n of
     Some h \<Rightarrow> get_average_runtime h | None \<Rightarrow> Inr 0)"

section \<open>The state file\<close>

definition build_configuration_dict :: "args \<Rightarrow> json" where
  "build_configuration_dict a = JObj [
     (''parallel'', JInt (arg_parallel a)),
     (''attempts_parallel'', JInt (arg_attempts_parallel a)),
     (''attempts_serial'', JInt (arg_attempts_serial a)),
     (''delete_failed_namespaces'', JBool (arg_delete_failed_namespaces a)),
     (''venv'', opt_json JStr (arg_venv a)),
     (''extra_args'', list_json JStr (arg_extra_args a)),
     (''output_dir'', JStr (path_str (out_path a)))]"

definition build_state_data :: "args \<Rightarrow> ('x, 'z) runner_scheme \<Rightarrow> json" where
  "build_state_data a s = JObj [
     (''start_time'', JStr (isoformat (start_time s))),
     (''failed_tests'', list_json JStr (failed_tests s)),
     (''parallel_attempts_done'', JInt (parallel_attempts_done s)),
     (''serial_attempts_done'', dict_json JInt (serial_attempts_done s)),
     (''initial_result_log'', opt_json JStr (initial_result_log s)),
     (''configuration'', build_configuration_dict a),
     (''test_summaries'', dict_json test_summary_json (test_summaries s)),
     (''all_results'', list_json test_result_json (results s))]"

definition save_state :: "args \<Rightarrow> (('x, 'z) runner_scheme, bool) step" where
  "save_state a s =
     and_then (safe_json_operation ''save'' (state_file a) (build_state_data a s))
       (\<lambda>ok. ret (json_truthy ok)) s"

text \<open>One assignment of \<open>load_state\<close>: read a value out of the document and store it.\<close>

definition restore :: "'a result \<Rightarrow> ('a \<Rightarrow> 's \<Rightarrow> 's) \<Rightarrow> ('s, unit) step" where
  "restore r f = and_then (of_result r) (\<lambda>v. modify (f v))"

definition restore_summary :: "string \<times> json \<Rightarrow> (('x, 'z) runner_scheme, unit) step" where
  "restore_summary = (\<lambda>(n, j). restore (test_summary_of_json j)
     (\<lambda>t s. s\<lparr>test_summaries := dict_set n t (test_summaries s)\<rparr>))"

definition restore_state :: "json \<Rightarrow> (('x, 'z) runner_scheme, unit) step" where
  "restore_state data =
     and_then (restore (res_bind (res_bind (json_item ''start_time'' data) un_str) fromisoformat)
                 (\<lambda>v s. s\<lparr>start_time := v\<rparr>)) (\<lambda>_.
     and_then (restore (res_bind (json_item ''failed_tests'' data) (un_list un_str))
                 (\<lambda>v s. s\<lparr>failed_tests := v\<rparr>)) (\<lambda>_.
     and_then (restore (res_bind (json_item ''parallel_attempts_done'' data) un_int)
                 (\<lambda>v s. s\<lparr>parallel_attempts_done := v\<rparr>)) (\<lambda>_.
     and_then (restore (res_bind (json_item ''serial_attempts_done'' data) (un_dict un_int))
                 (\<lambda>v s. s\<lparr>serial_attempts_done := v\<rparr>)) (\<lambda>_.
     and_then (restore (res_bind (json_get ''initial_result_log'' JNull data) (un_opt un_str))
                 (\<lambda>v s. s\<lparr>initial_result_log := v\<rparr>)) (\<lambda>_.
     and_then (of_result (res_bind (json_item ''test_summaries'' data) json_items)) (\<lambda>items.
     and_then (for_each restore_summary items) (\<lambda>_.
     restore (res_bind (json_item ''all_results'' data) (un_list test_result_of_json))
       (\<lambda>v s. s\<lparr>results := v\<rparr>))))))))"

definition load_state :: "path \<Rightarrow> (('x, 'z) runner_scheme, bool) step" where
  "load_state p =
     and_then (safe_json_operation ''load'' p JNull) (\<lambda>data.
     if \<not> json_truthy data then ret False
     else catch_all (and_then (restore_state data) (\<lambda>_. ret True)) False)"

text \<open>
  \<open>find_latest_state_file\<close> on the state files found below the output directory, with their
  modification times: the first one of the greatest time.
\<close>

fun latest :: "(path \<times> rat) list \<Rightarrow> (path \<times> rat) option" where
  "latest [] = None"
| "latest (f # fs) = (case latest fs of None \<Rightarrow> Some f | Some g \<Rightarrow> if snd f < snd g then Some g else Some f)"

definition find_latest_state_file :: "(path \<times> rat) list \<Rightarrow> path option" where
  "find_latest_state_file found = map_option fst (latest found)"

definition load_failed_tests_from_state ::
  "(path \<times> rat) list \<Rightarrow> path option \<Rightarrow> (('x, 'z) world_scheme, string list) step" where
  "load_failed_tests_from_state found file =
     (case (case file of None \<Rightarrow> find_latest_state_file found | Some p \<Rightarrow> Some p) of
        None \<Rightarrow> ret []
      | Some p \<Rightarrow> and_then (safe_json_operation ''load'' p JNull) (\<lambda>data.
          if \<not> json_truthy data then ret []
          else of_result (res_bind (json_get ''failed_tests'' (JArr []) data) (\<lambda>failed.
               res_bind (json_len failed) (\<lambda>_. un_list un_str failed)))))"

section \<open>Guarded operations: every case\<close>

definition loaded :: "('x, 'z) world_scheme \<Rightarrow> path \<Rightarrow> json" where
  "loaded s p = (case files s p of
     Some (Json j) \<Rightarrow> if unreadable s p then JNull else j | _ \<Rightarrow> JNull)"

lemma safe_load_eval: "safe_json_operation ''load'' p d s = (Inr (loaded s p), s)"
  by (cases "files s p"; cases "the (files s p)")
     (auto simp: safe_json_operation_def safe_file_operation_def handle_def and_then_def open_read_def loaded_def
        missing_error_def split: option.split)

lemma safe_save_eval:
  "safe_json_operation ''save'' p d s =
     (if dirs s p then (Inr (JBool False), s)
      else if \<not> dirs s (path_parent p) then
        (case find (\<lambda>q. \<not> dirs s q) (ancestors p) of
           None \<Rightarrow> (Inl (FileNotFoundError (path_str p)), s)
         | Some q \<Rightarrow> if files s q = None then (Inl (FileNotFoundError (path_str p)), s)
                     else (Inr (JBool False), s))
      else if unwritable s p then (Inr (JBool False), s)
      else case cut_short s p of
        None \<Rightarrow> (Inr (JBool True), s\<lparr>files := (files s)(p \<mapsto> Json d)\<rparr>)
      | Some t \<Rightarrow> (Inr (JBool False), s\<lparr>files := (files s)(p \<mapsto> Text t)\<rparr>))"
  by (simp add: safe_json_operation_def safe_file_operation_def handle_def and_then_def write_file_eval
      missing_error_def split: option.split)

lemma safe_save_ok:
  "can_write s p \<Longrightarrow>
     safe_json_operation ''save'' p d s = (Inr (JBool True), s\<lparr>files := (files s)(p \<mapsto> Json d)\<rparr>)"
  by (simp add: safe_save_eval can_write_def)

lemma safe_save_framed:
  assumes "\<And>s fs. f (s\<lparr>files := fs\<rparr>) = f s"
  shows "frames f (safe_json_operation ''save'' p d)"
  by (simp add: frames_def safe_save_eval assms split: option.split)

section \<open>Histories: lemmas\<close>

definition runtimes_of :: "('x, 'z) manager_scheme \<Rightarrow> string \<Rightarrow> rat list" where
  "runtimes_of s n = (case dict_get (histories s) n of Some h \<Rightarrow> runtimes h | None \<Rightarrow> [])"

text \<open>The manager's invariant: one history per test, each within its bound and without short runtimes.\<close>

definition manager_ok :: "('x, 'z) manager_scheme \<Rightarrow> bool" where
  "manager_ok s \<longleftrightarrow> distinct (dict_keys (histories s)) \<and> list_all history_ok (dict_values (histories s))"

lemma set_values_update: "set (dict_values (dict_set k v d)) \<subseteq> insert v (set (dict_values d))"
  by (induction d) auto

lemma manager_ok_set_history:
  "manager_ok s \<Longrightarrow> history_ok h \<Longrightarrow> manager_ok (set_history n h s)"
proof -
  assume m: "manager_ok s" and h: "history_ok h"
  have "history_ok v" if "v \<in> set (dict_values (dict_set n h (histories s)))" for v
  proof -
    from that have "v \<in> insert h (set (dict_values (histories s)))"
      using set_values_update by (rule rev_subsetD)
    then show ?thesis using m h unfolding manager_ok_def list_all_iff by blast
  qed
  then show ?thesis using m
    by (simp add: manager_ok_def set_history_def distinct_update list_all_iff del: set_map)
qed

lemma manager_ok_get: "manager_ok s \<Longrightarrow> dict_get (histories s) n = Some h \<Longrightarrow> history_ok h"
  by (auto simp: manager_ok_def list_all_iff dest: map_of_SomeD)

lemma manager_ok_frame [simp]:
  "manager_ok (s\<lparr>ext := x\<rparr>) = manager_ok s" "manager_ok (s\<lparr>files := fs\<rparr>) = manager_ok s"
  by (simp_all add: manager_ok_def)

lemma runtimes_of_set_history: "runtimes_of (set_history n h s) = (runtimes_of s)(n := runtimes h)"
  by (simp add: runtimes_of_def set_history_def fun_eq_iff update_conv')

lemma runtimes_of_frame [simp]:
  "runtimes_of (s\<lparr>ext := x\<rparr>) = runtimes_of s" "runtimes_of (s\<lparr>files := fs\<rparr>) = runtimes_of s"
  by (simp_all add: runtimes_of_def fun_eq_iff)

lemma can_write_frame [simp]:
  "can_write (s\<lparr>ext := x\<rparr>) p = can_write s p" "can_write (s\<lparr>files := fs\<rparr>) p = can_write s p"
  "can_write (s\<lparr>histories := hs\<rparr>) p = can_write (s :: ('x, 'z) manager_scheme) p"
  by (simp_all add: can_write_def)

lemma can_write_set_history [simp]: "can_write (set_history n h s) p = can_write s p"
  by (simp add: set_history_def can_write_def)

text \<open>The histories after an update, before they are saved: what the statements of
  \<open>update_runtime_history\<close> up to its last line do.\<close>

lemma update_runtime_history_steps:
  obtains h x where
    "update_runtime_history os a n d s =
       and_then (save_runtime_history a) (\<lambda>_. ret ()) (set_history n h (s\<lparr>ext := x\<rparr>))"
    "runtimes h = (if MIN_RUNTIME_THRESHOLD \<le> d
       then last_n MAX_RUNTIME_HISTORY (runtimes_of s n @ [d]) else runtimes_of s n)"
proof (cases "dict_get (histories s) n")
  case (Some h0)
  obtain h x where h: "add_runtime os d h0 s = (Inr h, s\<lparr>ext := x\<rparr>)"
    "runtimes h = (if MIN_RUNTIME_THRESHOLD \<le> d
       then last_n MAX_RUNTIME_HISTORY (runtimes h0 @ [d]) else runtimes h0)"
    by (rule add_runtime_returns)
  then show ?thesis using Some
    by (intro that [of h x]) (auto simp: update_runtime_history_def and_then_def runtimes_of_def)
next
  case None
  obtain now x1 where now: "os_now os (ext s) = (now, x1)" by fastforce
  define h0 where "h0 = \<lparr>rh_test_name = n, runtimes = [], last_updated = isoformat now\<rparr>"
  let ?s1 = "set_history n h0 (s\<lparr>ext := x1\<rparr>)"
  obtain h x where h: "add_runtime os d h0 ?s1 = (Inr h, ?s1\<lparr>ext := x\<rparr>)"
    "runtimes h = (if MIN_RUNTIME_THRESHOLD \<le> d
       then last_n MAX_RUNTIME_HISTORY (runtimes h0 @ [d]) else runtimes h0)"
    by (rule add_runtime_returns)
  have "dict_get (histories ?s1) n = Some h0" by (simp add: set_history_def update_conv')
  with None now h show ?thesis
    by (intro that [of h x])
       (auto simp: update_runtime_history_def and_then_def on_ext_def runtimes_of_def set_history_def h0_def)
qed

lemma save_runtime_history_ok:
  "can_write s (runtime_file a) \<Longrightarrow> save_runtime_history a s =
     (Inr (JBool True), s\<lparr>files := (files s)(runtime_file a \<mapsto> Json (dict_json runtime_history_json (histories s)))\<rparr>)"
  by (simp add: save_runtime_history_def safe_save_ok)

text \<open>An update whose saving works.\<close>

lemma update_runtime_history_eval:
  assumes "can_write s (runtime_file a)"
  shows "\<exists>s'. update_runtime_history os a n d s = (Inr (), s') \<and>
    runtimes_of s' = (runtimes_of s)(n :=
      if 30 \<le> d then last_n 50 (runtimes_of s n @ [d]) else runtimes_of s n) \<and>
    files s' = (files s)(runtime_file a \<mapsto> Json (dict_json runtime_history_json (histories s')))"
proof -
  obtain h x where u: "update_runtime_history os a n d s =
       and_then (save_runtime_history a) (\<lambda>_. ret ()) (set_history n h (s\<lparr>ext := x\<rparr>))"
    and h: "runtimes h = (if MIN_RUNTIME_THRESHOLD \<le> d
       then last_n MAX_RUNTIME_HISTORY (runtimes_of s n @ [d]) else runtimes_of s n)"
    by (rule update_runtime_history_steps)
  let ?s2 = "set_history n h (s\<lparr>ext := x\<rparr>)"
  have "can_write ?s2 (runtime_file a)" using assms by simp
  then have "update_runtime_history os a n d s =
      (Inr (), ?s2\<lparr>files := (files ?s2)(runtime_file a \<mapsto> Json (dict_json runtime_history_json (histories ?s2)))\<rparr>)"
    using u by (simp add: and_then_def save_runtime_history_ok)
  then show ?thesis
    using h by (simp add: runtimes_of_set_history MIN_RUNTIME_THRESHOLD_def MAX_RUNTIME_HISTORY_def)
       (simp add: set_history_def)
qed

text \<open>Loading what was saved.\<close>

lemma load_entry_json:
  "list_all (\<lambda>r. MIN_RUNTIME_THRESHOLD \<le> r) (runtimes h) \<Longrightarrow>
   load_entry (runtime_history_json h) = Inr (if runtimes h = [] then None else Some h)"
  by (simp add: load_entry_def runtime_history_json_def float_codec.of_to_list list_all_iff)

lemma load_entries_json:
  assumes "list_all (\<lambda>h. list_all (\<lambda>r. MIN_RUNTIME_THRESHOLD \<le> r) (runtimes h)) (dict_values hs)"
    and "distinct (dict_keys (histories s) @ dict_keys hs)"
  shows "load_entries (map (\<lambda>(k, v). (k, runtime_history_json v)) hs) s =
    (Inr (length (filter (\<lambda>(k, h). runtimes h \<noteq> []) hs)),
     s\<lparr>histories := histories s @ filter (\<lambda>(k, h). runtimes h \<noteq> []) hs\<rparr>)"
  using assms
proof (induction hs arbitrary: s)
  case (Cons e hs)
  obtain k h where e: "e = (k, h)" by (cases e)
  show ?case
  proof (cases "runtimes h = []")
    case True
    with Cons e show ?thesis by (simp add: load_entry_json and_then_def)
  next
    case False
    have "set_history k h s = s\<lparr>histories := histories s @ [(k, h)]\<rparr>"
      using Cons.prems(2) e by (auto simp: set_history_def dict_set_new)
    with False Cons e show ?thesis by (simp add: load_entry_json and_then_def)
  qed
qed simp

section \<open>State file: lemmas\<close>

lemma for_each_restore_summary:
  assumes "distinct (dict_keys (test_summaries t) @ dict_keys d)"
  shows "for_each restore_summary (map (\<lambda>(k, v). (k, test_summary_json v)) d) t =
    (Inr (), t\<lparr>test_summaries := test_summaries t @ d\<rparr>)"
  using assms
proof (induction d arbitrary: t)
  case (Cons e d)
  obtain n v where e: "e = (n, v)" by (cases e)
  let ?t = "t\<lparr>test_summaries := test_summaries t @ [(n, v)]\<rparr>"
  have "restore_summary (n, test_summary_json v) t = (Inr (), ?t)"
    using Cons.prems e
    by (auto simp: restore_summary_def restore_def test_summary_of_to_json dict_set_new)
  moreover have "for_each restore_summary (map (\<lambda>(k, v). (k, test_summary_json v)) d) ?t =
      (Inr (), ?t\<lparr>test_summaries := test_summaries ?t @ d\<rparr>)"
    by (rule Cons.IH) (use Cons.prems e in auto)
  ultimately show ?case by (simp add: e and_then_Inr)
qed simp

text \<open>The part of the runner that a state file holds.\<close>

definition restored_from ::
  "('x, 'z) runner_scheme \<Rightarrow> ('x, 'z) runner_scheme \<Rightarrow> ('x, 'z) runner_scheme" where
  "restored_from s t = t\<lparr>start_time := start_time s, failed_tests := failed_tests s,
     parallel_attempts_done := parallel_attempts_done s,
     serial_attempts_done := serial_attempts_done s,
     initial_result_log := initial_result_log s,
     test_summaries := test_summaries s, results := results s\<rparr>"

lemma restore_state_data:
  assumes "datetime_ok (start_time s)" and "distinct (dict_keys (test_summaries s))"
    and "test_summaries t = []"
  shows "restore_state (build_state_data a s) t = (Inr (), restored_from s t)"
proof -
  let ?t = "t\<lparr>start_time := start_time s, failed_tests := failed_tests s,
     parallel_attempts_done := parallel_attempts_done s,
     serial_attempts_done := serial_attempts_done s,
     initial_result_log := initial_result_log s\<rparr>"
  have "for_each restore_summary (map (\<lambda>(k, v). (k, test_summary_json v)) (test_summaries s)) ?t =
      (Inr (), ?t\<lparr>test_summaries := test_summaries s\<rparr>)"
    using for_each_restore_summary [of ?t "test_summaries s"] assms(2,3) by simp
  then show ?thesis
    using assms(1)
    by (simp add: restore_state_def build_state_data_def restore_def and_then_def
        str_codec.of_to_list int_codec.of_to_dict result_codec.of_to_list fromisoformat_isoformat
        opt_str_back dict_json_def [of test_summary_json] restored_from_def)
qed

section \<open>Properties\<close>

text \<open>C5: Resuming restores the run: when a state has been saved, loading the state file into any
  runner that has no summaries yet succeeds and sets its start time, failed tests, attempt counters,
  initial log, summaries and results to those of the saved runner, and nothing else.\<close>

theorem load_state_save_state:
  assumes "can_write s (state_file a)" and "datetime_ok (start_time s)"
    and "distinct (dict_keys (test_summaries s))"
  shows "\<exists>s1. save_state a s = (Inr True, s1) \<and>
    (\<forall>t. files t = files s1 \<longrightarrow> \<not> unreadable t (state_file a) \<longrightarrow> test_summaries t = [] \<longrightarrow>
      load_state (state_file a) t = (Inr True, restored_from s t))"
proof -
  let ?s1 = "s\<lparr>files := (files s)(state_file a \<mapsto> Json (build_state_data a s))\<rparr>"
  have save: "save_state a s = (Inr True, ?s1)"
    using assms(1) by (simp add: save_state_def safe_save_ok and_then_def)
  have "load_state (state_file a) t = (Inr True, restored_from s t)"
    if "files t = files ?s1" "\<not> unreadable t (state_file a)" "test_summaries t = []" for t
  proof -
    have "loaded t (state_file a) = build_state_data a s" using that by (simp add: loaded_def)
    moreover have "json_truthy (build_state_data a s)" by (simp add: build_state_data_def)
    ultimately show ?thesis using restore_state_data [OF assms(2,3) that(3)]
      by (simp add: load_state_def safe_load_eval and_then_def catch_all_Inr)
  qed
  with save show ?thesis by blast
qed

theorem load_state_save_state_witness:
  "\<exists>s1. save_state sample_args (sample_runner []) = (Inr True, s1) \<and>
    (\<forall>t. files t = files s1 \<longrightarrow> \<not> unreadable t (state_file sample_args) \<longrightarrow> test_summaries t = [] \<longrightarrow>
      load_state (state_file sample_args) t = (Inr True, restored_from (sample_runner []) t))"
  by (rule load_state_save_state)
     (simp, simp_all add: sample_runner_def datetime_ok_def days_in_month_def leap_def)

text \<open>C15: Recording a run of a test keeps the last 50 long runtimes of that test and leaves the other
  tests' runtimes alone; it returns, and the history file then holds the histories in memory.\<close>

theorem update_runtime_history_spec:
  assumes "can_write s (runtime_file a)"
  shows "\<exists>s'. update_runtime_history os a n d s = (Inr (), s') \<and>
    runtimes_of s' = (runtimes_of s)(n :=
      if 30 \<le> d then last_n 50 (runtimes_of s n @ [d]) else runtimes_of s n) \<and>
    files s' = (files s)(runtime_file a \<mapsto> Json (dict_json runtime_history_json (histories s')))"
  using update_runtime_history_eval [OF assms] by blast

theorem update_runtime_history_spec_witness:
  "\<exists>s'. update_runtime_history sample_os sample_args ''smoke'' 45 (sample_runner []) = (Inr (), s') \<and>
    runtimes_of s' = (runtimes_of (sample_runner []))(''smoke'' :=
      if (30::rat) \<le> 45 then last_n 50 (runtimes_of (sample_runner []) ''smoke'' @ [45])
      else runtimes_of (sample_runner []) ''smoke'') \<and>
    files s' = (files (sample_runner []))(runtime_file sample_args \<mapsto>
      Json (dict_json runtime_history_json (histories s')))"
  by (rule update_runtime_history_spec) simp

text \<open>C31: The estimate of a test that is shown before it runs is the mean of its recorded runtimes: after
  recording a run, the mean of the last 50 long ones, the new one included if it is long, and 0 when
  there are none; asking for it raises nothing (the mean of no runtimes would).\<close>

theorem estimate_after_update:
  assumes "can_write s (runtime_file a)"
  shows "\<exists>s'. update_runtime_history os a n d s = (Inr (), s') \<and>
    (let rs = if 30 \<le> d then last_n 50 (runtimes_of s n @ [d]) else runtimes_of s n
     in get_estimated_runtime n s' = Inr (if rs = [] then 0 else sum_list rs / of_nat (length rs))) \<and>
    (\<forall>m. m \<noteq> n \<longrightarrow> get_estimated_runtime m s' = get_estimated_runtime m s)"
proof -
  obtain s' where u: "update_runtime_history os a n d s = (Inr (), s')"
    "runtimes_of s' = (runtimes_of s)(n := if 30 \<le> d then last_n 50 (runtimes_of s n @ [d]) else runtimes_of s n)"
    using update_runtime_history_eval [OF assms] by blast
  have "get_estimated_runtime m t = Inr (average_of (runtimes_of t m))" for m and t :: "('a, 'b) manager_scheme"
    by (simp add: get_estimated_runtime_def runtimes_of_def get_average_runtime_eval average_of_def split: option.split)
  with u show ?thesis by (auto simp: average_of_def Let_def)
qed

theorem estimate_after_update_witness:
  "\<exists>s'. update_runtime_history sample_os sample_args ''smoke'' 45 (sample_runner []) = (Inr (), s') \<and>
    get_estimated_runtime ''smoke'' s' = Inr 45"
proof -
  have "runtimes_of (sample_runner []) ''smoke'' = []" by (simp add: runtimes_of_def sample_runner_def)
  with estimate_after_update [of "sample_runner []" sample_args sample_os "''smoke''" 45] show ?thesis
    by (auto simp: last_n_def Let_def)
qed

text \<open>C16: The manager's invariant (one history per test, at most 50 runtimes each, none shorter than 30
  seconds) survives every update, also one whose saving fails.\<close>

theorem update_runtime_history_keeps_invariant:
  assumes "manager_ok s"
  shows "manager_ok (snd (update_runtime_history os a n d s))"
proof -
  obtain h x where u: "update_runtime_history os a n d s =
       and_then (save_runtime_history a) (\<lambda>_. ret ()) (set_history n h (s\<lparr>ext := x\<rparr>))"
    and h: "runtimes h = (if MIN_RUNTIME_THRESHOLD \<le> d
       then last_n MAX_RUNTIME_HISTORY (runtimes_of s n @ [d]) else runtimes_of s n)"
    by (rule update_runtime_history_steps)
  have "list_all (\<lambda>r. MIN_RUNTIME_THRESHOLD \<le> r) (runtimes_of s n)" "length (runtimes_of s n) \<le> MAX_RUNTIME_HISTORY"
    using manager_ok_get [OF assms, of n]
    by (auto simp: runtimes_of_def history_ok_def split: option.split)
  then have "history_ok h"
    using h set_last_n [of MAX_RUNTIME_HISTORY "runtimes_of s n @ [d]"]
    by (auto simp: history_ok_def list_all_iff split: if_splits)
  then have ok: "manager_ok (set_history n h (s\<lparr>ext := x\<rparr>))" using assms by (simp add: manager_ok_set_history)
  have "keeps manager_ok (and_then (save_runtime_history a) (\<lambda>_. ret ()))"
    by (intro keeps_intros) (simp add: keeps_def save_runtime_history_def safe_save_eval split: option.split)
  with ok show ?thesis unfolding u keeps_def by blast
qed

theorem update_runtime_history_keeps_invariant_witness:
  "manager_ok (snd (update_runtime_history sample_os sample_args ''smoke'' 12 (sample_runner [])))"
  by (rule update_runtime_history_keeps_invariant) (simp add: manager_ok_def sample_runner_def)

text \<open>C17: Saved histories are read back by the next run: into a manager without histories, loading the
  file brings back exactly the saved histories that have a runtime.\<close>

theorem load_saved_histories:
  assumes "manager_ok s" and "can_write s (runtime_file a)" and "can_write t (runtime_file a)"
    and "files t = files (snd (save_runtime_history a s))" and "\<not> unreadable t (runtime_file a)"
    and "histories t = []"
  shows "\<exists>t'. load_runtime_history a t = (Inr (), t') \<and>
    histories t' = filter (\<lambda>(n, h). runtimes h \<noteq> []) (histories s)"
proof -
  let ?hs = "histories s"
  let ?js = "map (\<lambda>(k, v). (k, runtime_history_json v)) ?hs"
  let ?t' = "t\<lparr>histories := filter (\<lambda>(n, h). runtimes h \<noteq> []) ?hs\<rparr>"
  have "files t (runtime_file a) = Some (Json (JObj ?js))"
    using assms(2,4) by (simp add: save_runtime_history_ok dict_json_def)
  then have l: "loaded t (runtime_file a) = JObj ?js" using assms(5) by (simp add: loaded_def)
  have e: "load_entries ?js t = (Inr (length (filter (\<lambda>(k, h). runtimes h \<noteq> []) ?hs)), ?t')"
    using load_entries_json [of ?hs t] assms(1,6)
    by (simp add: manager_ok_def list_all_iff history_ok_def)
  have "can_write ?t' (runtime_file a)" using assms(3) by simp
  then obtain fs where sv: "save_runtime_history a ?t' = (Inr (JBool True), ?t'\<lparr>files := fs\<rparr>)"
    using save_runtime_history_ok by blast
  have ld: "safe_json_operation ''load'' (runtime_file a) JNull t = (Inr (JObj ?js), t)"
    using l by (simp add: safe_load_eval)
  show ?thesis
  proof (cases "?hs = []")
    case True
    then show ?thesis using ld assms(6) by (simp add: load_runtime_history_def and_then_def)
  next
    case False
    then show ?thesis using ld e sv by (simp add: load_runtime_history_def and_then_def)
  qed
qed

theorem load_saved_histories_witness:
  "let s = (sample_runner [])\<lparr>histories := [(''smoke'', \<lparr>rh_test_name = ''smoke'', runtimes = [45], last_updated = []\<rparr>)]\<rparr>;
       t = (sample_runner [])\<lparr>files := files (snd (save_runtime_history sample_args s))\<rparr> in
   \<exists>t'. load_runtime_history sample_args t = (Inr (), t') \<and>
     histories t' = filter (\<lambda>(n, h). runtimes h \<noteq> []) (histories s)"
proof -
  let ?s = "(sample_runner [])\<lparr>histories := [(''smoke'', \<lparr>rh_test_name = ''smoke'', runtimes = [45], last_updated = []\<rparr>)]\<rparr>"
  let ?t = "(sample_runner [])\<lparr>files := files (snd (save_runtime_history sample_args ?s))\<rparr>"
  have "manager_ok ?s"
    by (simp add: manager_ok_def history_ok_def MAX_RUNTIME_HISTORY_def MIN_RUNTIME_THRESHOLD_def)
  moreover have "can_write ?s (runtime_file sample_args)" "can_write ?t (runtime_file sample_args)"
    by simp_all
  moreover have "\<not> unreadable ?t (runtime_file sample_args)" "histories ?t = []"
    by (simp_all add: sample_runner_def sample_world_def)
  ultimately show ?thesis
    unfolding Let_def by (intro load_saved_histories) simp_all
qed

text \<open>C22: What a guarded save does in every case: it writes the document and returns true; or it
  returns false, with nothing changed when the path is a directory, may not be written or goes
  through a file, and with the file cut short when the write breaks off after the file was opened
  (the former content is lost); or a directory on the way is missing and \<open>FileNotFoundError\<close>
  escapes the guard.\<close>

theorem safe_json_save_cases:
  "safe_json_operation ''save'' p d s =
     (if dirs s p then (Inr (JBool False), s)
      else if \<not> dirs s (path_parent p) then
        (case find (\<lambda>q. \<not> dirs s q) (ancestors p) of
           None \<Rightarrow> (Inl (FileNotFoundError (path_str p)), s)
         | Some q \<Rightarrow> if files s q = None then (Inl (FileNotFoundError (path_str p)), s)
                     else (Inr (JBool False), s))
      else if unwritable s p then (Inr (JBool False), s)
      else case cut_short s p of
        None \<Rightarrow> (Inr (JBool True), s\<lparr>files := (files s)(p \<mapsto> Json d)\<rparr>)
      | Some t \<Rightarrow> (Inr (JBool False), s\<lparr>files := (files s)(p \<mapsto> Text t)\<rparr>))"
  by (rule safe_save_eval)

end
