(* ===== verification/Log_Patterns.thy ===== *)
theory Log_Patterns
  imports Py_Text
begin

text \<open>
  The regular expressions with which \<open>scripts/auto-retry-tests.py\<close> reads test logs. Each is a
  literal text followed by a group of one or more characters of a class, so a match at a position
  is the literal and the longest run of the class after it; \<open>re.search\<close> takes the leftmost match
  and \<open>re.findall\<close> all matches from left to right without overlap.
\<close>

section \<open>Matching\<close>

text \<open>The group of a match that starts where the text starts.\<close>

definition run_at :: "string \<Rightarrow> (char \<Rightarrow> bool) \<Rightarrow> string \<Rightarrow> string option" where
  "run_at lit cls s =
     (if prefix lit s
      then let r = takeWhile cls (drop (length lit) s) in if r = [] then None else Some r
      else None)"

fun search_run :: "string \<Rightarrow> (char \<Rightarrow> bool) \<Rightarrow> string \<Rightarrow> string option" where
  "search_run lit cls [] = run_at lit cls []"
| "search_run lit cls (c # cs) =
     (case run_at lit cls (c # cs) of Some r \<Rightarrow> Some r | None \<Rightarrow> search_run lit cls cs)"

lemma run_at_SomeD:
  "run_at lit cls s = Some r \<Longrightarrow> r \<noteq> [] \<and> list_all cls r \<and> (\<exists>b. s = lit @ r @ b \<and> (b = [] \<or> \<not> cls (hd b)))"
proof -
  assume h: "run_at lit cls s = Some r"
  then obtain t where s: "s = lit @ t" by (auto simp: run_at_def prefix_def split: if_splits)
  with h have r: "r = takeWhile cls t" "r \<noteq> []" by (auto simp: run_at_def Let_def split: if_splits)
  then have "s = lit @ r @ dropWhile cls t" using s by simp
  moreover have "dropWhile cls t = [] \<or> \<not> cls (hd (dropWhile cls t))"
    using hd_dropWhile by blast
  moreover have "list_all cls r" using r(1) by (auto simp: list_all_iff dest: set_takeWhileD)
  ultimately show ?thesis using r(2) by blast
qed

function find_runs :: "string \<Rightarrow> (char \<Rightarrow> bool) \<Rightarrow> string \<Rightarrow> string list" where
  "find_runs lit cls [] = []"
| "find_runs lit cls (c # cs) =
     (case run_at lit cls (c # cs) of
        Some r \<Rightarrow> r # find_runs lit cls (drop (length lit + length r) (c # cs))
      | None \<Rightarrow> find_runs lit cls cs)"
  by pat_completeness auto
termination
  by (relation "measure (\<lambda>(lit, cls, s). length s)") (auto dest: run_at_SomeD)

section \<open>What the searches find\<close>

lemma run_at_None_contains:
  "search_run lit cls s = None \<Longrightarrow> run_at lit cls (drop i s) = None"
proof (induction s arbitrary: i)
  case (Cons c cs)
  then show ?case by (cases i) (auto split: option.splits)
qed simp

text \<open>A found group is a maximal run of the class after an occurrence of the literal.\<close>

lemma search_run_SomeD:
  "search_run lit cls s = Some r \<Longrightarrow> r \<noteq> [] \<and> list_all cls r \<and>
    (\<exists>a b. s = a @ lit @ r @ b \<and> (b = [] \<or> \<not> cls (hd b)))"
proof (induction s)
  case Nil
  then show ?case by (metis append_Nil run_at_SomeD search_run.simps(1))
next
  case (Cons c cs)
  show ?case
  proof (cases "run_at lit cls (c # cs)")
    case None
    with Cons obtain a b where "r \<noteq> []" "list_all cls r" "cs = a @ lit @ r @ b" "b = [] \<or> \<not> cls (hd b)"
      by auto
    then have "c # cs = (c # a) @ lit @ r @ b" by simp
    with \<open>r \<noteq> []\<close> \<open>list_all cls r\<close> \<open>b = [] \<or> \<not> cls (hd b)\<close> show ?thesis by blast
  next
    case (Some r')
    with Cons.prems have "run_at lit cls (c # cs) = Some r" by simp
    from run_at_SomeD [OF this] show ?thesis by (metis append_Nil)
  qed
qed

text \<open>A search fails exactly when no occurrence of the literal has a character of the class next.\<close>

lemma search_run_None_iff:
  "search_run lit cls s = None \<longleftrightarrow> (\<nexists>a c b. s = a @ lit @ c # b \<and> cls c)"
proof
  assume none: "search_run lit cls s = None"
  show "\<nexists>a c b. s = a @ lit @ c # b \<and> cls c"
  proof
    assume "\<exists>a c b. s = a @ lit @ c # b \<and> cls c"
    then obtain a c b where s: "s = a @ lit @ c # b" and c: "cls c" by blast
    have "run_at lit cls (drop (length a) s) = None" by (rule run_at_None_contains [OF none])
    with s c show False by (simp add: run_at_def Let_def)
  qed
next
  assume no: "\<nexists>a c b. s = a @ lit @ c # b \<and> cls c"
  show "search_run lit cls s = None"
  proof (rule ccontr)
    assume "search_run lit cls s \<noteq> None"
    then obtain r where "search_run lit cls s = Some r" by blast
    from search_run_SomeD [OF this] obtain a b where "r \<noteq> []" "list_all cls r" "s = a @ lit @ r @ b"
      by blast
    then show False using no by (cases r) auto
  qed
qed

section \<open>Matches stay within a line\<close>

lemma run_at_append_LF:
  assumes "LF \<notin> set lit" and "\<not> cls LF"
  shows "run_at lit cls (a @ LF # b) = run_at lit cls a"
proof -
  have p: "prefix lit (a @ LF # b) = prefix lit a"
  proof
    assume "prefix lit (a @ LF # b)"
    then consider "prefix lit a" | us where "lit = a @ us" "prefix us (LF # b)"
      by (auto simp: prefix_append)
    then show "prefix lit a"
    proof cases
      case 2
      then show ?thesis using assms(1) by (cases us) auto
    qed
  qed simp
  show ?thesis
  proof (cases "prefix lit a")
    case True
    then obtain t where "a = lit @ t" by (auto simp: prefix_def)
    then show ?thesis using assms(2) by (simp add: run_at_def takeWhile_tail)
  next
    case False
    then show ?thesis using p by (simp add: run_at_def)
  qed
qed

text \<open>
  For a literal without line feed and a class without it, searching a text is searching its lines
  one after the other.
\<close>

lemma find_runs_append_LF:
  assumes "LF \<notin> set lit" and "\<not> cls LF" and "lit \<noteq> []"
  shows "find_runs lit cls (a @ LF # b) = find_runs lit cls a @ find_runs lit cls b"
proof (induction a rule: length_induct)
  case (1 a)
  show ?case
  proof (cases a)
    case Nil
    have "run_at lit cls (LF # b) = None"
      using run_at_append_LF [where lit = lit and cls = cls, OF assms(1,2), of "[]" b] assms(3) by (simp add: run_at_def)
    with Nil show ?thesis by simp
  next
    case (Cons c cs)
    have same: "run_at lit cls (c # cs @ LF # b) = run_at lit cls (c # cs)"
      using run_at_append_LF [where lit = lit and cls = cls, OF assms(1,2), of "c # cs" b] by simp
    show ?thesis
    proof (cases "run_at lit cls (c # cs)")
      case None
      with same Cons "1.IH" show ?thesis by simp
    next
      case (Some r)
      let ?k = "length lit + length r"
      obtain b' where ab: "c # cs = lit @ r @ b'" and r: "r \<noteq> []" using run_at_SomeD [OF Some] by blast
      have d: "drop ?k ((c # cs) @ LF # b) = b' @ LF # b" "drop ?k (c # cs) = b'"
        by (simp_all add: ab)
      have "length a = length lit + length r + length b'" using arg_cong [OF ab, of length] Cons by simp
      with r have "length b' < length a" by (cases r) auto
      with "1.IH" have "find_runs lit cls (b' @ LF # b) = find_runs lit cls b' @ find_runs lit cls b" by blast
      with same Some d Cons show ?thesis by simp
    qed
  qed
qed

lemma find_runs_join_lines:
  assumes "LF \<notin> set lit" and "\<not> cls LF" and "lit \<noteq> []"
  shows "find_runs lit cls (join [LF] ls) = concat (map (find_runs lit cls) ls)"
proof (induction "[LF]" ls rule: join.induct)
  case (3 x y ys)
  then show ?case using find_runs_append_LF [where lit = lit and cls = cls, OF assms] by simp
qed auto

lemma find_runs_absent: "lit \<noteq> [] \<Longrightarrow> \<not> contains lit s \<Longrightarrow> find_runs lit cls s = []"
  by (induction s) (auto simp: run_at_def)

text \<open>The first match of a text in which the literal starts nowhere earlier.\<close>

lemma find_runs_first:
  assumes "\<not> contains lit (a @ butlast lit)" and "r \<noteq> []" and "list_all cls r" and "b = [] \<or> \<not> cls (hd b)" and "lit \<noteq> []"
  shows "find_runs lit cls (a @ lit @ r @ b) = r # find_runs lit cls b"
  using assms(1)
proof (induction a)
  case Nil
  have tw: "takeWhile cls (r @ b) = r"
    using assms(3,4) by (cases b) (auto simp: list_all_iff takeWhile_tail)
  then have "run_at lit cls (lit @ r @ b) = Some r"
    using assms(2) by (simp add: run_at_def)
  then show ?case using assms(5) by (cases lit) auto
next
  case (Cons c cs)
  have "\<not> prefix lit ((c # cs) @ lit @ r @ b)"
  proof
    assume p: "prefix lit ((c # cs) @ lit @ r @ b)"
    have "length lit \<le> length ((c # cs) @ butlast lit)" using assms(5) by simp
    moreover have "prefix ((c # cs) @ butlast lit) ((c # cs) @ lit @ r @ b)"
      by (metis append.assoc append_butlast_last_id assms(5) prefixI)
    ultimately have "prefix lit ((c # cs) @ butlast lit)"
      using p prefix_length_prefix by blast
    then show False using Cons.prems by simp
  qed
  then have "run_at lit cls (c # cs @ lit @ r @ b) = None" by (simp add: run_at_def)
  moreover have "\<not> contains lit (cs @ butlast lit)" using Cons.prems by simp
  ultimately show ?case using Cons.IH by simp
qed

end
