(* ===== verification/Test_Executor.thy ===== *)
theory Test_Executor
  imports State_Manager Log_Patterns
begin

text \<open>
  The class \<open>TestExecutor\<close> of \<open>scripts/auto-retry-tests.py\<close>: display texts, log names, the
  command line of \<open>scripts/run-tests\<close>, what is read from logs, and one run of a test. What it
  prints to the console is not modelled.
\<close>

section \<open>Texts and names\<close>

definition format_duration :: "rat \<Rightarrow> string" where
  "format_duration seconds =
     (if seconds < 60 then format_1f seconds @ ''s''
      else if seconds < 3600 then format_1f (seconds / 60) @ ''m''
      else format_1f (seconds / 3600) @ ''h'')"

text \<open>\<open>s[:k]\<close>; a negative \<open>k\<close> counts from the end.\<close>

definition slice_to :: "int \<Rightarrow> 'a list \<Rightarrow> 'a list" where
  "slice_to k s = (if 0 \<le> k then take (nat k) s else take (length s - nat (- k)) s)"

definition shorten_test_name :: "string \<Rightarrow> int \<Rightarrow> string" where
  "shorten_test_name test_name max_length =
     (let parts = split_on (CHR '','') test_name in
      if int (length test_name) \<le> max_length then test_name
      else if contains '','' test_name \<and> length parts > 2 then hd parts @ ''...'' @ last parts
      else slice_to (max_length - 3) test_name @ ''...'')"

definition MAX_TEST_NAME_LENGTH :: nat where
  "MAX_TEST_NAME_LENGTH = 100"

definition HASH_SUFFIX_LENGTH :: nat where
  "HASH_SUFFIX_LENGTH = 8"

definition create_safe_log_filename :: "'x os \<Rightarrow> string \<Rightarrow> int \<Rightarrow> string \<Rightarrow> string" where
  "create_safe_log_filename os test_name att att_type =
     (let safe = replace_char (CHR ''/'') (CHR ''_'') test_name;
          safe = (if length safe > MAX_TEST_NAME_LENGTH
                  then take (MAX_TEST_NAME_LENGTH - 9) safe @ ''_'' @
                       take HASH_SUFFIX_LENGTH (md5_hex os test_name)
                  else safe)
      in safe @ ''_attempt_'' @ int_str att @ ''_'' @ att_type @ ''.txt'')"

section \<open>The command line and its environment\<close>

definition build_test_command :: "args \<Rightarrow> string option \<Rightarrow> bool \<Rightarrow> string option \<Rightarrow> string list" where
  "build_test_command a test_name skip_delete work_dir =
     [''scripts/run-tests''] @
     (if arg_parallel a \<noteq> 0 \<and> \<not> truthy test_name then [''--parallel'', int_str (arg_parallel a)] else []) @
     (if skip_delete then [''--skip-delete''] else []) @
     (if truthy test_name then [''--test'', the test_name] else []) @
     (if truthy work_dir then [''--work-dir'', the work_dir] else []) @
     arg_extra_args a"

definition setup_test_environment ::
  "'x os \<Rightarrow> args \<Rightarrow> (('x, 'z) world_scheme, (string, string) dict option) step" where
  "setup_test_environment os a s =
     (if \<not> truthy (arg_venv a) then ret None s
      else let venv = the (arg_venv a);
               venv_bin = path_str (path_div (path_of venv) ''bin'');
               env = os_environ os (ext s)
           in if \<not> os_exists os venv_bin (ext s) then ret None s
              else case dict_get env ''PATH'' of
                None \<Rightarrow> raise (KeyError ''PATH'') s
              | Some old \<Rightarrow> ret (Some (dict_set ''VIRTUAL_ENV'' venv
                              (dict_set ''PATH'' (venv_bin @ '':'' @ old) env))) s)"

section \<open>Reading logs\<close>

definition namespace_in :: "string \<Rightarrow> string option" where
  "namespace_in content = map_option (\<lambda>r. ''kuttl-test-'' @ r)
     (search_run ''Creating namespace: kuttl-test-'' (\<lambda>c. \<not> is_space c) content)"

definition failed_step_in :: "string \<Rightarrow> string" where
  "failed_step_in content =
     (case search_run ''failed in step '' (\<lambda>c. is_word c \<or> c = CHR ''-'') content of
        Some step \<Rightarrow> ''failed in step '' @ step
      | None \<Rightarrow> ''Could not find failed step'')"

definition failed_tests_in :: "string \<Rightarrow> string list" where
  "failed_tests_in content = find_runs ''--- FAIL: kuttl/harness/'' (\<lambda>c. \<not> is_space c) content"

definition extract_test_namespace_from_log_file :: "path \<Rightarrow> (('x, 'z) world_scheme, string option) step" where
  "extract_test_namespace_from_log_file p =
     catch_all (and_then (read_text p) (\<lambda>content. ret (namespace_in content))) None"

definition extract_failed_step :: "path \<Rightarrow> (('x, 'z) world_scheme, string option) step" where
  "extract_failed_step p =
     catch_all (and_then (read_text p) (\<lambda>content. ret (Some (failed_step_in content))))
       (Some ''Could not find failed step'')"

definition parse_failed_tests_from_log :: "path \<Rightarrow> (('x, 'z) world_scheme, string list) step" where
  "parse_failed_tests_from_log p =
     catch_all (and_then (read_text p) (\<lambda>content. ret (failed_tests_in content))) []"

definition delete_test_namespace :: "'x os \<Rightarrow> string \<Rightarrow> (('x, 'z) world_scheme, bool) step" where
  "delete_test_namespace os ns =
     (if ns = [] then ret False
      else catch_all (and_then (run_proc os [''kubectl'', ''delete'', ''namespace'', ns] None None)
             (\<lambda>p. ret (returncode p = 0))) False)"

section \<open>One run of a test\<close>

text \<open>The work directory: the name without separators, and the time of the start.\<close>

definition work_dir_name :: "string option \<Rightarrow> int \<Rightarrow> string \<Rightarrow> datetime \<Rightarrow> string" where
  "work_dir_name test_name att att_type now =
     (if truthy test_name
      then ''tests/_work_'' @ replace_char (CHR '','') (CHR ''_'')
             (replace_char (CHR ''/'') (CHR ''_'') (the test_name)) @
           ''_'' @ int_str att @ ''_'' @ att_type @ ''_'' @ strftime_work now
      else ''tests/_work_full_suite_'' @ int_str att @ ''_'' @ att_type @ ''_'' @ strftime_work now)"

text \<open>The log file of the run: below \<open>retries\<close> for a single test, with the date for the full suite.\<close>

definition log_file_path ::
  "'x os \<Rightarrow> args \<Rightarrow> string option \<Rightarrow> int \<Rightarrow> string \<Rightarrow> (('x, 'z) world_scheme, path) step" where
  "log_file_path os a test_name att att_type =
     (if truthy test_name
      then ret (path_div (path_div (out_path a) ''retries'')
                 (create_safe_log_filename os (the test_name) att att_type))
      else and_then (on_ext (os_now os)) (\<lambda>now.
           ret (path_div (out_path a) (''full_suite_'' @ att_type @ ''_'' @ strftime_log now @ ''.txt''))))"

definition log_header :: "string list \<Rightarrow> string \<Rightarrow> string" where
  "log_header cmd cwd = ''Command: '' @ join '' '' cmd @ [LF] @ ''Working directory: '' @ cwd @ [LF] @
     replicate 80 (CHR ''='') @ [LF, LF]"

text \<open>The \<open>with open(log_file, "w")\<close> block: header, then the output of the program.\<close>

definition run_into_log ::
  "'x os \<Rightarrow> path \<Rightarrow> string list \<Rightarrow> (string, string) dict option \<Rightarrow> (('x, 'z) world_scheme, proc) step" where
  "run_into_log os p cmd env =
     and_then (open_write p) (\<lambda>_.
     and_then (gets (\<lambda>s. log_header cmd (os_getcwd os (ext s)))) (\<lambda>header.
     and_then (write_content p (Text header)) (\<lambda>_.
     and_then (run_proc os cmd env None) (\<lambda>r.
     and_then (put_content p (Text (header @ out r))) (\<lambda>_.
     ret r)))))"

definition remove_work_dir :: "'x os \<Rightarrow> string \<Rightarrow> (('x, 'z) world_scheme, unit) step" where
  "remove_work_dir os work_dir =
     and_then (gets (\<lambda>s. os_exists os work_dir (ext s))) (\<lambda>there.
     if there then catch_all (on_ext_result (os_rmtree os work_dir)) () else ret ())"

text \<open>What is done after the run with its result: the history, the namespace, the work directory.\<close>

definition after_run ::
  "'x os \<Rightarrow> args \<Rightarrow> string option \<Rightarrow> bool \<Rightarrow> string \<Rightarrow> test_result \<Rightarrow> (('x, 'z) manager_scheme, unit) step" where
  "after_run os a test_name skip_delete work_dir r =
     and_then (if truthy test_name \<and> the test_name \<noteq> ''full_suite''
               then update_runtime_history os a (the test_name) (duration r) else ret ()) (\<lambda>_.
     and_then (if truthy test_name \<and> skip_delete \<and> success r \<and> truthy (namespace r)
               then and_then (delete_test_namespace os (the (namespace r))) (\<lambda>_. ret ()) else ret ()) (\<lambda>_.
     remove_work_dir os work_dir))"

definition run_single_test_suite ::
  "'x os \<Rightarrow> args \<Rightarrow> string option \<Rightarrow> bool \<Rightarrow> int \<Rightarrow> string \<Rightarrow> (('x, 'z) manager_scheme, test_result) step" where
  "run_single_test_suite os a test_name skip_delete att att_type =
     and_then (on_ext (os_now os)) (\<lambda>now.
     let work_dir = work_dir_name test_name att att_type now;
         cmd = build_test_command a test_name skip_delete (Some work_dir) in
     and_then (log_file_path os a test_name att att_type) (\<lambda>log.
     and_then (setup_test_environment os a) (\<lambda>env.
     and_then (on_ext (os_time os)) (\<lambda>t0.
     and_then (run_into_log os log cmd env) (\<lambda>p.
     and_then (on_ext (os_time os)) (\<lambda>t1.
     and_then (extract_test_namespace_from_log_file log) (\<lambda>ns.
     and_then (if returncode p = 0 then ret None else extract_failed_step log) (\<lambda>fs.
     let r = \<lparr>tr_test_name = (if truthy test_name then the test_name else ''full_suite''),
              attempt = att, attempt_type = att_type, success = (returncode p = 0), namespace = ns,
              duration = t1 - t0, log_file = Some (path_str log), failed_step = fs\<rparr> in
     and_then (after_run os a test_name skip_delete work_dir r) (\<lambda>_.
     ret r)))))))))"

section \<open>What the executor leaves alone\<close>

text \<open>
  Observations of the state that running a test does not change: those of the runner's own
  fields, and those of the directories. The first locale is for the steps that start no program.
\<close>

locale untouched =
  fixes f :: "('x, 'z) manager_scheme \<Rightarrow> 'b"
  assumes f_ext: "f (s\<lparr>ext := x\<rparr>) = f s"
    and f_files: "f (s\<lparr>files := fs\<rparr>) = f s"
    and f_histories: "f (s\<lparr>histories := hs\<rparr>) = f s"
begin

lemma fr_on_ext: "frames f (on_ext g)" "frames f (on_ext_result h)"
  by (rule frames_on_ext, rule f_ext)+

lemma fr_write: "frames f (write_file p c)" "frames f (open_write p)" "frames f (put_content p c)"
  using frames_write_file [of f] f_files
  by (simp_all add: frames_def open_write_def put_content_def)

lemma fr_write_content: "frames f (write_content p c)"
  by (simp add: frames_def write_content_def put_content_def f_files split: option.split)

lemma fr_read: "frames f (read_text p)"
  by (simp add: frames_def)

lemma fr_set_history: "frames f (modify (set_history n h))"
  by (intro frame_intros) (simp add: set_history_def f_histories)

lemma fr_add_runtime: "frames f (add_runtime os d h)"
  unfolding add_runtime_def by (intro frame_intros fr_on_ext)

lemma fr_save_history: "frames f (save_runtime_history a)"
  by (simp add: frames_def save_runtime_history_def safe_save_eval f_files split: option.split)

lemma fr_update_history: "frames f (update_runtime_history os a n d)"
  unfolding update_runtime_history_def
  by (intro frame_intros fr_on_ext fr_set_history fr_add_runtime fr_save_history)

lemma fr_logs: "frames f (extract_test_namespace_from_log_file p)" "frames f (extract_failed_step p)"
    "frames f (parse_failed_tests_from_log p)"
  unfolding extract_test_namespace_from_log_file_def extract_failed_step_def parse_failed_tests_from_log_def
  by (intro frame_intros fr_read)+

lemma fr_environment: "frames f (setup_test_environment os a)"
  by (auto simp: frames_def setup_test_environment_def Let_def split: option.split)

lemma fr_log_path: "frames f (log_file_path os a n att ty)"
  unfolding log_file_path_def by (intro frame_intros fr_on_ext)

lemma fr_remove_work_dir: "frames f (remove_work_dir os w)"
  unfolding remove_work_dir_def by (intro frame_intros fr_on_ext)

end

locale bystander = untouched +
  assumes f_commands: "f (s\<lparr>commands := c\<rparr>) = f s"
begin

lemma fr_run_proc: "frames f (run_proc os cmd env cwd)"
  by (rule frames_run_proc) (rule f_ext, rule f_commands)

lemma fr_delete: "frames f (delete_test_namespace os ns)"
  unfolding delete_test_namespace_def by (intro frame_intros fr_run_proc)

lemma fr_run_into_log: "frames f (run_into_log os p cmd env)"
  unfolding run_into_log_def by (intro frame_intros fr_write fr_write_content fr_run_proc)

lemma fr_after_run: "frames f (after_run os a n sk w r)"
  unfolding after_run_def
  by (intro frame_intros fr_update_history fr_delete fr_remove_work_dir)

lemma fr_run_single: "frames f (run_single_test_suite os a n sk att ty)"
  unfolding run_single_test_suite_def Let_def
  by (intro frame_intros fr_on_ext fr_log_path fr_environment fr_run_into_log fr_logs fr_after_run)

end

interpretation cmds: untouched commands
  by unfold_locales simp_all

interpretation rest: bystander manager.more
  by unfold_locales simp_all

interpretation room: bystander disk
  by unfold_locales (simp_all add: disk_def)

interpretation hidden: bystander unreadable
  by unfold_locales simp_all

section \<open>Started programs\<close>

text \<open>Programs and clean-ups raise only what a handler of \<open>Exception\<close> catches.\<close>

definition os_ok :: "'x os \<Rightarrow> bool" where
  "os_ok os \<longleftrightarrow>
     (\<forall>cmd env cwd x e x'. os_run os cmd env cwd x = (Inl e, x') \<longrightarrow> is_exception e) \<and>
     (\<forall>w x e x'. os_rmtree os w x = (Inl e, x') \<longrightarrow> is_exception e)"

definition deletions :: "string option \<Rightarrow> bool \<Rightarrow> test_result \<Rightarrow> string list list" where
  "deletions test_name skip_delete r =
     (if truthy test_name \<and> skip_delete \<and> success r \<and> truthy (namespace r)
      then [[''kubectl'', ''delete'', ''namespace'', the (namespace r)]] else [])"

lemma delete_commands:
  "ns \<noteq> [] \<Longrightarrow> commands (snd (delete_test_namespace os ns s)) = commands s @ [[''kubectl'', ''delete'', ''namespace'', ns]]"
  by (auto simp: delete_test_namespace_def catch_all_state and_then_def
      split: prod.split sum.split dest: run_proc_commandsD)

lemma after_run_commands:
  assumes "after_run os a n sk w r s = (Inr u, s')"
  shows "commands s' = commands s @ deletions n sk r"
proof -
  let ?u = "if truthy n \<and> the n \<noteq> ''full_suite'' then update_runtime_history os a (the n) (duration r) else ret ()"
  let ?d = "if truthy n \<and> sk \<and> success r \<and> truthy (namespace r)
      then and_then (delete_test_namespace os (the (namespace r))) (\<lambda>_. ret ()) else ret ()"
  from assms obtain s1 s2 where u: "?u s = (Inr (), s1)" and d: "?d s1 = (Inr (), s2)"
    and w: "remove_work_dir os w s2 = (Inr u, s')"
    unfolding after_run_def by (auto elim!: and_then_resultE)
  have "frames commands ?u" by (intro frame_intros cmds.fr_update_history)
  then have 1: "commands s1 = commands s" using u by (rule framesD)
  have 3: "commands s' = commands s2" using cmds.fr_remove_work_dir w by (rule framesD)
  have 2: "commands s2 = commands s1 @ deletions n sk r"
  proof (cases "truthy n \<and> sk \<and> success r \<and> truthy (namespace r)")
    case True
    then have "the (namespace r) \<noteq> []" by (cases "namespace r") auto
    from delete_commands [OF this, of os s1] True d show ?thesis
      by (auto simp: deletions_def and_then_def split: prod.splits sum.splits)
  next
    case False
    with d show ?thesis by (auto simp: deletions_def)
  qed
  from 1 2 3 show ?thesis by simp
qed

lemma run_into_log_commands: "run_into_log os p cmd env s = (Inr r, s') \<Longrightarrow> commands s' = commands s @ [cmd]"
  by (auto simp: run_into_log_def and_then_def open_write_def put_content_def write_content_def
      split: prod.splits sum.splits if_splits option.splits dest: run_proc_commandsD)

lemma run_into_log_file:
  assumes "run_into_log os p cmd env s = (Inr r, s')"
  shows "files s' p = Some (Text (log_header cmd (os_getcwd os (ext s)) @ out r))"
    and "os_run os cmd env None (ext s) = (Inr r, ext s')"
  using assms
  by (auto simp: run_into_log_def and_then_def open_write_def put_content_def write_content_def run_proc_def
      on_ext_result_def split: prod.splits sum.splits if_splits option.splits)

lemma extract_namespace_eval:
  "files s p = Some (Text t) \<Longrightarrow> extract_test_namespace_from_log_file p s =
     (Inr (if unreadable s p then None else namespace_in (universal_newlines t)), s)"
  by (simp add: extract_test_namespace_from_log_file_def catch_all_def handle_def and_then_def
      read_text_def open_read_def)

lemma extract_failed_step_eval:
  "files s p = Some (Text t) \<Longrightarrow> extract_failed_step p s =
     (Inr (Some (if unreadable s p then ''Could not find failed step''
                 else failed_step_in (universal_newlines t))), s)"
  by (simp add: extract_failed_step_def catch_all_def handle_def and_then_def read_text_def open_read_def)

text \<open>The result the run builds from what the program returned and wrote into the log.\<close>

definition result_from ::
  "string option \<Rightarrow> int \<Rightarrow> string \<Rightarrow> rat \<Rightarrow> path \<Rightarrow> bool \<Rightarrow> proc \<Rightarrow> string \<Rightarrow> test_result" where
  "result_from test_name att att_type du lg hidden_log p content =
     \<lparr>tr_test_name = (if truthy test_name then the test_name else ''full_suite''),
      attempt = att, attempt_type = att_type, success = (returncode p = 0),
      namespace = (if hidden_log then None else namespace_in (universal_newlines content)),
      duration = du, log_file = Some (path_str lg),
      failed_step = (if returncode p = 0 then None
        else Some (if hidden_log then ''Could not find failed step''
                   else failed_step_in (universal_newlines content)))\<rparr>"

definition the_command :: "'x os \<Rightarrow> args \<Rightarrow> string option \<Rightarrow> bool \<Rightarrow> int \<Rightarrow> string \<Rightarrow> 'x \<Rightarrow> string list" where
  "the_command os a test_name skip_delete att att_type x =
     build_test_command a test_name skip_delete (Some (work_dir_name test_name att att_type (fst (os_now os x))))"

text \<open>The machine once the clock was read for the work directory and, for the full suite, for the
  name of the log: the state in which the environment is set up.\<close>

definition machine_at_setup :: "'x os \<Rightarrow> string option \<Rightarrow> 'x \<Rightarrow> 'x" where
  "machine_at_setup os test_name x =
     (let x1 = snd (os_now os x) in if truthy test_name then x1 else snd (os_now os x1))"

lemma log_file_path_eval:
  "log_file_path os a n att ty s =
     (Inr (if truthy n then path_div (path_div (out_path a) ''retries'') (create_safe_log_filename os (the n) att ty)
           else path_div (out_path a) (''full_suite_'' @ ty @ ''_'' @ strftime_log (fst (os_now os (ext s))) @ ''.txt'')),
      s\<lparr>ext := if truthy n then ext s else snd (os_now os (ext s))\<rparr>)"
  by (simp add: log_file_path_def and_then_def on_ext_def split: prod.split)

lemma setup_test_environment_state [simp]: "snd (setup_test_environment os a s) = s"
  by (simp add: setup_test_environment_def Let_def split: option.split)

text \<open>The log of a run outlives the bookkeeping after it, which writes the history file only.\<close>

lemma after_run_files:
  assumes "after_run os a n sk w r s = (q, s')" and "p \<noteq> runtime_file a"
  shows "files s' p = files s p"
proof -
  let ?f = "\<lambda>s. files s p"
  have hist: "frames ?f (update_runtime_history os a m d)" for m d
    using assms(2) unfolding update_runtime_history_def add_runtime_def
    by (intro frame_intros frames_on_ext)
       (simp_all add: set_history_def frames_def save_runtime_history_def safe_save_eval split: option.split)
  have del: "frames ?f (delete_test_namespace os ns)" for ns
    unfolding delete_test_namespace_def by (intro frame_intros frames_run_proc) simp_all
  have rm: "frames ?f (remove_work_dir os w)"
    unfolding remove_work_dir_def by (intro frame_intros frames_on_ext) simp
  have "frames ?f (after_run os a n sk w r)"
    unfolding after_run_def by (intro frame_intros hist del rm)
  from framesD [OF this assms(1)] show ?thesis .
qed

lemma run_single_elim:
  assumes "run_single_test_suite os a n sk att ty s = (Inr r, s')"
  obtains p env t0 x x' lg content where
    "fst (log_file_path os a n att ty (s\<lparr>ext := snd (os_now os (ext s))\<rparr>)) = Inr lg"
    "fst (setup_test_environment os a (s\<lparr>ext := machine_at_setup os n (ext s)\<rparr>)) = Inr env"
    "os_time os (machine_at_setup os n (ext s)) = (t0, x)"
    "os_run os (the_command os a n sk att ty (ext s)) env None x = (Inr p, x')"
    "content = log_header (the_command os a n sk att ty (ext s)) (os_getcwd os x) @ out p"
    "r = result_from n att ty (fst (os_time os x') - t0) lg (unreadable s lg) p content"
    "commands s' = commands s @ the_command os a n sk att ty (ext s) # deletions n sk r"
    "path_ok lg" "lg \<noteq> runtime_file a \<longrightarrow> files s' lg = Some (Text content)"
    "\<not> truthy n \<longrightarrow> files s' lg = Some (Text content)"
proof -
  from assms obtain now s1 lg s2 env s3 t0 s4 p s5 t1 s6 ns s7 fs s8 where
    n0: "on_ext (os_now os) s = (Inr now, s1)" and
    l: "log_file_path os a n att ty s1 = (Inr lg, s2)" and
    e: "setup_test_environment os a s2 = (Inr env, s3)" and
    t0: "on_ext (os_time os) s3 = (Inr t0, s4)" and
    p0: "run_into_log os lg (build_test_command a n sk (Some (work_dir_name n att ty now))) env s4 = (Inr p, s5)" and
    t1: "on_ext (os_time os) s5 = (Inr t1, s6)" and
    ns: "extract_test_namespace_from_log_file lg s6 = (Inr ns, s7)" and
    fs: "(if returncode p = 0 then ret None else extract_failed_step lg) s7 = (Inr fs, s8)" and
    r: "r = \<lparr>tr_test_name = (if truthy n then the n else ''full_suite''),
              attempt = att, attempt_type = ty, success = (returncode p = 0), namespace = ns,
              duration = t1 - t0, log_file = Some (path_str lg), failed_step = fs\<rparr>" and
    af: "after_run os a n sk (work_dir_name n att ty now) r s8 = (Inr (), s')"
    unfolding run_single_test_suite_def Let_def by (auto elim!: and_then_resultE)
  define cmd where "cmd = the_command os a n sk att ty (ext s)"
  define x where "x = snd (os_time os (machine_at_setup os n (ext s)))"
  have now: "now = fst (os_now os (ext s))" and s1: "s1 = s\<lparr>ext := snd (os_now os (ext s))\<rparr>"
    using n0 by (auto simp: on_ext_def split: prod.splits)
  have s2: "s2 = s\<lparr>ext := machine_at_setup os n (ext s)\<rparr>"
    using l by (auto simp: log_file_path_eval s1 machine_at_setup_def Let_def)
  have s3: "s3 = s2" using e setup_test_environment_state [of os a s2] by simp
  have s4: "s4 = s\<lparr>ext := x\<rparr>" and t0': "os_time os (machine_at_setup os n (ext s)) = (t0, x)"
    using t0 by (auto simp: on_ext_def s3 s2 x_def split: prod.splits)
  from p0 now have p: "run_into_log os lg cmd env s4 = (Inr p, s5)"
    by (simp add: cmd_def the_command_def)
  define content where "content = log_header cmd (os_getcwd os x) @ out p"
  have run: "files s5 lg = Some (Text content)" "os_run os cmd env None x = (Inr p, ext s5)"
    using run_into_log_file [OF p] by (simp_all add: s4 content_def)
  have s6: "s6 = s5\<lparr>ext := ext s6\<rparr>" and t1': "t1 = fst (os_time os (ext s5))"
    using t1 by (auto simp: on_ext_def split: prod.splits)
  have f6: "files s6 lg = Some (Text content)" by (subst s6) (simp add: run(1))
  have "unreadable s5 = unreadable s4" using framesD [OF hidden.fr_run_into_log p] .
  then have u: "unreadable s6 = unreadable s" by (subst s6) (simp add: s4)
  have ns': "ns = (if unreadable s lg then None else namespace_in (universal_newlines content))" "s7 = s6"
    using ns extract_namespace_eval [OF f6] u by auto
  have fs': "fs = (if returncode p = 0 then None else Some (if unreadable s lg then ''Could not find failed step''
      else failed_step_in (universal_newlines content)))" "s8 = s6"
    using fs extract_failed_step_eval [OF f6] u ns'(2) by (auto split: if_splits)
  have "commands s6 = commands s @ [cmd]"
    by (subst s6) (simp add: run_into_log_commands [OF p] s4)
  then have c: "commands s' = commands s @ cmd # deletions n sk r"
    using after_run_commands [OF af] fs'(2) by simp
  have "r = result_from n att ty (fst (os_time os (ext s5)) - t0) lg (unreadable s lg) p content"
    by (simp add: r result_from_def ns' fs' t1')
  moreover have "path_ok lg"
    using l by (auto simp: log_file_path_def path_ok_path_div elim!: and_then_resultE split: if_splits)
  moreover have "files s' lg = Some (Text content)" if "lg \<noteq> runtime_file a"
    using after_run_files [OF af that] f6 fs'(2) by simp
  moreover have "files s' lg = Some (Text content)" if "\<not> truthy n"
  proof -
    have "frames files (after_run os a n sk (work_dir_name n att ty now) r)"
      using that unfolding after_run_def remove_work_dir_def by (simp only: simp_thms if_False) (intro frame_intros)
    from framesD [OF this af] f6 fs'(2) show ?thesis by simp
  qed
  moreover have "fst (log_file_path os a n att ty (s\<lparr>ext := snd (os_now os (ext s))\<rparr>)) = Inr lg"
    using l by (simp add: s1)
  moreover have "fst (setup_test_environment os a (s\<lparr>ext := machine_at_setup os n (ext s)\<rparr>)) = Inr env"
    using e by (simp add: s2)
  ultimately show ?thesis using run(2) c t0' unfolding cmd_def content_def by (intro that) auto
qed

section \<open>When a run returns\<close>

text \<open>
  A machine on which a run raises nothing: programs can be started, clean-ups raise only
  exceptions, a search path is set, digests are no paths, and the output directory can be written.
\<close>

definition machine_ok :: "'x os \<Rightarrow> bool" where
  "machine_ok os \<longleftrightarrow> os_ok os \<and> (\<forall>cmd env cwd x. \<exists>p x'. os_run os cmd env cwd x = (Inr p, x')) \<and>
     (\<forall>x. dict_has (os_environ os x) ''PATH'') \<and> (\<forall>n. CHR ''/'' \<notin> set (md5_hex os n))"

lemma machine_ok_run: "machine_ok os \<Longrightarrow> os_run os cmd env cwd x \<noteq> (Inl e, x')"
  unfolding machine_ok_def by (metis Inl_Inr_False prod.inject)

lemma machine_ok_rmtree: "machine_ok os \<Longrightarrow> os_rmtree os w x = (Inl e, x') \<Longrightarrow> is_exception e"
  unfolding machine_ok_def os_ok_def by blast

lemma machine_ok_path: "machine_ok os \<Longrightarrow> dict_get (os_environ os x) ''PATH'' \<noteq> None"
  unfolding machine_ok_def by blast

definition output_ok :: "args \<Rightarrow> ('x, 'z) manager_scheme \<Rightarrow> bool" where
  "output_ok a s \<longleftrightarrow> can_write s (runtime_file a) \<and> can_write s (state_file a) \<and>
     (\<forall>f. CHR ''/'' \<notin> set f \<longrightarrow> f \<noteq> [] \<longrightarrow> f \<noteq> ''.'' \<longrightarrow>
        can_write s (path_div (path_div (out_path a) ''retries'') f)) \<and>
     (\<forall>f. CHR ''/'' \<notin> set f \<longrightarrow> can_write s (path_div (out_path a) (''full_suite_'' @ f)))"

lemma output_ok_cong: "disk s' = disk s \<Longrightarrow> output_ok a s' = output_ok a s"
  by (drule can_write_cong) (simp add: output_ok_def)

lemma run_single_output_ok:
  "run_single_test_suite os a n sk att ty s = (r, s') \<Longrightarrow> output_ok a s' = output_ok a s"
  using framesD [OF room.fr_run_single] by (intro output_ok_cong)

lemma slash_free_numerals: "CHR ''/'' \<notin> set (nat_str k)" "CHR ''/'' \<notin> set (int_str i)" "CHR ''/'' \<notin> set (pad w k)"
  using nat_str_digits [of "CHR ''/''"]
  by (auto simp: int_str_def pad_def is_digit_def code_def)

lemma strftime_log_slash_free: "CHR ''/'' \<notin> set (strftime_log t)"
  by (simp add: strftime_log_def slash_free_numerals)

lemma log_filename_slash_free:
  assumes "CHR ''/'' \<notin> set (md5_hex os n)" and "CHR ''/'' \<notin> set ty"
  shows "CHR ''/'' \<notin> set (create_safe_log_filename os n att ty)"
proof -
  have "CHR ''/'' \<notin> set (replace_char (CHR ''/'') (CHR ''_'') n)" by (simp add: replace_char_absent)
  then show ?thesis using assms slash_free_numerals(2) [of att]
    by (auto simp: create_safe_log_filename_def Let_def dest: in_set_takeD)
qed

lemma log_filename_long: "length (create_safe_log_filename os n att ty) > 1"
  by (simp add: create_safe_log_filename_def Let_def)

lemma returns_on_ext: "returns (on_ext g) s"
  by (auto simp: returns_def on_ext_def split: prod.split)

lemma returns_environment: "machine_ok os \<Longrightarrow> returns (setup_test_environment os a) s"
  using machine_ok_path [of os "ext s"]
  by (auto simp: returns_def setup_test_environment_def Let_def split: option.split)

lemma returns_read: "machine_ok os \<Longrightarrow> files s p = Some (Text t) \<Longrightarrow> returns (extract_failed_step p) s"
  by (simp add: returns_def extract_failed_step_eval)

lemma returns_log_file_path: 
  assumes "machine_ok os" and "output_ok a s" and "CHR ''/'' \<notin> set ty"
  obtains lg s' where "log_file_path os a n att ty s = (Inr lg, s')" "can_write s lg"
proof (cases "truthy n")
  case True
  let ?f = "create_safe_log_filename os (the n) att ty"
  have "CHR ''/'' \<notin> set ?f" using assms by (intro log_filename_slash_free) (auto simp: machine_ok_def)
  moreover have "?f \<noteq> []" "?f \<noteq> ''.''" using log_filename_long [of os "the n" att ty] by auto
  ultimately have "can_write s (path_div (path_div (out_path a) ''retries'') ?f)"
    using assms(2) by (auto simp: output_ok_def)
  with True show ?thesis by (intro that) (auto simp: log_file_path_def)
next
  case False
  obtain now x where now: "os_now os (ext s) = (now, x)" by fastforce
  have "can_write s (path_div (out_path a) (''full_suite_'' @ (ty @ ''_'' @ strftime_log now @ ''.txt'')))"
    using assms(2,3) strftime_log_slash_free [of now] unfolding output_ok_def by (auto simp del: append.simps)
  with False now show ?thesis
    by (intro that) (auto simp: log_file_path_def and_then_def on_ext_def)
qed

lemma returns_run_into_log: "machine_ok os \<Longrightarrow> can_write s p \<Longrightarrow> returns (run_into_log os p cmd env) s"
proof -
  assume m: "machine_ok os" and w: "can_write s p"
  let ?s = "s\<lparr>files := (files s)(p \<mapsto> Text (log_header cmd (os_getcwd os (ext s))))\<rparr>"
  from m obtain r x' where "os_run os cmd env None (ext s) = (Inr r, x')"
    unfolding machine_ok_def by blast
  then have "run_proc os cmd env None ?s = (Inr r, ?s\<lparr>commands := commands s @ [cmd], ext := x'\<rparr>)"
    by (simp add: run_proc_def on_ext_result_def)
  with w show ?thesis
    by (intro returnsI) (simp add: run_into_log_def and_then_def open_write_def put_content_def write_content_def can_write_def)
qed

lemma returns_after_run:
  assumes "machine_ok os" and "can_write s (runtime_file a)"
  shows "returns (after_run os a n sk w r) s"
proof -
  have upd: "returns (update_runtime_history os a m d) s" for m d
  proof -
    obtain h x where u: "update_runtime_history os a m d s =
       and_then (save_runtime_history a) (\<lambda>_. ret ()) (set_history m h (s\<lparr>ext := x\<rparr>))"
      by (rule update_runtime_history_steps)
    have "can_write (set_history m h (s\<lparr>ext := x\<rparr>)) (runtime_file a)" using assms(2) by simp
    then show ?thesis unfolding returns_def u by (simp add: and_then_def save_runtime_history_ok)
  qed
  have del: "returns (and_then (delete_test_namespace os ns) (\<lambda>_. ret ())) t" for ns t
  proof -
    have "returns (delete_test_namespace os ns) t"
      unfolding delete_test_namespace_def using machine_ok_run [OF assms(1)]
      by (auto simp: and_then_def run_proc_def on_ext_result_def
          split: prod.splits sum.splits intro!: returns_catch_all)
    then show ?thesis by (intro returns_and_then) simp_all
  qed
  have rm: "returns (remove_work_dir os w) t" for t
    unfolding remove_work_dir_def using machine_ok_rmtree [OF assms(1)]
    by (auto simp: on_ext_result_def split: prod.splits intro!: returns_catch_all returns_and_then)
  show ?thesis
    unfolding after_run_def by (intro returns_and_then) (auto simp: upd rm intro: del)
qed

lemma run_single_returns:
  assumes m: "machine_ok os" and o: "output_ok a s" and t: "CHR ''/'' \<notin> set ty"
  shows "returns (run_single_test_suite os a n sk att ty) s"
  unfolding run_single_test_suite_def Let_def
proof (intro returns_and_then, goal_cases)
  case 1
  show ?case by (rule returns_on_ext)
next
  case (2 now s1)
  have "output_ok a s1" using framesD [OF room.fr_on_ext(1) 2] o output_ok_cong by blast
  then show ?case by (rule returns_log_file_path [OF m _ t]) (auto intro: returnsI)
next
  case (3 now s1 lg s2)
  show ?case by (rule returns_environment [OF m])
next
  case (4 now s1 lg s2 env s3)
  show ?case by (rule returns_on_ext)
next
  case (5 now s1 lg s2 env s3 t0 s4)
  have o1: "output_ok a s1" using framesD [OF room.fr_on_ext(1) 5(1)] o output_ok_cong by blast
  obtain lg' s2' where "log_file_path os a n att ty s1 = (Inr lg', s2')" "can_write s1 lg'"
    by (rule returns_log_file_path [OF m o1 t])
  with 5(2) have "can_write s1 lg" by simp
  moreover have "disk s4 = disk s1"
    using framesD [OF room.fr_log_path 5(2)] framesD [OF room.fr_environment 5(3)] framesD [OF room.fr_on_ext(1) 5(4)]
    by simp
  ultimately have "can_write s4 lg" by (simp add: can_write_cong [of s4 s1])
  then show ?case by (rule returns_run_into_log [OF m])
next
  case (6 now s1 lg s2 env s3 t0 s4 p s5)
  show ?case by (rule returns_on_ext)
next
  case (7 now s1 lg s2 env s3 t0 s4 p s5 t1 s6)
  have "files s6 = files s5" using framesD [OF frames_world_ext(1) 7(6)] .
  then show ?case using run_into_log_file(1) [OF 7(5)] by (auto simp: returns_def extract_namespace_eval)
next
  case (8 now s1 lg s2 env s3 t0 s4 p s5 t1 s6 ns s7)
  have "files s6 = files s5" using framesD [OF frames_world_ext(1) 8(6)] .
  then have f: "\<exists>t. files s6 lg = Some (Text t)" using run_into_log_file(1) [OF 8(5)] by auto
  then have "s7 = s6" using 8(7) by (auto simp: extract_namespace_eval)
  with f show ?case by (auto simp: returns_def extract_failed_step_eval)
next
  case (9 now s1 lg s2 env s3 t0 s4 p s5 t1 s6 ns s7 fs s8)
  have "disk s8 = disk s"
    using framesD [OF room.fr_on_ext(1) 9(1)] framesD [OF room.fr_log_path 9(2)] framesD [OF room.fr_environment 9(3)]
      framesD [OF room.fr_on_ext(1) 9(4)] framesD [OF room.fr_run_into_log 9(5)] framesD [OF room.fr_on_ext(1) 9(6)]
      framesD [OF room.fr_logs(1) 9(7)] framesD [OF frames_if [OF frames_basic(1) room.fr_logs(2)] 9(8)]
    by simp
  then have "can_write s8 (runtime_file a)" using o by (simp add: output_ok_def can_write_cong [of s8 s])
  then show ?case by (rule returns_after_run [OF m])
next
  case 10
  show ?case by simp
qed

section \<open>The scripted system\<close>

lemma sample_machine_ok: "machine_ok sample_os"
  by (auto simp: machine_ok_def os_ok_def sample_os_def split: list.splits prod.splits)

lemma path_parts_name: "CHR ''/'' \<notin> set f \<Longrightarrow> f \<noteq> [] \<Longrightarrow> f \<noteq> ''.'' \<Longrightarrow> path_parts f = [f]"
  by (simp add: path_parts_def split_on_no_sep)

lemma path_div_name:
  "CHR ''/'' \<notin> set f \<Longrightarrow> f \<noteq> [] \<Longrightarrow> f \<noteq> ''.'' \<Longrightarrow> path_div (Path a ps) f = Path a (ps @ [f])"
  by (cases f) (auto simp: path_div_def path_parts_name)

lemma sample_output_ok: "output_ok sample_args (sample_runner script)"
  unfolding output_ok_def
proof (intro conjI allI impI)
  fix f :: string
  assume "CHR ''/'' \<notin> set f" "f \<noteq> []" "f \<noteq> ''.''"
  moreover have "path_div (out_path sample_args) ''retries'' = Path [] [''test-results'', ''retries'']"
    by (simp add: path_div_name)
  ultimately show "can_write (sample_runner script) (path_div (path_div (out_path sample_args) ''retries'') f)"
    by (simp add: path_div_name can_write_def sample_runner_def sample_world_def path_parent_def)
next
  fix f :: string
  assume "CHR ''/'' \<notin> set f"
  then show "can_write (sample_runner script) (path_div (out_path sample_args) (''full_suite_'' @ f))"
    using path_div_name [of "''full_suite_'' @ f" "[]" "[''test-results'']"]
    by (simp add: can_write_def sample_runner_def sample_world_def path_parent_def)
qed simp_all

section \<open>Properties\<close>

text \<open>C7: A run of a test that returns reports what it was asked and what happened. It started the
  built command line, in the environment set up for it, on the machine as it was after the clock
  was read; the log is the header for that command line and the directory the script runs in,
  followed by the output. Name (or \<open>full_suite\<close>), attempt number and kind are those it was called
  with, success means that the program returned 0, the duration is the time between the two
  readings of the clock, and namespace and failed step are those in that log (none of them, and
  the text for a missing step, if the log cannot be read; no step after a success). The log file
  still holds the log afterwards, unless it is the history file itself.\<close>

theorem run_single_result:
  assumes "run_single_test_suite os a n sk att ty s = (Inr r, s')"
  shows "\<exists>lg env t0 x p x' content.
    fst (log_file_path os a n att ty (s\<lparr>ext := snd (os_now os (ext s))\<rparr>)) = Inr lg \<and>
    fst (setup_test_environment os a (s\<lparr>ext := machine_at_setup os n (ext s)\<rparr>)) = Inr env \<and>
    os_time os (machine_at_setup os n (ext s)) = (t0, x) \<and>
    os_run os (the_command os a n sk att ty (ext s)) env None x = (Inr p, x') \<and>
    content = log_header (the_command os a n sk att ty (ext s)) (os_getcwd os x) @ out p \<and>
    r = \<lparr>tr_test_name = (if truthy n then the n else ''full_suite''), attempt = att, attempt_type = ty,
         success = (returncode p = 0),
         namespace = (if unreadable s lg then None else namespace_in (universal_newlines content)),
         duration = fst (os_time os x') - t0, log_file = Some (path_str lg),
         failed_step = (if returncode p = 0 then None
           else Some (if unreadable s lg then ''Could not find failed step''
                      else failed_step_in (universal_newlines content)))\<rparr> \<and>
    (lg \<noteq> runtime_file a \<longrightarrow> files s' lg = Some (Text content))"
  by (rule run_single_elim [OF assms]) (unfold result_from_def, blast)

theorem run_single_result_witness:
  "\<exists>r s'. run_single_test_suite sample_os sample_args (Some ''smoke'') False 1 ''serial''
       (sample_runner [(45, \<lparr>returncode = 1, out = ''Creating namespace: kuttl-test-ape'', err = []\<rparr>)]) = (Inr r, s') \<and>
     r = \<lparr>tr_test_name = ''smoke'', attempt = 1, attempt_type = ''serial'', success = False,
          namespace = Some ''kuttl-test-ape'', duration = 45,
          log_file = Some ''test-results/retries/smoke_attempt_1_serial.txt'',
          failed_step = Some ''Could not find failed step''\<rparr>"
proof -
  let ?p = "\<lparr>returncode = 1, out = ''Creating namespace: kuttl-test-ape'', err = []\<rparr> :: proc"
  let ?s = "sample_runner [(45, ?p)]"
  have "returns (run_single_test_suite sample_os sample_args (Some ''smoke'') False 1 ''serial'') ?s"
    by (rule run_single_returns [OF sample_machine_ok sample_output_ok]) simp
  then obtain r s' where r: "run_single_test_suite sample_os sample_args (Some ''smoke'') False 1 ''serial'' ?s = (Inr r, s')"
    by (rule returnsE)
  let ?c = "the_command sample_os sample_args (Some ''smoke'') False 1 ''serial'' (0, [(45, ?p)])"
  have machine: "machine_at_setup sample_os (Some ''smoke'') (0, [(45, ?p)]) = (0, [(45, ?p)])"
    "os_time sample_os (0, [(45, ?p)]) = (0, (0, [(45, ?p)]))" "ext ?s = (0, [(45, ?p)])"
    "os_run sample_os ?c env None (0, [(45, ?p)]) = (Inr ?p, (45, []))"
    "os_time sample_os (45, []) = (45, (45, []))" "\<not> unreadable ?s lg" for env lg
    by (simp_all add: machine_at_setup_def sample_os_def sample_runner_def sample_world_def)
  have path: "path_str (path_div (path_div (out_path sample_args) ''retries'')
      (create_safe_log_filename sample_os ''smoke'' 1 ''serial'')) = ''test-results/retries/smoke_attempt_1_serial.txt''"
    by code_simp
  have log: "namespace_in (universal_newlines (log_header ?c (os_getcwd sample_os (0, [(45, ?p)])) @ out ?p)) = Some ''kuttl-test-ape''"
    "failed_step_in (universal_newlines (log_header ?c (os_getcwd sample_os (0, [(45, ?p)])) @ out ?p)) = ''Could not find failed step''"
    by code_simp+
  from run_single_result [OF r] r machine path log show ?thesis
    by (auto simp: log_file_path_eval)
qed

text \<open>C9: A run that returns has started exactly one test program, and after it deleted a namespace
  only when asked to keep namespaces (\<open>--skip-delete\<close>) for a single test that passed and announced
  that namespace: the namespace of a failed run is never deleted here.\<close>

theorem run_single_commands:
  assumes "run_single_test_suite os a n sk att ty s = (Inr r, s')"
  shows "commands s' = commands s @ the_command os a n sk att ty (ext s) #
    (if truthy n \<and> sk \<and> success r \<and> truthy (namespace r)
     then [[''kubectl'', ''delete'', ''namespace'', the (namespace r)]] else [])"
  by (rule run_single_elim [OF assms]) (simp only: deletions_def)

theorem run_single_commands_witness:
  "\<exists>r s'. run_single_test_suite sample_os sample_args (Some ''smoke'') True 1 ''serial'' (sample_runner []) = (Inr r, s') \<and>
    commands s' = the_command sample_os sample_args (Some ''smoke'') True 1 ''serial'' (ext (sample_runner [])) #
    (if success r \<and> truthy (namespace r)
     then [[''kubectl'', ''delete'', ''namespace'', the (namespace r)]] else [])"
proof -
  have "returns (run_single_test_suite sample_os sample_args (Some ''smoke'') True 1 ''serial'') (sample_runner [])"
    by (rule run_single_returns [OF sample_machine_ok sample_output_ok]) simp
  then obtain r s' where "run_single_test_suite sample_os sample_args (Some ''smoke'') True 1 ''serial'' (sample_runner []) = (Inr r, s')"
    by (rule returnsE)
  with run_single_commands [OF this] show ?thesis by (auto simp: sample_runner_def)
qed

text \<open>C13: On a machine where programs start and the output directory can be written, a run of a test
  returns a result whatever the test does; it never raises.\<close>

theorem run_single_never_raises:
  assumes "machine_ok os" and "output_ok a s" and "CHR ''/'' \<notin> set ty"
  shows "\<exists>r s'. run_single_test_suite os a n sk att ty s = (Inr r, s') \<and> output_ok a s'"
proof -
  from run_single_returns [OF assms] obtain r s' where
    "run_single_test_suite os a n sk att ty s = (Inr r, s')" by (rule returnsE)
  with run_single_output_ok [OF this] assms(2) show ?thesis by blast
qed

theorem run_single_never_raises_witness:
  "\<exists>r s'. run_single_test_suite sample_os sample_args None False 1 ''initial'' (sample_runner []) = (Inr r, s') \<and>
    output_ok sample_args s'"
  by (rule run_single_never_raises [OF sample_machine_ok sample_output_ok]) simp

text \<open>C28: Log names of retries are short and do not collide: at most 114 characters beyond the attempt
  number and kind, and two log names of the same test agree only for the same attempt and kind.\<close>

theorem log_filenames:
  "length (create_safe_log_filename os n i t) \<le> 114 + length (int_str i) + length t \<and>
   (create_safe_log_filename os n i t = create_safe_log_filename os n j u \<longleftrightarrow> i = j \<and> t = u)"
proof
  show "length (create_safe_log_filename os n i t) \<le> 114 + length (int_str i) + length t"
    by (simp add: create_safe_log_filename_def Let_def MAX_TEST_NAME_LENGTH_def HASH_SUFFIX_LENGTH_def)
  have no: "CHR ''_'' \<notin> set (int_str k)" for k
    using nat_str_digits [of "CHR ''_''"] by (auto simp: int_str_def is_digit_def code_def)
  show "create_safe_log_filename os n i t = create_safe_log_filename os n j u \<longleftrightarrow> i = j \<and> t = u"
  proof
    assume "create_safe_log_filename os n i t = create_safe_log_filename os n j u"
    then have "int_str i @ CHR ''_'' # t = int_str j @ CHR ''_'' # u"
      by (simp add: create_safe_log_filename_def Let_def)
    then have "split_once (CHR ''_'') (int_str i @ CHR ''_'' # t) = split_once (CHR ''_'') (int_str j @ CHR ''_'' # u)"
      by simp
    then show "i = j \<and> t = u" by (simp add: split_once_append no int_str_inj)
  qed simp
qed

text \<open>A log as \<open>kuttl\<close> writes it: lines of other content, and lines that announce a failed test.\<close>

datatype log_line = Other string | Failed string string string

fun line_text :: "log_line \<Rightarrow> string" where
  "line_text (Other l) = l"
| "line_text (Failed before name after) = before @ ''--- FAIL: kuttl/harness/'' @ name @ after"

fun line_name :: "log_line \<Rightarrow> string list" where
  "line_name (Other l) = []"
| "line_name (Failed before name after) = [name]"

fun line_ok :: "log_line \<Rightarrow> bool" where
  "line_ok (Other l) \<longleftrightarrow> \<not> contains ''--- FAIL: kuttl/harness/'' l"
| "line_ok (Failed before name after) \<longleftrightarrow> name \<noteq> [] \<and> list_all (\<lambda>c. \<not> is_space c) name \<and>
     (after = [] \<or> is_space (hd after)) \<and> \<not> contains ''--- FAIL: kuttl/harness/'' after \<and>
     \<not> contains ''--- FAIL: kuttl/harness/'' (before @ ''--- FAIL: kuttl/harness'')"

lemma failed_tests_in_line: "line_ok l \<Longrightarrow> failed_tests_in (line_text l) = line_name l"
proof (cases l)
  case (Failed before name after)
  assume "line_ok l"
  then show ?thesis using Failed
    find_runs_first [of "''--- FAIL: kuttl/harness/''" before name "\<lambda>c. \<not> is_space c" after]
    by (simp add: failed_tests_in_def find_runs_absent)
qed (simp add: failed_tests_in_def find_runs_absent)

lemma failed_tests_in_lines:
  assumes "list_all line_ok ls"
  shows "failed_tests_in (join [LF] (map line_text ls)) = concat (map line_name ls)"
proof -
  have "LF \<notin> set ''--- FAIL: kuttl/harness/''" by simp
  then have "failed_tests_in (join [LF] (map line_text ls)) = concat (map (\<lambda>l. failed_tests_in (line_text l)) ls)"
    unfolding failed_tests_in_def by (subst find_runs_join_lines) (auto simp: comp_def)
  also have "\<dots> = concat (map line_name ls)"
    using assms by (intro arg_cong [of _ _ concat] map_cong) (auto simp: list_all_iff failed_tests_in_line)
  finally show ?thesis .
qed

text \<open>C14: The failed tests parsed from a log are exactly the tests it announces as failed, in order:
  for a readable log made of failure lines with whole names and of lines without the announcement.\<close>

theorem parse_failed_tests_complete:
  assumes "files s p = Some (Text (join [LF] (map line_text ls)))" and "\<not> unreadable s p"
    and "CR \<notin> set (join [LF] (map line_text ls))" and "list_all line_ok ls"
  shows "parse_failed_tests_from_log p s = (Inr (concat (map line_name ls)), s)"
  using assms
  by (simp add: parse_failed_tests_from_log_def catch_all_def handle_def and_then_def read_text_Some
      universal_newlines_id failed_tests_in_lines)

theorem parse_failed_tests_complete_witness:
  "let ls = [Other ''=== RUN'', Failed ''    '' ''smoke_openshift-false'' '' (12.30s)'', Other ''FAIL''];
       p = path_of ''test-results/log.txt'';
       s = (sample_world [])\<lparr>files := [p \<mapsto> Text (join [LF] (map line_text ls))]\<rparr>
   in parse_failed_tests_from_log p s = (Inr [''smoke_openshift-false''], s)"
proof -
  let ?ls = "[Other ''=== RUN'', Failed ''    '' ''smoke_openshift-false'' '' (12.30s)'', Other ''FAIL'']"
  let ?p = "path_of ''test-results/log.txt''"
  let ?s = "(sample_world [])\<lparr>files := [?p \<mapsto> Text (join [LF] (map line_text ?ls))]\<rparr>"
  have "parse_failed_tests_from_log ?p ?s = (Inr (concat (map line_name ?ls)), ?s)"
    by (rule parse_failed_tests_complete) (simp_all add: sample_world_def is_space_def code_def)
  then show ?thesis by (simp add: Let_def)
qed

text \<open>C27: A namespace read from a log is one the log announces: a name \<open>kuttl-test-...\<close> without white
  space that follows the announcement and ends at white space or at the end; and none is read only
  when no announcement names one.\<close>

theorem namespace_in_announced:
  "(\<forall>ns. namespace_in content = Some ns \<longrightarrow>
     prefix ''kuttl-test-'' ns \<and> list_all (\<lambda>c. \<not> is_space c) ns \<and>
     (\<exists>a b. content = a @ ''Creating namespace: '' @ ns @ b \<and> (b = [] \<or> is_space (hd b)))) \<and>
   (namespace_in content = None \<longleftrightarrow>
     (\<nexists>a c b. content = a @ ''Creating namespace: kuttl-test-'' @ c # b \<and> \<not> is_space c))"
proof (intro conjI allI impI)
  fix ns
  assume "namespace_in content = Some ns"
  then obtain r where r: "search_run ''Creating namespace: kuttl-test-'' (\<lambda>c. \<not> is_space c) content = Some r"
      "ns = ''kuttl-test-'' @ r"
    by (auto simp: namespace_in_def)
  from search_run_SomeD [OF r(1)] r(2) show "prefix ''kuttl-test-'' ns" "list_all (\<lambda>c. \<not> is_space c) ns"
    "\<exists>a b. content = a @ ''Creating namespace: '' @ ns @ b \<and> (b = [] \<or> is_space (hd b))"
    by (auto simp: is_space_def code_def)
next
  show "namespace_in content = None \<longleftrightarrow>
     (\<nexists>a c b. content = a @ ''Creating namespace: kuttl-test-'' @ c # b \<and> \<not> is_space c)"
    unfolding namespace_in_def option.map_disc_iff search_run_None_iff ..
qed

theorem namespace_in_announced_witness:
  "namespace_in ''Creating namespace: kuttl-test-ape now'' = Some ''kuttl-test-ape'' \<and>
   prefix ''kuttl-test-'' ''kuttl-test-ape''"
proof -
  have e: "namespace_in ''Creating namespace: kuttl-test-ape now'' = Some ''kuttl-test-ape''"
    by (simp add: namespace_in_def run_at_def is_space_def code_def)
  with namespace_in_announced [of "''Creating namespace: kuttl-test-ape now''"] show ?thesis by blast
qed

end
