(* ===== verification/Report_Generator.thy ===== *)
theory Report_Generator
  imports Test_Executor "HOL-Library.Multiset"
begin

text \<open>
  The class \<open>ReportGenerator\<close> of \<open>scripts/auto-retry-tests.py\<close>: the text report line by line,
  and the two files written at the end of a run. \<open>print_runtime_summary\<close>, which only prints and
  which nothing calls, is left out.
\<close>

section \<open>The text report\<close>

definition check_mark :: string where
  "check_mark = [CHR 0xE2, CHR 0x9C, CHR 0x93]"

definition cross_mark :: string where
  "cross_mark = [CHR 0xE2, CHR 0x9C, CHR 0x97]"

definition rule_line :: "char \<Rightarrow> nat \<Rightarrow> string" where
  "rule_line c n = replicate n c"

definition with_status :: "string \<Rightarrow> ('x, 'z) runner_scheme \<Rightarrow> test_summary list" where
  "with_status st s = filter (\<lambda>t. final_status t = st) (dict_values (test_summaries s))"

definition success_rate :: "nat \<Rightarrow> nat \<Rightarrow> nat \<Rightarrow> rat result" where
  "success_rate passed flaky n_tests =
     res_bind (py_div (of_nat (passed + flaky)) (of_nat (max 1 n_tests))) (\<lambda>q. Inr (q * 100))"

definition bool_str :: "bool \<Rightarrow> string" where
  "bool_str b = (if b then ''True'' else ''False'')"

text \<open>The entry of one flaky test.\<close>

definition flaky_lines :: "('x, 'z) runner_scheme \<Rightarrow> test_summary \<Rightarrow> string list result" where
  "flaky_lines s t = (case find success (retry_results t) of
     None \<Rightarrow> Inr []
   | Some r \<Rightarrow>
      res_bind (case dict_get (histories s) (ts_test_name t) of
          Some h \<Rightarrow> res_bind (get_average_runtime h) (\<lambda>avg.
            Inr (''    Runtime: '' @ format_duration (duration r) @ '' (avg: '' @ format_duration avg @ '')''))
        | None \<Rightarrow> Inr (''    Runtime: '' @ format_duration (duration r))) (\<lambda>runtime_info.
      Inr [''  '' @ check_mark @ '' '' @ ts_test_name t,
       ''    Passed on attempt '' @ int_str (attempt r) @ '' ('' @ attempt_type r @ '')'',
       ''    Total attempts: '' @ int_str (total_attempts t),
       runtime_info,
       []]))"

text \<open>The entry of one failed test.\<close>

definition failed_lines :: "('x, 'z) runner_scheme \<Rightarrow> test_summary \<Rightarrow> string list result" where
  "failed_lines s t =
     res_bind (case dict_get (histories s) (ts_test_name t) of
        Some h \<Rightarrow> res_bind (get_average_runtime h) (\<lambda>avg.
          Inr [''    Average runtime: '' @ format_duration avg @ '' (from '' @
               nat_str (length (runtimes h)) @ '' runs)''])
      | None \<Rightarrow> Inr []) (\<lambda>runtime_info.
     Inr ([''  '' @ cross_mark @ '' '' @ ts_test_name t,
      ''    Total attempts: '' @ int_str (total_attempts t)] @
     (if truthy (final_namespace t)
      then [''    Namespace kept for debugging: '' @ the (final_namespace t)] else []) @
     runtime_info @
     (if retry_results t \<noteq> [] \<and> truthy (failed_step (last (retry_results t)))
      then [''    Last error: '' @ take 100 (the (failed_step (last (retry_results t)))) @ ''...''] else []) @
     [[]]))"

text \<open>\<open>_add_runtime_statistics_to_report\<close>: the averages sorted from slow to fast, equal ones in
  their order in the dictionary.\<close>

definition sorted_averages :: "(string, runtime_history) dict \<Rightarrow> (string \<times> rat) list result" where
  "sorted_averages hs =
     res_bind (res_map (\<lambda>(n, h). res_bind (get_average_runtime h) (\<lambda>avg. Inr (n, avg))) hs) (\<lambda>test_averages.
     Inr (sort_key (\<lambda>x. - snd x) test_averages))"

definition average_line :: "string \<times> rat \<Rightarrow> string" where
  "average_line x = ''  '' @ fst x @ '': '' @ format_duration (snd x)"

text \<open>The part on all runtimes and on the slowest and fastest tests, when a runtime is recorded.\<close>

definition overall_lines :: "(string, runtime_history) dict \<Rightarrow> string list result" where
  "overall_lines hs =
     (let all = concat (map runtimes (dict_values hs)) in
      if all = [] then Inr []
      else res_bind (mean all) (\<lambda>avg_overall.
           res_bind (median all) (\<lambda>median_overall.
           res_bind (min_of all) (\<lambda>min_overall.
           res_bind (max_of all) (\<lambda>max_overall.
           res_bind (sorted_averages hs) (\<lambda>avgs.
           Inr ([''Total test runs recorded: '' @ nat_str (length all),
                 ''Overall average runtime: '' @ format_duration avg_overall,
                 ''Overall median runtime: '' @ format_duration median_overall,
                 ''Fastest test run: '' @ format_duration min_overall,
                 ''Slowest test run: '' @ format_duration max_overall] @
                (if avgs = [] then []
                 else [[], ''Slowest tests (by average):''] @ map average_line (take 3 avgs) @
                      [[], ''Fastest tests (by average):''] @ map average_line (last_n 3 avgs)))))))))"

definition statistics_lines :: "(string, runtime_history) dict \<Rightarrow> string list result" where
  "statistics_lines hs =
     (if hs = [] then Inr []
      else res_bind (overall_lines hs) (\<lambda>overall.
        Inr ([''RUNTIME STATISTICS'', rule_line (CHR ''-'') 46] @ overall @ [[]])))"

text \<open>The heading and the summary, and the configuration at the end.\<close>

definition summary_lines :: "datetime \<Rightarrow> datetime \<Rightarrow> ('x, 'z) runner_scheme \<Rightarrow> string list result" where
  "summary_lines begun ended s =
     (let passed = with_status ''passed'' s; flaky = with_status ''flaky'' s; failed = with_status ''failed'' s;
          n_tests = length (test_summaries s) in
      res_bind (success_rate (length passed) (length flaky) n_tests) (\<lambda>rate.
      Inr [rule_line (CHR ''='') 80,
       ''AUTOMATED TEST SUITE REPORT'',
       rule_line (CHR ''='') 46,
       ''Started: '' @ strftime_report begun,
       ''Ended: '' @ strftime_report ended,
       ''Total Duration: '' @ timedelta_str (to_micros ended - to_micros begun),
       [],
       ''SUMMARY'',
       rule_line (CHR ''-'') 46,
       ''Total Tests: '' @ nat_str n_tests,
       ''Passed: '' @ nat_str (length passed),
       ''Flaky (eventually passed): '' @ nat_str (length flaky),
       ''Failed: '' @ nat_str (length failed),
       ''Success Rate: '' @ format_1f rate @ ''%'',
       []]))"

definition configuration_lines :: "args \<Rightarrow> string list" where
  "configuration_lines a =
     [''CONFIGURATION'',
      rule_line (CHR ''-'') 46,
      ''Parallel: '' @ int_str (arg_parallel a),
      ''Parallel retry attempts: '' @ int_str (arg_attempts_parallel a),
      ''Serial retry attempts: '' @ int_str (arg_attempts_serial a),
      ''Delete failed namespaces: '' @ bool_str (arg_delete_failed_namespaces a),
      ''Virtualenv: '' @ (if truthy (arg_venv a) then the (arg_venv a) else ''None''),
      []]"

definition report_lines :: "args \<Rightarrow> datetime \<Rightarrow> datetime \<Rightarrow> ('x, 'z) runner_scheme \<Rightarrow> string list result" where
  "report_lines a begun ended s =
     (let flaky = with_status ''flaky'' s; failed = with_status ''failed'' s in
      res_bind (summary_lines begun ended s) (\<lambda>summary.
      res_bind (res_map (flaky_lines s) flaky) (\<lambda>flakies.
      res_bind (res_map (failed_lines s) failed) (\<lambda>failures.
      res_bind (statistics_lines (histories s)) (\<lambda>statistics.
      Inr (summary @
        (if flaky = [] then []
         else [''FLAKY TESTS (Failed initially but passed on retry)'', rule_line (CHR ''-'') 60] @ concat flakies) @
        (if failed = [] then []
         else [''FAILED TESTS'', rule_line (CHR ''-'') 46] @ concat failures) @
        statistics @ configuration_lines a))))))"

definition generate_comprehensive_report ::
  "'x os \<Rightarrow> args \<Rightarrow> datetime \<Rightarrow> (('x, 'z) runner_scheme, string) step" where
  "generate_comprehensive_report os a begun =
     and_then (on_ext (os_now os)) (\<lambda>ended s.
     and_then (of_result (report_lines a begun ended s)) (\<lambda>report. ret (join [LF] report)) s)"

section \<open>The report files\<close>

definition report_data :: "args \<Rightarrow> datetime \<Rightarrow> datetime \<Rightarrow> ('x, 'z) runner_scheme \<Rightarrow> json" where
  "report_data a begun ended s = JObj [
     (''start_time'', JStr (isoformat begun)),
     (''end_time'', JStr (isoformat ended)),
     (''configuration'', build_configuration_dict a),
     (''test_summaries'', dict_json test_summary_json (test_summaries s)),
     (''all_results'', list_json test_result_json (results s)),
     (''runtime_history'', dict_json runtime_history_json (histories s))]"

definition save_detailed_json_report ::
  "'x os \<Rightarrow> args \<Rightarrow> datetime \<Rightarrow> (('x, 'z) runner_scheme, unit) step" where
  "save_detailed_json_report os a begun =
     and_then (on_ext (os_now os)) (\<lambda>ended.
     and_then (\<lambda>s. safe_json_operation ''save'' (path_div (out_path a) ''detailed_report.json'')
                 (report_data a begun ended s) s) (\<lambda>_. ret ()))"

definition generate_and_save_final_report ::
  "'x os \<Rightarrow> args \<Rightarrow> datetime \<Rightarrow> (('x, 'z) runner_scheme, unit) step" where
  "generate_and_save_final_report os a begun =
     and_then (generate_comprehensive_report os a begun) (\<lambda>report.
     and_then (catch_all (write_file (path_div (out_path a) ''test_report.txt'') (Text report)) ()) (\<lambda>_.
     save_detailed_json_report os a begun))"

section \<open>Lemmas\<close>




text \<open>Building the report raises nothing: every division and every statistic is guarded.\<close>

lemma success_rate_returns: "\<exists>rate. success_rate passed flaky n = Inr rate"
  by (simp add: success_rate_def py_div_def)

lemma flaky_lines_returns: "\<exists>ls. flaky_lines s t = Inr ls"
  by (auto simp: flaky_lines_def get_average_runtime_eval split: option.split)

lemma failed_lines_returns: "\<exists>ls. failed_lines s t = Inr ls"
  by (auto simp: failed_lines_def get_average_runtime_eval split: option.split)

lemma res_map_returns: "(\<And>x. \<exists>y. f x = Inr y) \<Longrightarrow> \<exists>ys. res_map f xs = Inr ys"
  by (induction xs) (auto, metis res_bind.simps(2))

lemma sorted_averages_eval:
  "sorted_averages hs = Inr (sort_key (\<lambda>x. - snd x) (map (\<lambda>(n, h). (n, average_of (runtimes h))) hs))"
  by (simp add: sorted_averages_def get_average_runtime_eval res_map_Inr [where g = "\<lambda>(n, h). (n, average_of (runtimes h))"]
      split: prod.split)

lemma overall_lines_eval:
  assumes "concat (map runtimes (dict_values hs)) = r # rs" and "median (r # rs) = Inr m"
  shows "overall_lines hs = Inr (
    [''Total test runs recorded: '' @ nat_str (length (r # rs)),
     ''Overall average runtime: '' @ format_duration (average_of (r # rs)),
     ''Overall median runtime: '' @ format_duration m,
     ''Fastest test run: '' @ format_duration (fold min rs r),
     ''Slowest test run: '' @ format_duration (fold max rs r)] @
    (let avgs = sort_key (\<lambda>x. - snd x) (map (\<lambda>(n, h). (n, average_of (runtimes h))) hs) in
     [[], ''Slowest tests (by average):''] @ map average_line (take 3 avgs) @
     [[], ''Fastest tests (by average):''] @ map average_line (last_n 3 avgs)))"
proof -
  have "hs \<noteq> []" using assms(1) by auto
  then have "sort_key (\<lambda>x. - snd x) (map (\<lambda>(n, h). (n, average_of (runtimes h))) hs) \<noteq> []"
    by (metis length_0_conv length_map length_sort)
  then show ?thesis
    unfolding overall_lines_def assms(1) Let_def sorted_averages_eval
    by (simp add: assms(2) mean_def average_of_def)
qed

lemma overall_lines_returns: "\<exists>ls. overall_lines hs = Inr ls"
proof (cases "concat (map runtimes (dict_values hs))")
  case Nil
  then show ?thesis by (simp add: overall_lines_def Let_def)
next
  case (Cons r rs)
  obtain m where "median (r # rs) = Inr m" using median_returns by blast
  from overall_lines_eval [OF Cons this] show ?thesis by blast
qed

lemma report_lines_returns:
  obtains summary rest where "summary_lines begun ended s = Inr summary"
    "report_lines a begun ended s = Inr (summary @ rest)"
proof -
  obtain rate where "success_rate (length (with_status ''passed'' s)) (length (with_status ''flaky'' s))
      (length (test_summaries s)) = Inr rate" using success_rate_returns by blast
  then obtain summary where 1: "summary_lines begun ended s = Inr summary"
    by (simp add: summary_lines_def Let_def)
  obtain fl where 2: "res_map (flaky_lines s) (with_status ''flaky'' s) = Inr fl"
    using res_map_returns [where f = "flaky_lines s", OF flaky_lines_returns] by blast
  obtain fa where 3: "res_map (failed_lines s) (with_status ''failed'' s) = Inr fa"
    using res_map_returns [where f = "failed_lines s", OF failed_lines_returns] by blast
  obtain overall where "overall_lines (histories s) = Inr overall" using overall_lines_returns by blast
  then have "\<exists>st. statistics_lines (histories s) = Inr st" by (simp add: statistics_lines_def)
  then obtain st where 4: "statistics_lines (histories s) = Inr st" ..
  show ?thesis by (rule that [OF 1]) (simp add: report_lines_def Let_def 1 2 3 4)
qed

section \<open>Properties\<close>




text \<open>C25: The statistics of the report are what they say, once a runtime is recorded: the figures over all
  runtimes, then the slowest tests and then the fastest tests, each with its average. Both lists
  have three tests, or all if there are fewer, and are ordered from slow to fast; they are taken from all
  tests with a history, no test left out of the first list is slower than one in it, and none left out
  of the second is faster than one in it.\<close>

theorem slowest_and_fastest:
  assumes "concat (map runtimes (dict_values hs)) \<noteq> []"
  shows "let all = concat (map runtimes (dict_values hs));
      avgs = mset (map (\<lambda>(n, h). (n, average_of (runtimes h))) hs)
    in \<exists>m slow others fast others'. median all = Inr m \<and>
      statistics_lines hs = Inr ([''RUNTIME STATISTICS'', rule_line (CHR ''-'') 46] @
        [''Total test runs recorded: '' @ nat_str (length all),
         ''Overall average runtime: '' @ format_duration (average_of all),
         ''Overall median runtime: '' @ format_duration m,
         ''Fastest test run: '' @ format_duration (Min (set all)),
         ''Slowest test run: '' @ format_duration (Max (set all))] @
        [[], ''Slowest tests (by average):''] @ map average_line slow @
        [[], ''Fastest tests (by average):''] @ map average_line fast @ [[]]) \<and>
      length slow = min 3 (length hs) \<and> length fast = min 3 (length hs) \<and>
      mset (slow @ others) = avgs \<and> mset (others' @ fast) = avgs \<and>
      (\<forall>x\<in>set slow. \<forall>y\<in>set others. snd y \<le> snd x) \<and> (\<forall>x\<in>set fast. \<forall>y\<in>set others'. snd x \<le> snd y) \<and>
      sorted_wrt (\<lambda>x y. snd y \<le> snd x) slow \<and> sorted_wrt (\<lambda>x y. snd y \<le> snd x) fast"
proof -
  obtain r rs where all: "concat (map runtimes (dict_values hs)) = r # rs"
    using assms by (cases "concat (map runtimes (dict_values hs))") auto
  obtain m where m: "median (r # rs) = Inr m" using median_returns by blast
  have hs: "hs \<noteq> []" using assms by auto
  have range: "fold min rs r = Min (set (r # rs))" "fold max rs r = Max (set (r # rs))"
    by (simp_all only: Min.set_eq_fold Max.set_eq_fold)
  define avgs where "avgs = sort_key (\<lambda>x. - snd x) (map (\<lambda>(n, h). (n, average_of (runtimes h))) hs)"
  have len: "length avgs = length hs" by (simp add: avgs_def)
  have mset: "mset avgs = mset (map (\<lambda>(n, h). (n, average_of (runtimes h))) hs)" by (simp add: avgs_def)
  have "sorted (map (\<lambda>x. - snd x) avgs)" by (simp add: avgs_def)
  then have sorted: "sorted_wrt (\<lambda>x y. snd y \<le> snd x) avgs" by (simp add: sorted_map)
  have lines: "statistics_lines hs = Inr ([''RUNTIME STATISTICS'', rule_line (CHR ''-'') 46] @
        [''Total test runs recorded: '' @ nat_str (length (r # rs)),
         ''Overall average runtime: '' @ format_duration (average_of (r # rs)),
         ''Overall median runtime: '' @ format_duration m,
         ''Fastest test run: '' @ format_duration (Min (set (r # rs))),
         ''Slowest test run: '' @ format_duration (Max (set (r # rs)))] @
        [[], ''Slowest tests (by average):''] @ map average_line (take 3 avgs) @
        [[], ''Fastest tests (by average):''] @ map average_line (last_n 3 avgs) @ [[]])"
    unfolding statistics_lines_def overall_lines_eval [OF all m] avgs_def [symmetric] Let_def range [symmetric]
    using hs by simp
  have slow: "mset (take 3 avgs @ drop 3 avgs) = mset avgs" "sorted_wrt (\<lambda>x y. snd y \<le> snd x) (take 3 avgs @ drop 3 avgs)"
    using sorted by simp_all
  let ?k = "length avgs - 3"
  have fast: "mset (take ?k avgs @ last_n 3 avgs) = mset avgs"
    "sorted_wrt (\<lambda>x y. snd y \<le> snd x) (take ?k avgs @ last_n 3 avgs)"
    using sorted by (simp_all add: last_n_def)
  show ?thesis unfolding Let_def all
    by (rule exI [of _ m], rule exI [of _ "take 3 avgs"], rule exI [of _ "drop 3 avgs"], rule exI [of _ "last_n 3 avgs"],
        rule exI [of _ "take ?k avgs"])
       (use slow fast len in \<open>simp only: m lines mset simp_thms length_take length_last_n min.commute sorted_wrt_append, blast\<close>)
qed

definition sample_histories :: "(string, runtime_history) dict" where
  "sample_histories = map (\<lambda>(n, rs). (n, \<lparr>rh_test_name = n, runtimes = rs, last_updated = []\<rparr>))
     [(''smoke'', [40]), (''logging'', [90]), (''resources'', [60]), (''overrides'', [31])]"

theorem slowest_and_fastest_witness:
  "\<exists>a b slow fast. statistics_lines sample_histories = Inr (a @ b @ [[], ''Slowest tests (by average):''] @
        map average_line slow @ [[], ''Fastest tests (by average):''] @ map average_line fast @ [[]]) \<and>
     length slow = min 3 4 \<and> length fast = min 3 4"
proof -
  have recorded: "concat (map runtimes (dict_values sample_histories)) \<noteq> []" and four: "length sample_histories = 4"
    by (simp_all add: sample_histories_def)
  from slowest_and_fastest [OF recorded, unfolded four] show ?thesis
    unfolding Let_def by (elim exE conjE) (intro exI conjI; assumption)
qed

text \<open>C23: The final report does what it is for: if the two report files can be written it returns, the text
  report and the JSON report then hold the run's data, each with the time at which it was built, and no
  other file and no other part of the run has changed.\<close>

theorem final_report_files:
  assumes "can_write s (path_div (out_path a) ''test_report.txt'')"
    and "can_write s (path_div (out_path a) ''detailed_report.json'')"
  shows "let (ended, x) = os_now os (ext s); (ended', x') = os_now os x in
    \<exists>report. report_lines a begun ended s = Inr report \<and>
      generate_and_save_final_report os a begun s = (Inr (), s\<lparr>ext := x', files := (files s)
        (path_div (out_path a) ''test_report.txt'' \<mapsto> Text (join [LF] report),
         path_div (out_path a) ''detailed_report.json'' \<mapsto> Json (report_data a begun ended' s))\<rparr>)"
proof -
  obtain e x where e: "os_now os (ext s) = (e, x)" by fastforce
  obtain e' x' where e': "os_now os x = (e', x')" by fastforce
  obtain report where r: "report_lines a begun e s = Inr report" using report_lines_returns by metis
  have parts: "flaky_lines (t\<lparr>ext := y\<rparr>) = flaky_lines t" "failed_lines (t\<lparr>ext := y\<rparr>) = failed_lines t"
    "with_status st (t\<lparr>ext := y\<rparr>) = with_status st t" for t :: "('a, 'b) runner_scheme" and y st
    by (simp_all add: fun_eq_iff flaky_lines_def failed_lines_def with_status_def cong: option.case_cong)
  have lines: "report_lines a b c (t\<lparr>ext := y\<rparr>) = report_lines a b c t" for b c and t :: "('a, 'b) runner_scheme" and y
    by (simp add: report_lines_def summary_lines_def parts Let_def)
  have data: "report_data a b c (t\<lparr>files := f, ext := y\<rparr>) = report_data a b c t"
    for b c f and t :: "('a, 'b) runner_scheme" and y
    by (simp add: report_data_def)
  have w: "can_write (s\<lparr>ext := x\<rparr>) (path_div (out_path a) ''test_report.txt'')"
    using assms(1) by simp
  have "generate_and_save_final_report os a begun s = (Inr (), s\<lparr>ext := x', files := (files s)
        (path_div (out_path a) ''test_report.txt'' \<mapsto> Text (join [LF] report),
         path_div (out_path a) ''detailed_report.json'' \<mapsto> Json (report_data a begun e' s))\<rparr>)"
    by (simp add: generate_and_save_final_report_def generate_comprehensive_report_def save_detailed_json_report_def
          and_then_def on_ext_def e e' lines r catch_all_def handle_def write_file_ok [OF w(1)] safe_save_ok assms(2) data)
  with r show ?thesis by (simp add: e e')
qed

theorem final_report_files_witness:
  "\<exists>now report.
    report_lines sample_args (start_time (sample_runner [])) now (sample_runner []) = Inr report \<and>
    generate_and_save_final_report sample_os sample_args (start_time (sample_runner [])) (sample_runner []) =
    (Inr (), (sample_runner [])\<lparr>ext := ext (sample_runner []), files := (files (sample_runner []))
    (path_div (out_path sample_args) ''test_report.txt'' \<mapsto> Text (join [LF] report),
     path_div (out_path sample_args) ''detailed_report.json'' \<mapsto>
       Json (report_data sample_args (start_time (sample_runner [])) now (sample_runner [])))\<rparr>)"
proof -
  have w: "can_write (sample_runner []) (path_div (out_path sample_args) ''test_report.txt'')"
    "can_write (sample_runner []) (path_div (out_path sample_args) ''detailed_report.json'')"
    by (simp_all add: can_write_def sample_runner_def sample_world_def path_div_def path_parts_def path_parent_def)
  have now: "os_now sample_os x = (fst (os_now sample_os undefined), x)" for x by (simp add: sample_os_def)
  from final_report_files [OF w, of sample_os "start_time (sample_runner [])"] show ?thesis
    by (subst (asm) now, unfold prod.case Let_def, subst (asm) now, unfold prod.case) (rule exI)
qed

end
