(* ===== verification/Test_Runner.thy ===== *)
theory Test_Runner
  imports Report_Generator
begin

text \<open>
  The class \<open>AutoRetryTestRunner\<close> of \<open>scripts/auto-retry-tests.py\<close>: the retry loops, the
  summaries, the modes a run starts in, and the run itself.

  The loops take the executor's run of one test as an argument, with the executor's argument
  order: name, skip-delete flag, attempt number, attempt kind. The thread pool of the parallel
  retries is modelled at the grain of whole runs: \<open>sched\<close> gives the order in which the submitted
  runs take effect and complete, any order being possible.
\<close>

section \<open>The executor's interface\<close>

type_synonym ('s) executor = "string \<Rightarrow> bool \<Rightarrow> int \<Rightarrow> string \<Rightarrow> ('s, test_result) step"

type_synonym scheduler = "int \<Rightarrow> string list \<Rightarrow> string list"

definition executor_of :: "'x os \<Rightarrow> args \<Rightarrow> ('x, 'z) manager_scheme executor" where
  "executor_of os a n skip_delete att att_type = run_single_test_suite os a (Some n) skip_delete att att_type"

type_synonym attempts = "(string, test_result list) dict"

definition any_success :: "test_result list \<Rightarrow> bool" where
  "any_success rs = list_ex success rs"

text \<open>\<open>results_of[test_name]\<close> and \<open>results_of.get(test_name, [])\<close>.\<close>

definition attempts_of :: "attempts \<Rightarrow> string \<Rightarrow> test_result list" where
  "attempts_of d n = (case dict_get d n of Some rs \<Rightarrow> rs | None \<Rightarrow> [])"

definition add_attempt :: "string \<Rightarrow> test_result \<Rightarrow> attempts \<Rightarrow> attempts" where
  "add_attempt n r d = dict_set n (attempts_of d n @ [r]) d"

definition append_result :: "test_result \<Rightarrow> ('x, 'z) runner_scheme \<Rightarrow> ('x, 'z) runner_scheme" where
  "append_result r s = s\<lparr>results := results s @ [r]\<rparr>"

section \<open>Parallel retries\<close>

text \<open>The runs of one parallel attempt, in the order in which they complete; a run that raises
  leaves no result.\<close>

fun parallel_round ::
  "('x, 'z) runner_scheme executor \<Rightarrow> bool \<Rightarrow> int \<Rightarrow> string list \<Rightarrow> attempts \<Rightarrow> (('x, 'z) runner_scheme, attempts) step" where
  "parallel_round exec skip_delete att [] all_results = ret all_results"
| "parallel_round exec skip_delete att (n # ns) all_results =
     and_then (catch_all (and_then (exec n skip_delete att ''parallel'') (\<lambda>r. ret (Some r))) None) (\<lambda>outcome. case outcome of
       None \<Rightarrow> parallel_round exec skip_delete att ns all_results
     | Some r \<Rightarrow> and_then (modify (append_result r)) (\<lambda>_.
         parallel_round exec skip_delete att ns (add_attempt n r all_results)))"

definition tests_to_retry :: "string list \<Rightarrow> attempts \<Rightarrow> string list" where
  "tests_to_retry test_names all_results =
     filter (\<lambda>n. \<not> any_success (attempts_of all_results n)) test_names"

definition parallel_skip_delete :: "args \<Rightarrow> bool \<Rightarrow> int \<Rightarrow> int \<Rightarrow> bool" where
  "parallel_skip_delete a serial_tests_follow att max_attempts \<longleftrightarrow>
     \<not> arg_delete_failed_namespaces a \<and> \<not> serial_tests_follow \<and> att = max_attempts"

text \<open>The loop over the attempts; \<open>ThreadPoolExecutor\<close> refuses a pool without workers.\<close>

fun parallel_attempts ::
  "('x, 'z) runner_scheme executor \<Rightarrow> scheduler \<Rightarrow> args \<Rightarrow> string list \<Rightarrow> int \<Rightarrow> bool \<Rightarrow> int list \<Rightarrow> attempts \<Rightarrow>
     (('x, 'z) runner_scheme, attempts) step" where
  "parallel_attempts exec sched a test_names max_attempts serial_tests_follow [] all_results = ret all_results"
| "parallel_attempts exec sched a test_names max_attempts serial_tests_follow (att # rest) all_results =
     (let todo = tests_to_retry test_names all_results in
      if todo = [] then ret all_results
      else if min (int (length todo)) (arg_parallel a) \<le> 0
      then raise (ValueError ''max_workers must be greater than 0'')
      else and_then (parallel_round exec (parallel_skip_delete a serial_tests_follow att max_attempts) att
                       (sched att todo) all_results) (\<lambda>all_results'.
           and_then (modify (\<lambda>s. s\<lparr>parallel_attempts_done := att\<rparr>)) (\<lambda>_.
           parallel_attempts exec sched a test_names max_attempts serial_tests_follow rest all_results')))"

definition no_attempts :: "string list \<Rightarrow> attempts" where
  "no_attempts test_names = dict_of (map (\<lambda>n. (n, [])) test_names)"

definition retry_tests_in_parallel ::
  "('x, 'z) runner_scheme executor \<Rightarrow> scheduler \<Rightarrow> args \<Rightarrow> string list \<Rightarrow> int \<Rightarrow> bool \<Rightarrow>
     (('x, 'z) runner_scheme, attempts) step" where
  "retry_tests_in_parallel exec sched a test_names max_attempts serial_tests_follow =
     (if max_attempts \<le> 0 \<or> test_names = [] then ret (no_attempts test_names)
      else parallel_attempts exec sched a test_names max_attempts serial_tests_follow [1..max_attempts]
             (no_attempts test_names))"

section \<open>Serial retries\<close>

fun serial_attempts ::
  "('x, 'z) runner_scheme executor \<Rightarrow> args \<Rightarrow> string \<Rightarrow> int \<Rightarrow> int list \<Rightarrow> test_result list \<Rightarrow>
     (('x, 'z) runner_scheme, test_result list) step" where
  "serial_attempts exec a n max_attempts [] rs = ret rs"
| "serial_attempts exec a n max_attempts (att # rest) rs =
     and_then (exec n (\<not> arg_delete_failed_namespaces a \<and> att = max_attempts) att ''serial'') (\<lambda>r.
     and_then (modify (append_result r)) (\<lambda>_.
     and_then (save_state a) (\<lambda>_.
     and_then (modify (\<lambda>s. s\<lparr>serial_attempts_done := dict_set n att (serial_attempts_done s)\<rparr>)) (\<lambda>_.
     if success r then ret (rs @ [r])
     else serial_attempts exec a n max_attempts rest (rs @ [r])))))"

definition retry_test_serially ::
  "('x, 'z) runner_scheme executor \<Rightarrow> args \<Rightarrow> string \<Rightarrow> int \<Rightarrow> (('x, 'z) runner_scheme, test_result list) step" where
  "retry_test_serially exec a n max_attempts =
     (if max_attempts \<le> 0 then ret [] else serial_attempts exec a n max_attempts [1..max_attempts] [])"

section \<open>Summaries\<close>

text \<open>The last result with a namespace.\<close>

definition last_namespace :: "test_result list \<Rightarrow> string option" where
  "last_namespace rs = (case find (\<lambda>r. truthy (namespace r)) (rev rs) of
     Some r \<Rightarrow> namespace r | None \<Rightarrow> None)"

definition summarize :: "args \<Rightarrow> string \<Rightarrow> test_result \<Rightarrow> test_result list \<Rightarrow> test_summary" where
  "summarize a n initial rs =
     (let status = (if success initial then ''passed'' else if any_success rs then ''flaky'' else ''failed'') in
      \<lparr>ts_test_name = n, initial_result = initial, retry_results = rs, final_status = status,
       total_attempts = 1 + int (length rs),
       final_namespace = (if status = ''failed'' \<and> \<not> arg_delete_failed_namespaces a
                          then last_namespace rs else None)\<rparr>)"

definition create_test_summary ::
  "args \<Rightarrow> string \<Rightarrow> test_result \<Rightarrow> test_result list \<Rightarrow> (('x, 'z) runner_scheme, unit) step" where
  "create_test_summary a n initial rs =
     modify (\<lambda>s. s\<lparr>test_summaries := dict_set n (summarize a n initial rs) (test_summaries s)\<rparr>)"

section \<open>Run modes\<close>

definition load_failed_tests_for_rerun :: "args \<Rightarrow> (('x, 'z) runner_scheme, bool) step" where
  "load_failed_tests_for_rerun a =
     and_then (load_failed_tests_from_state [] (Some (path_of (the (arg_rerun_failed a))))) (\<lambda>failed.
     if failed = [] then ret False
     else and_then (modify (\<lambda>s. s\<lparr>failed_tests := failed\<rparr>)) (\<lambda>_. ret True))"

definition run_initial_test_suite :: "'x os \<Rightarrow> args \<Rightarrow> (('x, 'z) runner_scheme, bool) step" where
  "run_initial_test_suite os a =
     and_then (run_single_test_suite os a None False 1 ''initial'') (\<lambda>initial.
     if success initial
     then and_then (gets start_time) (\<lambda>begun.
          and_then (generate_and_save_final_report os a begun) (\<lambda>_. ret False))
     else and_then (parse_failed_tests_from_log (path_of (the (log_file initial)))) (\<lambda>failed.
          if failed = [] then ret False
          else and_then (modify (\<lambda>s. s\<lparr>failed_tests := failed, initial_result_log := log_file initial\<rparr>))
                 (\<lambda>_. ret True)))"

definition initialize_run_mode :: "'x os \<Rightarrow> args \<Rightarrow> (('x, 'z) runner_scheme, bool) step" where
  "initialize_run_mode os a =
     and_then (gets failed_tests) (\<lambda>failed.
     if failed \<noteq> [] then ret True
     else if truthy (arg_rerun_failed a) then load_failed_tests_for_rerun a
     else run_initial_test_suite os a)"

section \<open>The retry strategy\<close>

text \<open>A test that a restored summary already counts as passed.\<close>

definition already_passed :: "('x, 'z) runner_scheme \<Rightarrow> string \<Rightarrow> bool" where
  "already_passed s n = (case dict_get (test_summaries s) n of
     Some t \<Rightarrow> final_status t \<in> {''passed'', ''flaky''} | None \<Rightarrow> False)"

definition execute_parallel_retries ::
  "('x, 'z) runner_scheme executor \<Rightarrow> scheduler \<Rightarrow> args \<Rightarrow> (('x, 'z) runner_scheme, attempts) step" where
  "execute_parallel_retries exec sched a s =
     (if arg_attempts_parallel a > 0 \<and> parallel_attempts_done s < arg_attempts_parallel a
      then let tests = filter (\<lambda>n. \<not> already_passed s n) (failed_tests s) in
           if tests \<noteq> []
           then retry_tests_in_parallel exec sched a tests
                  (arg_attempts_parallel a - parallel_attempts_done s) (arg_attempts_serial a > 0) s
           else ret [] s
      else ret [] s)"

definition tests_still_failing :: "('x, 'z) runner_scheme \<Rightarrow> attempts \<Rightarrow> string list" where
  "tests_still_failing s all_parallel_results =
     filter (\<lambda>n. \<not> already_passed s n \<and> \<not> any_success (attempts_of all_parallel_results n)) (failed_tests s)"

fun serial_tests ::
  "('x, 'z) runner_scheme executor \<Rightarrow> args \<Rightarrow> string list \<Rightarrow> attempts \<Rightarrow> (('x, 'z) runner_scheme, attempts) step" where
  "serial_tests exec a [] all_serial_results = ret all_serial_results"
| "serial_tests exec a (n # ns) all_serial_results =
     and_then (gets (\<lambda>s. case dict_get (serial_attempts_done s) n of Some k \<Rightarrow> k | None \<Rightarrow> 0)) (\<lambda>attempts_done.
     let remaining = arg_attempts_serial a - attempts_done in
     if remaining > 0
     then and_then (retry_test_serially exec a n remaining) (\<lambda>rs.
          serial_tests exec a ns (dict_set n rs all_serial_results))
     else serial_tests exec a ns all_serial_results)"

definition execute_serial_retries ::
  "('x, 'z) runner_scheme executor \<Rightarrow> args \<Rightarrow> attempts \<Rightarrow> (('x, 'z) runner_scheme, attempts) step" where
  "execute_serial_retries exec a all_parallel_results =
     and_then (gets (\<lambda>s. tests_still_failing s all_parallel_results)) (\<lambda>failing.
     if arg_attempts_serial a > 0 \<and> failing \<noteq> [] then serial_tests exec a failing [] else ret [])"

definition initial_failure :: "string \<Rightarrow> string option \<Rightarrow> test_result" where
  "initial_failure n initial_log =
     \<lparr>tr_test_name = n, attempt = 1, attempt_type = ''initial'', success = False, namespace = None, duration = 0,
      log_file = Some (if truthy initial_log then the initial_log else ''unknown''), failed_step = None\<rparr>"

definition process_test_result :: "args \<Rightarrow> attempts \<Rightarrow> attempts \<Rightarrow> string \<Rightarrow> (('x, 'z) runner_scheme, unit) step" where
  "process_test_result a par ser n s =
     (if dict_has (test_summaries s) n then ret () s
      else create_test_summary a n (initial_failure n (initial_result_log s))
             (attempts_of par n @ attempts_of ser n) s)"

definition process_all_test_results :: "args \<Rightarrow> attempts \<Rightarrow> attempts \<Rightarrow> (('x, 'z) runner_scheme, unit) step" where
  "process_all_test_results a par ser =
     and_then (gets failed_tests) (\<lambda>failed. for_each (process_test_result a par ser) failed)"

definition execute_test_retries ::
  "('x, 'z) runner_scheme executor \<Rightarrow> scheduler \<Rightarrow> args \<Rightarrow> (('x, 'z) runner_scheme, bool) step" where
  "execute_test_retries exec sched a =
     and_then (execute_parallel_retries exec sched a) (\<lambda>par.
     and_then (execute_serial_retries exec a par) (\<lambda>ser.
     and_then (process_all_test_results a par ser) (\<lambda>_. ret True)))"

section \<open>The run\<close>

definition finalize_and_report :: "'x os \<Rightarrow> args \<Rightarrow> (('x, 'z) runner_scheme, int) step" where
  "finalize_and_report os a =
     and_then (gets start_time) (\<lambda>begun.
     and_then (generate_and_save_final_report os a begun) (\<lambda>_.
     gets (\<lambda>s. if length (with_status ''failed'' s) = 0 then 0 else 1)))"

definition run :: "'x os \<Rightarrow> scheduler \<Rightarrow> args \<Rightarrow> (('x, 'z) runner_scheme, int) step" where
  "run os sched a =
     and_then (initialize_run_mode os a) (\<lambda>go_on.
     if \<not> go_on then ret 0
     else and_then (execute_test_retries (executor_of os a) sched a) (\<lambda>ok.
          if \<not> ok then ret 1 else finalize_and_report os a))"

text \<open>\<open>AutoRetryTestRunner(args)\<close>: whatever the fields held, they are set; directories are made and
  the runtime histories are loaded.\<close>

definition construct :: "'x os \<Rightarrow> args \<Rightarrow> (('x, 'z) runner_scheme, unit) step" where
  "construct os a =
     and_then (on_ext (os_now os)) (\<lambda>now.
     and_then (modify (\<lambda>s. s\<lparr>results := [], test_summaries := [], start_time := now\<rparr>)) (\<lambda>_.
     and_then (mkdir (out_path a)) (\<lambda>_.
     and_then (mkdir (path_div (out_path a) ''retries'')) (\<lambda>_.
     and_then (modify (\<lambda>s. s\<lparr>failed_tests := [], parallel_attempts_done := 0, serial_attempts_done := [],
                          initial_result_log := None, histories := []\<rparr>)) (\<lambda>_.
     load_runtime_history a)))))"

text \<open>\<open>main\<close> after the arguments are parsed; its result is the exit code.\<close>

definition auto_retry_main :: "'x os \<Rightarrow> scheduler \<Rightarrow> args \<Rightarrow> (('x, 'z) runner_scheme, int) step" where
  "auto_retry_main os sched a =
     (if truthy (arg_resume a) \<and> truthy (arg_rerun_failed a) then ret 1
      else and_then (construct os a) (\<lambda>_.
        if truthy (arg_resume a)
        then let state = path_of (the (arg_resume a)) in
             and_then (gets (\<lambda>s. files s state \<noteq> None \<or> dirs s state)) (\<lambda>there.
             if \<not> there then ret 1
             else and_then (load_state state) (\<lambda>loaded.
                  if \<not> loaded then ret 1 else run os sched a))
        else run os sched a))"

end
