(* ===== verification/Retry_Laws.thy ===== *)
theory Retry_Laws
  imports Test_Runner "HOL-Library.Multiset"
begin

text \<open>
  The contract between the runner and its executor, and what the retry loops guarantee under it.
  Two locales state what the loops rely on: an executor that reports what it was asked and leaves
  the runner's fields alone, and one that, on a machine that is ready, always returns. The
  interpretations at the end of the first section discharge both for \<open>run_single_test_suite\<close>.
\<close>

section \<open>The contract\<close>

definition runner_fields ::
  "('x, 'z) runner_scheme \<Rightarrow> test_result list \<times> (string, test_summary) dict \<times> datetime \<times> string list \<times> int \<times>
     (string, int) dict \<times> string option" where
  "runner_fields s = (results s, test_summaries s, start_time s, failed_tests s, parallel_attempts_done s,
     serial_attempts_done s, initial_result_log s)"

locale retry_executor =
  fixes exec :: "('x, 'z) runner_scheme executor"
  assumes exec_reports:
      "exec n sk att ty s = (Inr r, s') \<Longrightarrow> attempt r = att \<and> attempt_type r = ty \<and> (n \<noteq> [] \<longrightarrow> tr_test_name r = n)"
    and exec_frame: "exec n sk att ty s = (res, s') \<Longrightarrow> runner_fields s' = runner_fields s"

locale reliable_executor = retry_executor exec
  for exec :: "('x, 'z) runner_scheme executor" +
  fixes a :: args
    and ready :: "('x, 'z) runner_scheme \<Rightarrow> bool"
  assumes exec_returns: "ready s \<Longrightarrow> ty \<in> {''parallel'', ''serial''} \<Longrightarrow>
      \<exists>r s'. exec n sk att ty s = (Inr r, s') \<and> ready s'"
    and ready_saves: "ready s \<Longrightarrow> can_write s (state_file a)"
    and ready_cong: "disk s' = disk s \<Longrightarrow> ready s' = ready s"

interpretation fields: bystander runner_fields
  by unfold_locales (simp_all add: runner_fields_def)

lemma executor_of_reports:
  "executor_of os a n sk att ty s = (Inr r, s') \<Longrightarrow>
    attempt r = att \<and> attempt_type r = ty \<and> (n \<noteq> [] \<longrightarrow> tr_test_name r = n)"
  unfolding executor_of_def by (erule run_single_elim) (simp add: result_from_def)

lemma executor_of_frame: "executor_of os a n sk att ty s = (r, s') \<Longrightarrow> runner_fields s' = runner_fields s"
  unfolding executor_of_def by (rule framesD [OF fields.fr_run_single])

lemma executor_of_returns:
  assumes "machine_ok os" and "output_ok a s" and "ty \<in> {''parallel'', ''serial''}"
  shows "\<exists>r s'. executor_of os a n sk att ty s = (Inr r, s') \<and> output_ok a s'"
proof -
  have "CHR ''/'' \<notin> set ty" using assms(3) by auto
  from run_single_returns [OF assms(1,2) this] obtain r s' where
    "run_single_test_suite os a (Some n) sk att ty s = (Inr r, s')" by (rule returnsE)
  with run_single_output_ok [OF this] assms(2) show ?thesis by (auto simp: executor_of_def)
qed

interpretation auto_exec: retry_executor "executor_of os a" for os a
  by unfold_locales (rule executor_of_reports, assumption, rule executor_of_frame)

definition machine_ready :: "'x os \<Rightarrow> args \<Rightarrow> ('x, 'z) manager_scheme \<Rightarrow> bool" where
  "machine_ready os a s \<longleftrightarrow> machine_ok os \<and> output_ok a s"

lemma machine_ready_saves: "machine_ready os a s \<Longrightarrow> can_write s (state_file a)"
  by (simp add: machine_ready_def output_ok_def)

lemma machine_ready_returns:
  assumes "machine_ready os a s" and "ty \<in> {''parallel'', ''serial''}"
  shows "\<exists>r s'. executor_of os a n sk att ty s = (Inr r, s') \<and> machine_ready os a s'"
proof -
  from assms(1) have m: "machine_ok os" "output_ok a s" by (simp_all add: machine_ready_def)
  from executor_of_returns [OF m assms(2), of n sk att] show ?thesis
    unfolding machine_ready_def using m(1) by (elim exE conjE) (intro exI conjI)
qed

lemma machine_ready_cong:
  "disk s' = disk s \<Longrightarrow> machine_ready os a s' = machine_ready os a s"
  unfolding machine_ready_def by (subst output_ok_cong [of s' s]) simp_all

lemma sample_machine_ready: "machine_ready sample_os sample_args (sample_runner script)"
  by (simp add: machine_ready_def sample_machine_ok sample_output_ok)

interpretation auto_machine: reliable_executor "executor_of os a :: ('x, 'z) runner_scheme executor" a "machine_ready os a" for os a
proof unfold_locales
  fix s s' :: "('x, 'z) runner_scheme" and ty n sk att
  show "machine_ready os a s \<Longrightarrow> can_write s (state_file a)" by (rule machine_ready_saves)
  show "machine_ready os a s \<Longrightarrow> ty \<in> {''parallel'', ''serial''} \<Longrightarrow>
      \<exists>r s'. executor_of os a n sk att ty s = (Inr r, s') \<and> machine_ready os a s'"
    by (rule machine_ready_returns)
  show "disk s' = disk s \<Longrightarrow> machine_ready os a s' = machine_ready os a s"
    by (rule machine_ready_cong)
qed

section \<open>Results per test\<close>

lemma attempts_of_add: "attempts_of (add_attempt n r d) m = (if m = n then attempts_of d n @ [r] else attempts_of d m)"
  by (simp add: attempts_of_def add_attempt_def update_conv')

lemma attempts_of_no_attempts [simp]: "attempts_of (no_attempts ns) n = []"
  by (auto simp: attempts_of_def no_attempts_def dict_get_dict_of split: option.split dest!: map_of_SomeD)

lemma any_success_Nil [simp]: "\<not> any_success []"
  by (simp add: any_success_def)

lemma any_success_append [simp]: "any_success (xs @ ys) \<longleftrightarrow> any_success xs \<or> any_success ys"
  by (simp add: any_success_def)

lemma any_success_Cons [simp]: "any_success (x # xs) \<longleftrightarrow> success x \<or> any_success xs"
  by (simp add: any_success_def)

lemma guarded_Inr:
  "m s = (Inr r, s') \<Longrightarrow> catch_all (and_then m (\<lambda>r. ret (Some r))) None s = (Inr (Some r), s')"
  by (simp add: catch_all_def handle_def and_then_def)

lemma guarded_Inl:
  "m s = (Inl e, s') \<Longrightarrow> catch_all (and_then m (\<lambda>r. ret (Some r))) None s =
     (if is_exception e then Inr None else Inl e, s')"
  by (simp add: catch_all_def handle_def and_then_def)

text \<open>The results of one test in the parallel phase, before attempt \<open>k\<close>: numbered upwards, and none
  after a success.\<close>

definition attempts_ok :: "int \<Rightarrow> string \<Rightarrow> test_result list \<Rightarrow> bool" where
  "attempts_ok k ty rs \<longleftrightarrow> sorted_wrt (<) (map attempt rs) \<and>
     (\<forall>r\<in>set rs. 1 \<le> attempt r \<and> attempt r < k \<and> attempt_type r = ty) \<and> \<not> any_success (butlast rs)"

text \<open>Every attempt before \<open>k\<close> was made, unless the test passed.\<close>

definition attempts_full :: "int \<Rightarrow> test_result list \<Rightarrow> bool" where
  "attempts_full k rs \<longleftrightarrow> any_success rs \<or> map attempt rs = [1..k - 1]"

lemma attempts_ok_mono: "attempts_ok k ty rs \<Longrightarrow> k \<le> k' \<Longrightarrow> attempts_ok k' ty rs"
  by (auto simp: attempts_ok_def)

lemma attempts_ok_snoc:
  assumes "attempts_ok k ty rs" and "\<not> any_success rs" and "attempt r = k" and "attempt_type r = ty" and "1 \<le> k"
  shows "attempts_ok (k + 1) ty (rs @ [r])"
  using assms by (auto simp: attempts_ok_def sorted_wrt_append)

lemma attempts_full_snoc:
  assumes "attempts_full k rs" and "\<not> any_success rs" and "attempt r = k" and "1 \<le> k"
  shows "attempts_full (k + 1) (rs @ [r])"
  using assms upto_rec2 [of 1 k] by (auto simp: attempts_full_def)

lemma attempts_ok_length:
  assumes "attempts_ok (m + 1) ty rs"
  shows "length rs \<le> nat m"
proof -
  have "distinct (map attempt rs)" using assms
    by (auto simp: attempts_ok_def strict_sorted_iff)
  moreover have "set (map attempt rs) \<subseteq> {1..m}" using assms by (auto simp: attempts_ok_def)
  ultimately have "length (map attempt rs) \<le> card {1..m}"
    using distinct_card card_mono by (metis finite_atLeastAtMost_int)
  then show ?thesis by simp
qed

text \<open>Without success every attempt was made; with one, it is the last result.\<close>

lemma attempts_outcome:
  assumes "attempts_ok (m + 1) ty rs" and "attempts_full (m + 1) rs"
  shows "if any_success rs then success (last rs) \<and> \<not> any_success (butlast rs) else length rs = nat m"
proof (cases "any_success rs")
  case True
  then have "rs \<noteq> []" by auto
  then have "any_success (butlast rs) \<or> success (last rs)"
    using True any_success_append [of "butlast rs" "[last rs]"] by simp
  with True assms show ?thesis by (simp add: attempts_ok_def)
next
  case False
  then have "length (map attempt rs) = length [1..m]" using assms(2) by (simp add: attempts_full_def)
  with False show ?thesis by simp
qed

section \<open>Parallel retries\<close>

text \<open>The thread pool runs what is submitted to it, each run once, in any order.\<close>

definition scheduler_ok :: "scheduler \<Rightarrow> bool" where
  "scheduler_ok sched \<longleftrightarrow> (\<forall>k ts. mset (sched k ts) = mset ts)"

lemma scheduler_okD: "scheduler_ok sched \<Longrightarrow> mset (sched k ts) = mset ts"
  by (simp add: scheduler_ok_def)

text \<open>What the parallel loop does not touch, beside its own counter and the results.\<close>

definition kept_fields ::
  "('x, 'z) runner_scheme \<Rightarrow> (string, test_summary) dict \<times> datetime \<times> string list \<times> (string, int) dict \<times> string option" where
  "kept_fields s = (test_summaries s, start_time s, failed_tests s, serial_attempts_done s, initial_result_log s)"

lemma kept_fields_update [simp]:
  "kept_fields (s\<lparr>parallel_attempts_done := k\<rparr>) = kept_fields s" "kept_fields (append_result r s) = kept_fields s"
  by (simp_all add: kept_fields_def append_result_def)

lemma append_result_simps [simp]:
  "results (append_result r s) = results s @ [r]"
  "parallel_attempts_done (append_result r s) = parallel_attempts_done s"
  "serial_attempts_done (append_result r s) = serial_attempts_done s"
  "disk (append_result r s) = disk s"
  by (simp_all add: append_result_def disk_def)

definition log_attempts :: "test_result list \<Rightarrow> attempts \<Rightarrow> attempts" where
  "log_attempts rs d = fold (\<lambda>r. add_attempt (tr_test_name r) r) rs d"

lemma attempts_of_log: "attempts_of (log_attempts rs d) n = attempts_of d n @ filter (\<lambda>r. tr_test_name r = n) rs"
  unfolding log_attempts_def by (induction rs arbitrary: d) (auto simp: attempts_of_add)

lemma runner_fieldsD:
  assumes "runner_fields s' = runner_fields s"
  shows "results s' = results s" "kept_fields s' = kept_fields s" "parallel_attempts_done s' = parallel_attempts_done s"
    "serial_attempts_done s' = serial_attempts_done s"
  using assms by (simp_all add: runner_fields_def kept_fields_def)

lemma subseq_names:
  assumes "subseq (map tr_test_name rs) ns"
  shows "tr_test_name ` set rs \<subseteq> set ns"
proof -
  obtain N where "map tr_test_name rs = nths ns N" using assms by (auto simp: subseq_conv_nths)
  then show ?thesis using set_nths_subset [of ns N] by (metis set_map)
qed

text \<open>A test of a round without repetitions has at most one result in it.\<close>

lemma subseq_filter_name:
  assumes "subseq (map tr_test_name rs) ns" and "distinct ns"
  shows "filter (\<lambda>r. tr_test_name r = n) rs = [] \<or>
    (\<exists>r\<in>set rs. tr_test_name r = n \<and> filter (\<lambda>r. tr_test_name r = n) rs = [r])"
proof -
  obtain N where "map tr_test_name rs = nths ns N" using assms(1) by (auto simp: subseq_conv_nths)
  then have "distinct (map tr_test_name rs)" using assms(2) by (simp add: distinct_nthsI)
  then have "distinct (map tr_test_name (filter (\<lambda>r. tr_test_name r = n) rs))"
    using distinct_map_filter by blast
  moreover have "set (map tr_test_name (filter (\<lambda>r. tr_test_name r = n) rs)) \<subseteq> {n}" by auto
  ultimately have "length (map tr_test_name (filter (\<lambda>r. tr_test_name r = n) rs)) \<le> card {n}"
    using distinct_card card_mono by (metis finite.emptyI finite.insertI)
  then have "length (filter (\<lambda>r. tr_test_name r = n) rs) \<le> 1" by simp
  then consider "filter (\<lambda>r. tr_test_name r = n) rs = []" | r where "filter (\<lambda>r. tr_test_name r = n) rs = [r]"
    by (cases "filter (\<lambda>r. tr_test_name r = n) rs") auto
  then show ?thesis
  proof cases
    case 2
    then have "r \<in> set (filter (\<lambda>r. tr_test_name r = n) rs)" by simp
    then have "r \<in> set rs" "tr_test_name r = n" by simp_all
    with 2 show ?thesis by blast
  qed simp
qed

context retry_executor
begin

lemma round_spec:
  assumes "parallel_round exec sk k ns d s = (Inr d', s')" and "[] \<notin> set ns"
  shows "\<exists>rs. d' = log_attempts rs d \<and> results s' = results s @ rs \<and> subseq (map tr_test_name rs) ns \<and>
    (\<forall>r\<in>set rs. attempt r = k \<and> attempt_type r = ''parallel'') \<and> kept_fields s' = kept_fields s"
  using assms
proof (induction ns arbitrary: d s)
  case Nil
  then show ?case by (intro exI [of _ "[]"]) (simp add: log_attempts_def)
next
  case (Cons n ns)
  obtain o1 s1 where run: "exec n sk k ''parallel'' s = (o1, s1)" by fastforce
  note kept = runner_fieldsD [OF exec_frame [OF run]]
  show ?case
  proof (cases o1)
    case (Inl e)
    with run Cons.prems have "parallel_round exec sk k ns d s1 = (Inr d', s')"
      by (simp add: and_then_def guarded_Inl split: if_splits)
    from Cons.IH [OF this] Cons.prems(2) kept show ?thesis by auto
  next
    case (Inr r)
    note rep = exec_reports [OF run [unfolded Inr]]
    from run Inr Cons.prems have "parallel_round exec sk k ns (add_attempt n r d) (append_result r s1) = (Inr d', s')"
      by (simp add: and_then_def guarded_Inr)
    from Cons.IH [OF this] Cons.prems(2) obtain rs where
      "d' = log_attempts rs (add_attempt n r d)" "results s' = results s1 @ [r] @ rs"
      "subseq (map tr_test_name rs) ns" "\<forall>r\<in>set rs. attempt r = k \<and> attempt_type r = ''parallel''"
      "kept_fields s' = kept_fields s1" by auto
    with rep kept Cons.prems(2) show ?thesis
      by (intro exI [of _ "r # rs"]) (auto simp: log_attempts_def)
  qed
qed

lemma attempts_spec:
  assumes "parallel_attempts exec sched a ts mx sf [k..m] d s = (Inr d', s')"
    and "1 \<le> k" and "distinct ts" and "[] \<notin> set ts" and "scheduler_ok sched"
    and "\<And>n. attempts_ok k ''parallel'' (attempts_of d n)"
  shows "(\<forall>n. attempts_ok (max k (m + 1)) ''parallel'' (attempts_of d' n)) \<and>
    (\<exists>rs. results s' = results s @ rs \<and> (\<forall>n. attempts_of d' n = attempts_of d n @ filter (\<lambda>r. tr_test_name r = n) rs) \<and>
       tr_test_name ` set rs \<subseteq> set ts) \<and> kept_fields s' = kept_fields s"
  using assms(1,2,6)
proof (induction "nat (m + 1 - k)" arbitrary: k d s)
  case 0
  then have "d' = d" "s' = s" by simp_all
  then show ?case using attempts_ok_mono [OF 0(4)] by auto
next
  case (Suc j)
  then have km: "k \<le> m" and upto: "[k..m] = k # [k + 1..m]" by (simp_all add: upto_rec1)
  let ?todo = "tests_to_retry ts d"
  show ?case
  proof (cases "?todo = []")
    case True
    with Suc.prems upto have "d' = d" "s' = s" by simp_all
    then show ?thesis using attempts_ok_mono [OF Suc.prems(3)] by auto
  next
    case False
    with Suc.prems(1) upto obtain d1 s1 where
      round: "parallel_round exec (parallel_skip_delete a sf k mx) k (sched k ?todo) d s = (Inr d1, s1)"
      and rest: "parallel_attempts exec sched a ts mx sf [k + 1..m] d1 (s1\<lparr>parallel_attempts_done := k\<rparr>) = (Inr d', s')"
      by (auto simp: Let_def split: if_splits elim!: and_then_resultE)
    have todo: "set ?todo \<subseteq> set ts" "distinct ?todo" using assms(3) by (auto simp: tests_to_retry_def)
    have sch: "set (sched k ?todo) = set ?todo" "distinct (sched k ?todo)"
      using scheduler_okD [OF assms(5), of k ?todo] todo(2) by (metis set_mset_mset, metis mset_eq_imp_distinct_iff)
    from round_spec [OF round] sch(1) todo(1) assms(4) obtain rs where rs:
      "d1 = log_attempts rs d" "results s1 = results s @ rs" "subseq (map tr_test_name rs) (sched k ?todo)"
      "\<forall>r\<in>set rs. attempt r = k \<and> attempt_type r = ''parallel''" "kept_fields s1 = kept_fields s" by auto
    have names: "tr_test_name ` set rs \<subseteq> set ?todo"
      using subseq_names [OF rs(3)] sch(1) by simp
    have ok1: "attempts_ok (k + 1) ''parallel'' (attempts_of d1 n)" for n
    proof (cases "filter (\<lambda>r. tr_test_name r = n) rs = []")
      case True
      then show ?thesis using Suc.prems(3) rs(1) by (auto simp: attempts_of_log intro: attempts_ok_mono [of k])
    next
      case False
      with subseq_filter_name [OF rs(3) sch(2), of n] obtain r where
        r: "r \<in> set rs" "tr_test_name r = n" "filter (\<lambda>r. tr_test_name r = n) rs = [r]" by blast
      have "\<not> any_success (attempts_of d n)" using names r by (auto simp: tests_to_retry_def)
      then have "attempts_ok (k + 1) ''parallel'' (attempts_of d n @ [r])"
        using attempts_ok_snoc Suc.prems(2,3) rs(4) r(1) by blast
      then show ?thesis using r rs(1) by (simp add: attempts_of_log)
    qed
    have "j = nat (m + 1 - (k + 1))" using Suc.hyps(2) by simp
    from Suc.hyps(1) [OF this rest _ ok1] Suc.prems(2) km obtain rs' where
      "\<forall>n. attempts_ok (max (k + 1) (m + 1)) ''parallel'' (attempts_of d' n)"
      "results s' = results s1 @ rs'" "\<forall>n. attempts_of d' n = attempts_of d1 n @ filter (\<lambda>r. tr_test_name r = n) rs'"
      "tr_test_name ` set rs' \<subseteq> set ts" "kept_fields s' = kept_fields s1" by auto
    with rs km names todo(1) show ?thesis
      by (auto simp: attempts_of_log intro!: exI [of _ "rs @ rs'"])
  qed
qed

end

lemma attempts_full_ended: "any_success rs \<Longrightarrow> attempts_full k rs"
  by (simp add: attempts_full_def)

lemma any_success_grows: "any_success (attempts_of d n) \<Longrightarrow> any_success (attempts_of (log_attempts rs d) n)"
  by (simp add: attempts_of_log)

context reliable_executor
begin

lemma ready_append [simp]: "ready (append_result r s) = ready s"
  by (rule ready_cong) simp_all

lemma ready_counter [simp]: "ready (s\<lparr>parallel_attempts_done := k\<rparr>) = ready s"
  by (rule ready_cong) (simp add: disk_def)

lemma round_all:
  assumes "ready s" and "[] \<notin> set ns"
  shows "\<exists>s' rs. parallel_round exec sk k ns d s = (Inr (log_attempts rs d), s') \<and> ready s' \<and>
    map tr_test_name rs = ns \<and> (\<forall>r\<in>set rs. attempt r = k)"
  using assms
proof (induction ns arbitrary: d s)
  case Nil
  then show ?case by (intro exI [of _ s] exI [of _ "[]"]) (simp add: log_attempts_def)
next
  case (Cons n ns)
  from exec_returns [OF Cons.prems(1), of "''parallel''" n sk k] obtain r s1 where
    run: "exec n sk k ''parallel'' s = (Inr r, s1)" "ready s1" by auto
  from Cons.IH [of "append_result r s1" "add_attempt n r d"] run(2) Cons.prems(2) obtain s' rs where
    "parallel_round exec sk k ns (add_attempt n r d) (append_result r s1) = (Inr (log_attempts rs (add_attempt n r d)), s')"
    "ready s'" "map tr_test_name rs = ns" "\<forall>r\<in>set rs. attempt r = k" by auto
  with run exec_reports [OF run(1)] Cons.prems(2) show ?case
    by (intro exI [of _ s'] exI [of _ "r # rs"]) (auto simp: and_then_def guarded_Inr log_attempts_def)
qed

lemma attempts_all:
  assumes "ready s" and "0 < arg_parallel a" and "1 \<le> k" and "distinct ts" and "[] \<notin> set ts"
    and "scheduler_ok sched" and "\<And>n. n \<in> set ts \<Longrightarrow> attempts_full k (attempts_of d n)"
  shows "\<exists>d' s'. parallel_attempts exec sched a ts mx sf [k..m] d s = (Inr d', s') \<and> ready s' \<and>
    (\<forall>n\<in>set ts. attempts_full (max k (m + 1)) (attempts_of d' n))"
  using assms(1,3,7)
proof (induction "nat (m + 1 - k)" arbitrary: k d s)
  case 0
  then show ?case by simp
next
  case (Suc j)
  then have km: "k \<le> m" and upto: "[k..m] = k # [k + 1..m]" by (simp_all add: upto_rec1)
  let ?todo = "tests_to_retry ts d"
  show ?case
  proof (cases "?todo = []")
    case True
    then have "any_success (attempts_of d n)" if "n \<in> set ts" for n
      using that by (auto simp: tests_to_retry_def filter_empty_conv)
    with True Suc.prems(1) upto show ?thesis by (auto simp: attempts_full_ended)
  next
    case False
    have todo: "set ?todo \<subseteq> set ts" "distinct ?todo" using assms(4) by (auto simp: tests_to_retry_def)
    have sch: "set (sched k ?todo) = set ?todo" "distinct (sched k ?todo)"
      using scheduler_okD [OF assms(6), of k ?todo] todo(2) by (metis set_mset_mset, metis mset_eq_imp_distinct_iff)
    from round_all [OF Suc.prems(1), of "sched k ?todo"] sch(1) todo(1) assms(5) obtain s1 rs where
      round: "parallel_round exec (parallel_skip_delete a sf k mx) k (sched k ?todo) d s = (Inr (log_attempts rs d), s1)"
      "ready s1" "map tr_test_name rs = sched k ?todo" "\<forall>r\<in>set rs. attempt r = k" by blast
    let ?d1 = "log_attempts rs d"
    have full1: "attempts_full (k + 1) (attempts_of ?d1 n)" if n: "n \<in> set ts" for n
    proof (cases "any_success (attempts_of d n)")
      case True
      then show ?thesis by (intro attempts_full_ended any_success_grows)
    next
      case False
      with n have "n \<in> set (sched k ?todo)" using sch(1) by (simp add: tests_to_retry_def)
      then have "filter (\<lambda>r. tr_test_name r = n) rs \<noteq> []"
        unfolding round(3) [symmetric] by (auto simp: filter_empty_conv)
      with subseq_filter_name [of rs "sched k ?todo" n] round(3) sch(2) obtain r where
        r: "r \<in> set rs" "filter (\<lambda>r. tr_test_name r = n) rs = [r]" by auto
      with attempts_full_snoc [OF Suc.prems(3) [OF n] False _ Suc.prems(2), of r] round(4)
      show ?thesis by (simp add: attempts_of_log)
    qed
    have "j = nat (m + 1 - (k + 1))" using Suc.hyps(2) by simp
    from Suc.hyps(1) [OF this, of "s1\<lparr>parallel_attempts_done := k\<rparr>" ?d1] round(2) full1 Suc.prems(2) obtain d' s' where
      rest: "parallel_attempts exec sched a ts mx sf [k + 1..m] ?d1 (s1\<lparr>parallel_attempts_done := k\<rparr>) = (Inr d', s')"
      "ready s'" "\<forall>n\<in>set ts. attempts_full (max (k + 1) (m + 1)) (attempts_of d' n)" by auto
    have "\<not> min (int (length ?todo)) (arg_parallel a) \<le> 0" using False assms(2) by (simp add: min_le_iff_disj)
    then have "parallel_attempts exec sched a ts mx sf [k..m] d s = (Inr d', s')"
      using False upto round(1) rest(1) by (simp add: Let_def and_then_def)
    moreover have "max (k + 1) (m + 1) = max k (m + 1)" using km by simp
    ultimately show ?thesis using rest(2,3) by auto
  qed
qed

end

section \<open>Serial retries\<close>

text \<open>The results of one test in the serial phase: numbered from 1 without gaps, none after a success,
  and stopped short of \<open>m\<close> attempts only by a success.\<close>

definition serial_results_ok :: "string \<Rightarrow> int \<Rightarrow> test_result list \<Rightarrow> bool" where
  "serial_results_ok n m rs \<longleftrightarrow> map attempt rs = [1..int (length rs)] \<and> int (length rs) \<le> max 0 m \<and>
     (\<forall>r\<in>set rs. attempt_type r = ''serial'' \<and> (n \<noteq> [] \<longrightarrow> tr_test_name r = n)) \<and>
     \<not> any_success (butlast rs) \<and> (any_success rs \<or> int (length rs) = max 0 m)"

definition serial_kept ::
  "('x, 'z) runner_scheme \<Rightarrow> (string, test_summary) dict \<times> datetime \<times> string list \<times> int \<times> string option" where
  "serial_kept s = (test_summaries s, start_time s, failed_tests s, parallel_attempts_done s, initial_result_log s)"

lemma serial_kept_simps [simp]:
  "serial_kept (append_result r s) = serial_kept s" "serial_kept (s\<lparr>serial_attempts_done := d\<rparr>) = serial_kept s"
  by (simp_all add: serial_kept_def append_result_def)

lemma serial_kept_fields: "runner_fields s' = runner_fields s \<Longrightarrow> serial_kept s' = serial_kept s"
  by (simp add: runner_fields_def serial_kept_def)

lemma save_state_frame:
  assumes "save_state a s = (res, s')"
  shows "runner_fields s' = runner_fields s" "disk s' = disk s" "ext s' = ext s"
    "commands s' = commands s"
  using assms by (auto simp: save_state_def and_then_def safe_save_eval runner_fields_def
      split: if_splits option.splits)

lemma save_state_ok:
  "can_write s (state_file a) \<Longrightarrow>
    save_state a s = (Inr True, s\<lparr>files := (files s)(state_file a \<mapsto> Json (build_state_data a s))\<rparr>)"
  by (simp add: save_state_def and_then_def safe_save_ok)

text \<open>One serial attempt, when it returns.\<close>

lemma serial_step_cases:
  assumes "serial_attempts exec a n mx (k # ks) rs s = (Inr rs', s')"
  obtains r s1 s2 where "exec n (\<not> arg_delete_failed_namespaces a \<and> k = mx) k ''serial'' s = (Inr r, s1)"
    and "runner_fields s2 = runner_fields (append_result r s1)"
    and "(if success r then ret (rs @ [r]) else serial_attempts exec a n mx ks (rs @ [r]))
           (s2\<lparr>serial_attempts_done := dict_set n k (serial_attempts_done s2)\<rparr>) = (Inr rs', s')"
  using assms save_state_frame(1) by (fastforce elim!: and_then_resultE simp: if_distrib [of "\<lambda>f. f s2" for s2])

context retry_executor
begin

lemma serial_spec:
  assumes "serial_attempts exec a n mx [k..m] rs s = (Inr rs', s')"
    and "map attempt rs = [1..k - 1]" and "1 \<le> k" and "k \<le> m + 1" and "\<not> any_success rs"
  shows "\<exists>new. rs' = rs @ new \<and> results s' = results s @ new \<and> map attempt rs' = [1..int (length rs')] \<and>
    int (length rs') \<le> m \<and> (\<forall>r\<in>set new. attempt_type r = ''serial'' \<and> (n \<noteq> [] \<longrightarrow> tr_test_name r = n)) \<and>
    \<not> any_success (butlast rs') \<and> (any_success rs' \<or> int (length rs') = m) \<and> serial_kept s' = serial_kept s \<and>
    serial_attempts_done s' = (if new = [] then serial_attempts_done s
      else fold (dict_set n) [k..int (length rs')] (serial_attempts_done s))"
  using assms
proof (induction "nat (m + 1 - k)" arbitrary: k rs s)
  case 0
  then have "k = m + 1" by simp
  moreover have len: "int (length rs) = k - 1" using arg_cong [OF 0(3), of length] 0(4) by simp
  ultimately show ?case using 0 len by (auto simp: any_success_def list_ex_iff dest: in_set_butlastD)
next
  case (Suc j)
  then have km: "k \<le> m" and upto: "[k..m] = k # [k + 1..m]" by (simp_all add: upto_rec1)
  have len: "int (length rs) = k - 1" using arg_cong [OF Suc.prems(2), of length] Suc.prems(3) by simp
  from Suc.prems(1) obtain r s1 s2 where
    run: "exec n (\<not> arg_delete_failed_namespaces a \<and> k = mx) k ''serial'' s = (Inr r, s1)"
    and s2: "runner_fields s2 = runner_fields (append_result r s1)"
    and rest: "(if success r then ret (rs @ [r]) else serial_attempts exec a n mx [k + 1..m] (rs @ [r]))
           (s2\<lparr>serial_attempts_done := dict_set n k (serial_attempts_done s2)\<rparr>) = (Inr rs', s')"
    unfolding upto by (rule serial_step_cases)
  let ?s3 = "s2\<lparr>serial_attempts_done := dict_set n k (serial_attempts_done s2)\<rparr>"
  note rep = exec_reports [OF run] and kept = runner_fieldsD [OF exec_frame [OF run]]
  have s3: "results ?s3 = results s @ [r]" "serial_kept ?s3 = serial_kept s"
    "serial_attempts_done ?s3 = dict_set n k (serial_attempts_done s)"
    using runner_fieldsD [OF s2] kept serial_kept_fields [OF s2] serial_kept_fields [OF exec_frame [OF run]]
    by simp_all
  have nums: "map attempt (rs @ [r]) = [1..k]"
    using Suc.prems(2,3) rep upto_rec2 [of 1 k] by simp
  show ?case
  proof (cases "success r")
    case True
    with rest have "rs' = rs @ [r]" "s' = ?s3" by simp_all
    with True s3 nums len km rep Suc.prems(5) show ?thesis by (auto simp: add.commute)
  next
    case False
    with rest have rest': "serial_attempts exec a n mx [k + 1..m] (rs @ [r]) ?s3 = (Inr rs', s')" by simp
    have "j = nat (m + 1 - (k + 1))" using Suc.hyps(2) by simp
    from Suc.hyps(1) [OF this rest'] nums km Suc.prems(3,5) False obtain new where new:
      "rs' = (rs @ [r]) @ new" "results s' = results ?s3 @ new" "map attempt rs' = [1..int (length rs')]"
      "int (length rs') \<le> m" "\<forall>r\<in>set new. attempt_type r = ''serial'' \<and> (n \<noteq> [] \<longrightarrow> tr_test_name r = n)"
      "\<not> any_success (butlast rs')" "any_success rs' \<or> int (length rs') = m" "serial_kept s' = serial_kept ?s3"
      "serial_attempts_done s' = (if new = [] then serial_attempts_done ?s3
        else fold (dict_set n) [k + 1..int (length rs')] (serial_attempts_done ?s3))"
      by auto
    have "k \<le> int (length rs')" using new(1) len by simp
    then have "[k..int (length rs')] = k # [k + 1..int (length rs')]" by (simp add: upto_rec1)
    moreover have "new = [] \<Longrightarrow> [k + 1..int (length rs')] = []" using new(1) len by simp
    ultimately show ?thesis using new s3 rep by (intro exI [of _ "r # new"]) auto
  qed
qed

end

text \<open>All serial retries of one test, from the first.\<close>

context retry_executor
begin

lemma serial_run:
  assumes "retry_test_serially exec a n m s = (Inr rs, s')"
  shows "serial_results_ok n m rs \<and> results s' = results s @ rs \<and> serial_kept s' = serial_kept s \<and>
    serial_attempts_done s' = (if rs = [] then serial_attempts_done s
      else fold (dict_set n) [1..int (length rs)] (serial_attempts_done s))"
proof (cases "m \<le> 0")
  case True
  with assms show ?thesis by (simp add: retry_test_serially_def serial_results_ok_def)
next
  case False
  with assms have "serial_attempts exec a n m [1..m] [] s = (Inr rs, s')"
    by (simp add: retry_test_serially_def)
  from serial_spec [OF this] False show ?thesis by (auto simp: serial_results_ok_def)
qed

end

lemma dict_get_fold_set: "dict_get (fold (dict_set n) ks d) m = (if m = n \<and> ks \<noteq> [] then Some (last ks) else dict_get d m)"
  by (induction ks arbitrary: d) (auto simp: update_conv')

context reliable_executor
begin

lemma ready_save: "ready s \<Longrightarrow> \<exists>s1. save_state a s = (Inr True, s1) \<and> ready s1"
  using save_state_ok [OF ready_saves] ready_cong by (metis save_state_frame(2))

lemma ready_serial_counter [simp]: "ready (s\<lparr>serial_attempts_done := d\<rparr>) = ready s"
  by (rule ready_cong) (simp add: disk_def)

lemma serial_returns:
  assumes "ready s"
  shows "\<exists>rs' s'. serial_attempts exec a n mx ks rs s = (Inr rs', s') \<and> ready s'"
  using assms
proof (induction ks arbitrary: rs s)
  case (Cons k ks)
  let ?sk = "\<not> arg_delete_failed_namespaces a \<and> k = mx"
  from exec_returns [OF Cons.prems, of "''serial''" n ?sk k] obtain r s1 where
    run: "exec n ?sk k ''serial'' s = (Inr r, s1)" "ready s1" by auto
  then have "ready (append_result r s1)" by simp
  from ready_save [OF this] obtain s2 where
    s2: "save_state a (append_result r s1) = (Inr True, s2)" "ready s2" by blast
  let ?s3 = "s2\<lparr>serial_attempts_done := dict_set n k (serial_attempts_done s2)\<rparr>"
  have "serial_attempts exec a n mx (k # ks) rs s =
      (if success r then ret (rs @ [r]) else serial_attempts exec a n mx ks (rs @ [r])) ?s3"
    by (simp add: and_then_def run(1) s2(1))
  moreover have "\<exists>rs' s'. (if success r then ret (rs @ [r]) else serial_attempts exec a n mx ks (rs @ [r])) ?s3 =
      (Inr rs', s') \<and> ready s'"
    using Cons.IH [of ?s3 "rs @ [r]"] s2(2) by auto
  ultimately show ?case by simp
qed simp

lemma serial_run_returns: "ready s \<Longrightarrow> \<exists>rs s'. retry_test_serially exec a n m s = (Inr rs, s') \<and> ready s'"
  using serial_returns by (simp add: retry_test_serially_def)

end

end
