(* ===== verification/Run_Laws.thy ===== *)
theory Run_Laws
  imports Retry_Laws
begin

text \<open>
  What a whole retry strategy and a whole run guarantee, from the laws of the loops: how many
  attempts a failed test gets, what its summary says, and what the exit code means.
\<close>

section \<open>The retries of one run\<close>

text \<open>The attempts that a (possibly resumed) run still makes.\<close>

definition parallel_left :: "args \<Rightarrow> ('x, 'z) runner_scheme \<Rightarrow> int" where
  "parallel_left a s = (if 0 < arg_attempts_parallel a \<and> parallel_attempts_done s < arg_attempts_parallel a
     then arg_attempts_parallel a - parallel_attempts_done s else 0)"

definition serial_done :: "('x, 'z) runner_scheme \<Rightarrow> string \<Rightarrow> int" where
  "serial_done s n = (case dict_get (serial_attempts_done s) n of Some k \<Rightarrow> k | None \<Rightarrow> 0)"

definition serial_left :: "args \<Rightarrow> ('x, 'z) runner_scheme \<Rightarrow> string \<Rightarrow> int" where
  "serial_left a s n = (if 0 < arg_attempts_serial a then max 0 (arg_attempts_serial a - serial_done s n) else 0)"

text \<open>The retry results of one test: parallel ones, then serial ones if none of them was a success.
  When \<open>whole\<close>, no parallel attempt is missing before the first success.\<close>

definition retries_ok :: "bool \<Rightarrow> int \<Rightarrow> int \<Rightarrow> string \<Rightarrow> test_result list \<Rightarrow> bool" where
  "retries_ok whole mp ms n rs \<longleftrightarrow> (\<exists>par ser. rs = par @ ser \<and> attempts_ok (mp + 1) ''parallel'' par \<and>
     (whole \<longrightarrow> attempts_full (mp + 1) par) \<and> (if any_success par then ser = [] else serial_results_ok n ms ser))"

lemma attempts_ok_Nil [simp]: "attempts_ok k ty []"
  by (simp add: attempts_ok_def)

lemma serial_results_ok_Nil: "m \<le> 0 \<Longrightarrow> serial_results_ok n m []"
  by (simp add: serial_results_ok_def)

lemma serial_results_ok_max [simp]: "serial_results_ok n (max 0 m) rs = serial_results_ok n m rs"
  by (simp add: serial_results_ok_def)

lemma any_success_butlast_append:
  "any_success (butlast (xs @ ys)) \<longleftrightarrow> (if ys = [] then any_success (butlast xs) else any_success xs \<or> any_success (butlast ys))"
  by (simp add: butlast_append)

lemma retries_okD:
  assumes "retries_ok whole mp ms n rs" and "0 \<le> mp" and "0 \<le> ms"
  shows "int (length rs) \<le> mp + ms" "\<not> any_success (butlast rs)" "any_success rs \<or> ms \<le> int (length rs)"
    "whole \<Longrightarrow> \<not> any_success rs \<Longrightarrow> map attempt rs = [1..mp] @ [1..ms]"
proof -
  from assms(1) obtain par ser where r: "rs = par @ ser" "attempts_ok (mp + 1) ''parallel'' par"
    "if any_success par then ser = [] else serial_results_ok n ms ser" "whole \<longrightarrow> attempts_full (mp + 1) par"
    by (auto simp: retries_ok_def)
  show "whole \<Longrightarrow> \<not> any_success rs \<Longrightarrow> map attempt rs = [1..mp] @ [1..ms]"
    using r assms(3) by (auto simp: attempts_full_def serial_results_ok_def split: if_splits)
  have "int (length par) \<le> mp" using attempts_ok_length [OF r(2)] assms(2) by simp
  moreover have "int (length ser) \<le> ms" using r(3) assms(3) by (auto simp: serial_results_ok_def split: if_splits)
  ultimately show "int (length rs) \<le> mp + ms" using r(1) by simp
  show "\<not> any_success (butlast rs)" using r
    by (auto simp: any_success_butlast_append attempts_ok_def serial_results_ok_def split: if_splits)
  show "any_success rs \<or> ms \<le> int (length rs)" using r(1,3) assms(3)
    by (auto simp: serial_results_ok_def split: if_splits)
qed

lemma last_success: "any_success rs \<Longrightarrow> \<not> any_success (butlast rs) \<Longrightarrow> success (last rs)"
  by (cases rs rule: rev_cases) auto

lemma attempts_of_Nil [simp]: "attempts_of [] n = []"
  by (simp add: attempts_of_def)

lemma attempts_of_set: "attempts_of (dict_set n rs d) m = (if m = n then rs else attempts_of d m)"
  by (simp add: attempts_of_def update_conv')

lemma attempts_full_start: "attempts_full 1 []"
  by (simp add: attempts_full_def)

lemma serial_done_fold:
  "serial_done (s\<lparr>serial_attempts_done := fold (dict_set n) ks d\<rparr>) m =
    (if m = n \<and> ks \<noteq> [] then last ks else serial_done (s\<lparr>serial_attempts_done := d\<rparr>) m)"
  by (auto simp: serial_done_def dict_get_fold_set)

lemma serial_done_cong: "serial_attempts_done s' = serial_attempts_done s \<Longrightarrow> serial_done s' n = serial_done s n"
  by (simp add: serial_done_def)

context retry_executor
begin

lemma parallel_phase:
  assumes "execute_parallel_retries exec sched a s = (Inr par, s')"
    and "distinct (failed_tests s)" and "[] \<notin> set (failed_tests s)" and "scheduler_ok sched"
  shows "(\<forall>n. attempts_ok (parallel_left a s + 1) ''parallel'' (attempts_of par n)) \<and>
    (\<exists>rs. results s' = results s @ rs \<and> (\<forall>n. attempts_of par n = filter (\<lambda>r. tr_test_name r = n) rs) \<and>
       tr_test_name ` set rs \<subseteq> set (failed_tests s)) \<and> kept_fields s' = kept_fields s"
proof (cases "parallel_left a s > 0 \<and> filter (\<lambda>n. \<not> already_passed s n) (failed_tests s) \<noteq> []")
  case False
  then have "par = [] \<and> s' = s"
    using assms(1) by (auto simp: execute_parallel_retries_def parallel_left_def Let_def split: if_splits)
  then show ?thesis by auto
next
  case True
  let ?ts = "filter (\<lambda>n. \<not> already_passed s n) (failed_tests s)"
  have "parallel_attempts exec sched a ?ts (parallel_left a s) (arg_attempts_serial a > 0) [1..parallel_left a s]
      (no_attempts ?ts) s = (Inr par, s')"
    using assms(1) True
    by (simp add: execute_parallel_retries_def parallel_left_def retry_tests_in_parallel_def Let_def split: if_splits)
  from attempts_spec [OF this] assms(2-4) True show ?thesis by fastforce
qed

lemma serial_phase:
  assumes "serial_tests exec a ns d s = (Inr d', s')" and "distinct ns" and "[] \<notin> set ns"
    and "0 < arg_attempts_serial a" and "\<And>n. n \<in> set ns \<Longrightarrow> attempts_of d n = []"
  shows "(\<forall>n\<in>set ns. serial_results_ok n (serial_left a s n) (attempts_of d' n)) \<and>
    (\<exists>rs. results s' = results s @ rs \<and> (\<forall>n. attempts_of d' n = attempts_of d n @ filter (\<lambda>r. tr_test_name r = n) rs) \<and>
       tr_test_name ` set rs \<subseteq> set ns) \<and> serial_kept s' = serial_kept s"
  using assms(1-3,5)
proof (induction ns arbitrary: d s)
  case Nil
  then show ?case by auto
next
  case (Cons n ns)
  let ?m = "arg_attempts_serial a - serial_done s n"
  show ?case
  proof (cases "0 < ?m")
    case False
    with Cons.prems(1) have "serial_tests exec a ns d s = (Inr d', s')"
      by (simp add: serial_done_def Let_def)
    from Cons.IH [OF this] Cons.prems(2-4) obtain rs where IH:
      "\<forall>n\<in>set ns. serial_results_ok n (serial_left a s n) (attempts_of d' n)"
      "results s' = results s @ rs" "\<forall>n. attempts_of d' n = attempts_of d n @ filter (\<lambda>r. tr_test_name r = n) rs"
      "tr_test_name ` set rs \<subseteq> set ns" "serial_kept s' = serial_kept s" by auto
    have "filter (\<lambda>r. tr_test_name r = n) rs = []" using IH(4) Cons.prems(2) by (auto simp: filter_empty_conv)
    then have "serial_results_ok n (serial_left a s n) (attempts_of d' n)"
      using False IH(3) Cons.prems(4) by (simp add: serial_results_ok_Nil serial_left_def)
    with IH show ?thesis by auto
  next
    case True
    with Cons.prems(1) obtain rs1 s1 where run: "retry_test_serially exec a n ?m s = (Inr rs1, s1)"
      and rest: "serial_tests exec a ns (dict_set n rs1 d) s1 = (Inr d', s')"
      by (auto simp: serial_done_def Let_def elim!: and_then_resultE)
    from serial_run [OF run] have one: "serial_results_ok n ?m rs1" "results s1 = results s @ rs1"
      "serial_kept s1 = serial_kept s" "\<And>m. m \<noteq> n \<Longrightarrow> serial_done s1 m = serial_done s m"
      by (auto simp: serial_done_def dict_get_fold_set split: if_splits)
    have d: "distinct ns" "[] \<notin> set ns" using Cons.prems(2,3) by simp_all
    have "attempts_of (dict_set n rs1 d) m = []" if "m \<in> set ns" for m
      using that Cons.prems(2,4) by (auto simp: attempts_of_set)
    from Cons.IH [OF rest d this] obtain rs where IH:
      "\<forall>n\<in>set ns. serial_results_ok n (serial_left a s1 n) (attempts_of d' n)"
      "results s' = results s1 @ rs"
      "\<forall>m. attempts_of d' m = attempts_of (dict_set n rs1 d) m @ filter (\<lambda>r. tr_test_name r = m) rs"
      "tr_test_name ` set rs \<subseteq> set ns" "serial_kept s' = serial_kept s1" by blast
    have "filter (\<lambda>r. tr_test_name r = n) rs = []" using IH(4) Cons.prems(2) by (auto simp: filter_empty_conv)
    then have n: "attempts_of d' n = rs1" using IH(3) by (simp add: attempts_of_set)
    have names: "\<forall>r\<in>set rs1. tr_test_name r = n" using one(1) Cons.prems(3) by (auto simp: serial_results_ok_def)
    have "attempts_of d' m = attempts_of d m @ filter (\<lambda>r. tr_test_name r = m) (rs1 @ rs)" for m
    proof (cases "m = n")
      case True
      then show ?thesis using n names Cons.prems(4) \<open>filter (\<lambda>r. tr_test_name r = n) rs = []\<close> by simp
    next
      case False
      then have "filter (\<lambda>r. tr_test_name r = m) rs1 = []" using names by (auto simp: filter_empty_conv)
      with False IH(3) show ?thesis by (simp add: attempts_of_set)
    qed
    moreover have "serial_results_ok m (serial_left a s m) (attempts_of d' m)" if "m \<in> set (n # ns)" for m
    proof (cases "m = n")
      case True
      then show ?thesis using n one(1) assms(4) by (simp add: serial_left_def)
    next
      case False
      then show ?thesis using that IH(1) one(4) by (auto simp: serial_left_def)
    qed
    moreover have "tr_test_name ` set (rs1 @ rs) \<subseteq> set (n # ns)" using names IH(4) by auto
    moreover have "results s' = results s @ rs1 @ rs" "serial_kept s' = serial_kept s"
      using one(2,3) IH(2,5) by simp_all
    ultimately show ?thesis by blast
  qed
qed

end

section \<open>The summaries\<close>

definition summary_of ::
  "args \<Rightarrow> ('x, 'z) runner_scheme \<Rightarrow> attempts \<Rightarrow> attempts \<Rightarrow> string \<Rightarrow> test_summary" where
  "summary_of a s par ser n =
     summarize a n (initial_failure n (initial_result_log s)) (attempts_of par n @ attempts_of ser n)"

lemma process_all_loop:
  assumes "distinct ns"
  shows "for_each (process_test_result a par ser) ns s = (Inr (), s\<lparr>test_summaries := test_summaries s @
     map (\<lambda>n. (n, summary_of a s par ser n)) (filter (\<lambda>n. \<not> dict_has (test_summaries s) n) ns)\<rparr>)"
  using assms
proof (induction ns arbitrary: s)
  case (Cons n ns)
  show ?case
  proof (cases "dict_has (test_summaries s) n")
    case True
    with Cons show ?thesis by (simp add: process_test_result_def and_then_def)
  next
    case False
    let ?s1 = "s\<lparr>test_summaries := test_summaries s @ [(n, summary_of a s par ser n)]\<rparr>"
    have "process_test_result a par ser n s = (Inr (), ?s1)"
      using False dict_set_new [of n "test_summaries s"]
      by (simp add: process_test_result_def create_test_summary_def summary_of_def map_of_eq_None_iff)
    moreover have "filter (\<lambda>m. \<not> dict_has (test_summaries ?s1) m) ns = filter (\<lambda>m. \<not> dict_has (test_summaries s) m) ns"
      using Cons.prems by (auto intro!: filter_cong)
    moreover have "summary_of a ?s1 par ser = summary_of a s par ser" by (simp add: fun_eq_iff summary_of_def)
    ultimately show ?thesis using Cons.IH [of ?s1] Cons.prems False by (simp add: and_then_def)
  qed
qed simp

lemma process_all_spec:
  "distinct (failed_tests s) \<Longrightarrow> process_all_test_results a par ser s = (Inr (), s\<lparr>test_summaries := test_summaries s @
     map (\<lambda>n. (n, summary_of a s par ser n)) (filter (\<lambda>n. \<not> dict_has (test_summaries s) n) (failed_tests s))\<rparr>)"
  by (simp add: process_all_test_results_def process_all_loop)

lemma not_has_not_passed: "\<not> dict_has (test_summaries s) n \<Longrightarrow> \<not> already_passed s n"
  by (auto simp: already_passed_def dest: map_of_SomeD split: option.splits)

text \<open>No parallel attempt of a test without a summary is missing.\<close>

definition parallel_whole ::
  "('x, 'z) runner_scheme executor \<Rightarrow> scheduler \<Rightarrow> args \<Rightarrow> ('x, 'z) runner_scheme \<Rightarrow> bool" where
  "parallel_whole exec sched a s \<longleftrightarrow> (case execute_parallel_retries exec sched a s of
     (Inl e, s1) \<Rightarrow> True
   | (Inr par, s1) \<Rightarrow> (\<forall>n\<in>set (failed_tests s). \<not> dict_has (test_summaries s) n \<longrightarrow>
       attempts_full (parallel_left a s + 1) (attempts_of par n)))"

text \<open>A summary made by this run for a test that failed initially.\<close>

definition summary_ok :: "bool \<Rightarrow> args \<Rightarrow> int \<Rightarrow> int \<Rightarrow> string option \<Rightarrow> string \<Rightarrow> test_summary \<Rightarrow> bool" where
  "summary_ok whole a mp ms initial_log n t \<longleftrightarrow> retries_ok whole mp ms n (retry_results t) \<and>
     t = summarize a n (initial_failure n initial_log) (retry_results t)"

context retry_executor
begin

lemma serial_strategy:
  assumes "execute_serial_retries exec a par s = (Inr ser, s')"
    and "distinct (failed_tests s)" and "[] \<notin> set (failed_tests s)"
  shows "(\<forall>n\<in>set (tests_still_failing s par). serial_results_ok n (serial_left a s n) (attempts_of ser n)) \<and>
    (\<exists>rs. results s' = results s @ rs \<and> (\<forall>n. attempts_of ser n = filter (\<lambda>r. tr_test_name r = n) rs) \<and>
       tr_test_name ` set rs \<subseteq> set (tests_still_failing s par)) \<and> serial_kept s' = serial_kept s"
proof (cases "0 < arg_attempts_serial a \<and> tests_still_failing s par \<noteq> []")
  case True
  with assms(1) have "serial_tests exec a (tests_still_failing s par) [] s = (Inr ser, s')"
    by (simp add: execute_serial_retries_def)
  from serial_phase [OF this] True assms(2,3) show ?thesis by (simp add: tests_still_failing_def)
next
  case False
  then have "ser = [] \<and> s' = s" using assms(1) by (auto simp: execute_serial_retries_def)
  then show ?thesis using False by (auto simp: serial_left_def intro!: serial_results_ok_Nil)
qed

lemma strategy_spec:
  assumes "execute_test_retries exec sched a s = (Inr ok, s')"
    and "distinct (failed_tests s)" and "[] \<notin> set (failed_tests s)" and "scheduler_ok sched"
    and whole: "whole \<longrightarrow> parallel_whole exec sched a s"
  shows "ok \<and> (\<exists>f rs. results s' = results s @ rs \<and>
    test_summaries s' = test_summaries s @ map (\<lambda>n. (n, f n)) (filter (\<lambda>n. \<not> dict_has (test_summaries s) n) (failed_tests s)) \<and>
    (\<forall>n\<in>set (failed_tests s). \<not> dict_has (test_summaries s) n \<longrightarrow>
       summary_ok whole a (parallel_left a s) (serial_left a s n) (initial_result_log s) n (f n) \<and>
       retry_results (f n) = filter (\<lambda>r. tr_test_name r = n) rs))"
proof -
  from assms(1) obtain par s1 ser s2 where par: "execute_parallel_retries exec sched a s = (Inr par, s1)"
    and ser: "execute_serial_retries exec a par s1 = (Inr ser, s2)"
    and fin: "\<exists>u s3. process_all_test_results a par ser s2 = (Inr u, s3) \<and> ret True s3 = (Inr ok, s')"
    unfolding execute_test_retries_def and_then_result by blast
  from parallel_phase [OF par assms(2-4)] obtain rs1 where p:
    "\<And>n. attempts_ok (parallel_left a s + 1) ''parallel'' (attempts_of par n)" "results s1 = results s @ rs1"
    "\<And>n. attempts_of par n = filter (\<lambda>r. tr_test_name r = n) rs1" "kept_fields s1 = kept_fields s" by blast
  then have k1: "failed_tests s1 = failed_tests s" "test_summaries s1 = test_summaries s"
    "serial_attempts_done s1 = serial_attempts_done s" "initial_result_log s1 = initial_result_log s"
    by (simp_all add: kept_fields_def)
  from serial_strategy [OF ser] assms(2,3) k1(1) obtain rs2 where q:
    "\<And>n. n \<in> set (tests_still_failing s1 par) \<Longrightarrow> serial_results_ok n (serial_left a s1 n) (attempts_of ser n)"
    "results s2 = results s1 @ rs2" "\<And>n. attempts_of ser n = filter (\<lambda>r. tr_test_name r = n) rs2"
    "tr_test_name ` set rs2 \<subseteq> set (tests_still_failing s1 par)" "serial_kept s2 = serial_kept s1" unfolding k1(1) by blast
  then have k2: "failed_tests s2 = failed_tests s" "test_summaries s2 = test_summaries s"
    "initial_result_log s2 = initial_result_log s" using k1 by (simp_all add: serial_kept_def)
  let ?f = "summary_of a s2 par ser"
  have fin': "ok" "s' = s2\<lparr>test_summaries := test_summaries s @
      map (\<lambda>n. (n, ?f n)) (filter (\<lambda>n. \<not> dict_has (test_summaries s) n) (failed_tests s))\<rparr>"
    using fin process_all_spec [of s2 a par ser] assms(2) k2 by auto
  have "retries_ok whole (parallel_left a s) (serial_left a s n) n (attempts_of par n @ attempts_of ser n)"
    if n: "n \<in> set (failed_tests s)" "\<not> dict_has (test_summaries s) n" for n
  proof (cases "any_success (attempts_of par n)")
    case True
    then have "n \<notin> set (tests_still_failing s1 par)" by (simp add: tests_still_failing_def)
    then have "attempts_of ser n = []" using q(3,4) by (auto simp: filter_empty_conv)
    with True p(1) [of n] show ?thesis
      unfolding retries_ok_def by (intro exI [of _ "attempts_of par n"] exI [of _ "[]"]) (simp add: attempts_full_ended)
  next
    case False
    then have "n \<in> set (tests_still_failing s1 par)"
      using n k1 not_has_not_passed [of s1 n] by (simp add: tests_still_failing_def)
    moreover have "serial_left a s1 n = serial_left a s n" using k1(3) by (simp add: serial_left_def serial_done_def)
    ultimately show ?thesis using q(1) [of n] False p(1) [of n] whole par n
      unfolding retries_ok_def parallel_whole_def by (intro exI [of _ "attempts_of par n"] exI [of _ "attempts_of ser n"]) simp
  qed
  then have "summary_ok whole a (parallel_left a s) (serial_left a s n) (initial_result_log s) n (?f n)"
    if "n \<in> set (failed_tests s)" "\<not> dict_has (test_summaries s) n" for n
    using that k2 by (simp add: summary_ok_def summary_of_def summarize_def Let_def)
  moreover have "retry_results (?f n) = filter (\<lambda>r. tr_test_name r = n) (rs1 @ rs2)" for n
    by (simp add: summary_of_def summarize_def Let_def flip: p(3) q(3))
  ultimately show ?thesis using fin' p(2) q(2)
    by (intro conjI exI [of _ ?f] exI [of _ "rs1 @ rs2"]) auto
qed

end

context reliable_executor
begin

lemma parallel_strategy_returns:
  assumes "ready s" and "0 < arg_parallel a" and "distinct (failed_tests s)" and "[] \<notin> set (failed_tests s)"
    and "scheduler_ok sched"
  shows "\<exists>par s1. execute_parallel_retries exec sched a s = (Inr par, s1) \<and> ready s1 \<and>
    (\<forall>n\<in>set (failed_tests s). \<not> dict_has (test_summaries s) n \<longrightarrow> attempts_full (parallel_left a s + 1) (attempts_of par n))"
proof (cases "parallel_left a s > 0 \<and> filter (\<lambda>n. \<not> already_passed s n) (failed_tests s) \<noteq> []")
  case False
  then have "execute_parallel_retries exec sched a s = (Inr [], s)"
    by (auto simp: execute_parallel_retries_def parallel_left_def Let_def split: if_splits)
  moreover have "attempts_full (parallel_left a s + 1) []"
    if n: "n \<in> set (failed_tests s)" "\<not> dict_has (test_summaries s) n" for n
  proof -
    have "filter (\<lambda>n. \<not> already_passed s n) (failed_tests s) \<noteq> []"
      using n not_has_not_passed by (auto simp: filter_empty_conv)
    with False have "parallel_left a s = 0" by (auto simp: parallel_left_def split: if_splits)
    then show ?thesis by (simp add: attempts_full_start)
  qed
  ultimately show ?thesis using assms(1) by auto
next
  case True
  let ?ts = "filter (\<lambda>n. \<not> already_passed s n) (failed_tests s)"
  have d: "distinct ?ts" "[] \<notin> set ?ts" using assms(3,4) by simp_all
  have "execute_parallel_retries exec sched a s =
      parallel_attempts exec sched a ?ts (parallel_left a s) (arg_attempts_serial a > 0) [1..parallel_left a s]
        (no_attempts ?ts) s"
    using True by (simp add: execute_parallel_retries_def parallel_left_def retry_tests_in_parallel_def Let_def split: if_splits)
  moreover obtain d' s' where
    "parallel_attempts exec sched a ?ts (parallel_left a s) (arg_attempts_serial a > 0) [1..parallel_left a s]
        (no_attempts ?ts) s = (Inr d', s')" "ready s'"
    "\<forall>n\<in>set ?ts. attempts_full (max 1 (parallel_left a s + 1)) (attempts_of d' n)"
    using attempts_all [OF assms(1,2) order.refl d assms(5), of "no_attempts ?ts" "parallel_left a s"
        "arg_attempts_serial a > 0" "parallel_left a s"] by (auto simp: attempts_full_start)
  moreover have "max 1 (parallel_left a s + 1) = parallel_left a s + 1" using True by simp
  ultimately show ?thesis using not_has_not_passed by auto
qed

lemma serial_tests_return: "ready s \<Longrightarrow> \<exists>ser s'. serial_tests exec a ns d s = (Inr ser, s') \<and> ready s'"
proof (induction ns arbitrary: d s)
  case (Cons n ns)
  let ?m = "arg_attempts_serial a - serial_done s n"
  show ?case
  proof (cases "0 < ?m")
    case True
    from serial_run_returns [OF Cons.prems, of n ?m] obtain rs s1 where
      "retry_test_serially exec a n ?m s = (Inr rs, s1)" "ready s1" by blast
    with True Cons.IH [of s1 "dict_set n rs d"] show ?thesis
      by (auto simp: serial_done_def Let_def and_then_def)
  next
    case False
    with Cons.IH [OF Cons.prems, of d] show ?thesis by (simp add: serial_done_def Let_def)
  qed
qed simp

lemma round_returns: "ready s \<Longrightarrow> \<exists>d' s'. parallel_round exec sk k ns d s = (Inr d', s') \<and> ready s'"
proof (induction ns arbitrary: d s)
  case (Cons n ns)
  from exec_returns [OF Cons.prems, of "''parallel''" n sk k] obtain r s1 where
    "exec n sk k ''parallel'' s = (Inr r, s1)" "ready s1" by auto
  with Cons.IH [of "append_result r s1" "add_attempt n r d"] show ?case by (simp add: and_then_def guarded_Inr)
qed simp

lemma attempts_return:
  assumes "ready s" and "0 < arg_parallel a"
  shows "\<exists>d' s'. parallel_attempts exec sched a ts mx sf ks d s = (Inr d', s') \<and> ready s'"
  using assms(1)
proof (induction ks arbitrary: d s)
  case (Cons k ks)
  let ?todo = "tests_to_retry ts d"
  show ?case
  proof (cases "?todo = []")
    case True
    with Cons.prems show ?thesis by simp
  next
    case False
    from round_returns [OF Cons.prems, of "parallel_skip_delete a sf k mx" k "sched k ?todo" d] obtain d1 s1 where
      "parallel_round exec (parallel_skip_delete a sf k mx) k (sched k ?todo) d s = (Inr d1, s1)" "ready s1" by blast
    moreover have "\<not> min (int (length ?todo)) (arg_parallel a) \<le> 0" using False assms(2) by (simp add: min_le_iff_disj)
    ultimately show ?thesis using Cons.IH [of "s1\<lparr>parallel_attempts_done := k\<rparr>" d1] False
      by (simp add: Let_def and_then_def)
  qed
qed simp

lemma process_all_returns: "ready s \<Longrightarrow> \<exists>s'. for_each (process_test_result a' par ser) ns s = (Inr (), s') \<and> ready s'"
proof (induction ns arbitrary: s)
  case (Cons n ns)
  have "\<exists>s1. process_test_result a' par ser n s = (Inr (), s1) \<and> ready s1"
    using Cons.prems ready_cong [of "s\<lparr>test_summaries := t\<rparr>" s for t]
    by (auto simp: process_test_result_def create_test_summary_def disk_def)
  with Cons.IH show ?case by (auto simp: and_then_def)
qed simp

text \<open>On a machine that is ready the retries end, whatever the tests and the order of their results.\<close>

lemma strategy_returns:
  assumes "ready s" and "0 < arg_parallel a"
  shows "\<exists>s'. execute_test_retries exec sched a s = (Inr True, s') \<and> ready s'"
proof -
  have "\<exists>par s1. execute_parallel_retries exec sched a s = (Inr par, s1) \<and> ready s1"
    using assms attempts_return
    by (simp add: execute_parallel_retries_def retry_tests_in_parallel_def Let_def)
  then obtain par s1 where par: "execute_parallel_retries exec sched a s = (Inr par, s1)" "ready s1" by blast
  obtain ser s2 where ser: "execute_serial_retries exec a par s1 = (Inr ser, s2)" "ready s2"
    using serial_tests_return [OF par(2), of "tests_still_failing s1 par" "[]"] par(2)
    by (cases "0 < arg_attempts_serial a \<and> tests_still_failing s1 par \<noteq> []") (auto simp: execute_serial_retries_def)
  from process_all_returns [OF ser(2), of a par ser "failed_tests s2"] par(1) ser(1) show ?thesis
    by (auto simp: execute_test_retries_def process_all_test_results_def and_then_def)
qed

end

text \<open>The summary of one failed test.\<close>

lemma summary_okD:
  assumes "summary_ok whole a mp ms l n t"
  shows "ts_test_name t = n" "\<not> success (initial_result t)" "total_attempts t = 1 + int (length (retry_results t))"
    "final_status t = (if any_success (retry_results t) then ''flaky'' else ''failed'')"
  using arg_cong [OF conjunct2 [OF assms [unfolded summary_ok_def]], of ts_test_name]
    arg_cong [OF conjunct2 [OF assms [unfolded summary_ok_def]], of initial_result]
    arg_cong [OF conjunct2 [OF assms [unfolded summary_ok_def]], of total_attempts]
    arg_cong [OF conjunct2 [OF assms [unfolded summary_ok_def]], of final_status]
  by (simp_all add: summarize_def Let_def initial_failure_def)

lemma left_nonneg: "0 \<le> parallel_left a s" "0 \<le> serial_left a s n"
  by (simp_all add: parallel_left_def serial_left_def)

context retry_executor
begin

lemma strategy_summaries:
  assumes "execute_test_retries exec sched a s = (Inr ok, s')"
    and "distinct (failed_tests s)" and "[] \<notin> set (failed_tests s)" and "scheduler_ok sched"
    and "whole \<longrightarrow> parallel_whole exec sched a s"
  obtains rs where "ok" "results s' = results s @ rs"
    "dict_keys (test_summaries s') = dict_keys (test_summaries s) @ filter (\<lambda>n. \<not> dict_has (test_summaries s) n) (failed_tests s)"
    "\<And>n. n \<in> set (failed_tests s) \<Longrightarrow> \<not> dict_has (test_summaries s) n \<Longrightarrow>
      \<exists>t. dict_get (test_summaries s') n = Some t \<and> retry_results t = filter (\<lambda>r. tr_test_name r = n) rs \<and>
        summary_ok whole a (parallel_left a s) (serial_left a s n) (initial_result_log s) n t"
proof -
  from strategy_spec [OF assms] obtain f rs where ok: "ok" "results s' = results s @ rs"
    "test_summaries s' = test_summaries s @ map (\<lambda>n. (n, f n)) (filter (\<lambda>n. \<not> dict_has (test_summaries s) n) (failed_tests s))"
    "\<forall>n\<in>set (failed_tests s). \<not> dict_has (test_summaries s) n \<longrightarrow>
       summary_ok whole a (parallel_left a s) (serial_left a s n) (initial_result_log s) n (f n) \<and>
       retry_results (f n) = filter (\<lambda>r. tr_test_name r = n) rs" by (elim conjE exE) (rule that)
  have "dict_get (test_summaries s') n = Some (f n)"
    if "n \<in> set (failed_tests s)" "\<not> dict_has (test_summaries s) n" for n
    using that by (auto simp: ok(3) map_add_def map_of_map_restrict restrict_map_def split: option.split)
  moreover have "dict_keys (test_summaries s') = dict_keys (test_summaries s) @
      filter (\<lambda>n. \<not> dict_has (test_summaries s) n) (failed_tests s)" by (simp add: ok(3) comp_def)
  ultimately show ?thesis using ok(1,2,4) by (intro that [of rs]) blast+
qed

end

section \<open>Reports leave the run alone\<close>

lemma fr_report:
  assumes "\<And>s x. f (s\<lparr>ext := x\<rparr>) = f s" and "\<And>s fs. f (s\<lparr>files := fs\<rparr>) = f s"
  shows "frames f (generate_and_save_final_report os a begun)"
  unfolding generate_and_save_final_report_def generate_comprehensive_report_def save_detailed_json_report_def
  by (intro frame_intros frames_on_ext frames_write_file)
     (simp_all add: assms frames_def safe_save_eval and_then_def split: option.split sum.split)

lemma report_fields: "generate_and_save_final_report os a begun s = (r, s') \<Longrightarrow> runner_fields s' = runner_fields s"
  by (rule framesD [OF fr_report]) (simp_all add: runner_fields_def)

lemma report_returns:
  assumes "can_write s (state_file a)"
  shows "\<exists>s'. generate_and_save_final_report os a begun s = (Inr (), s')"
proof -
  have d: "dirs s (out_path a)" using assms
    by (simp add: can_write_def state_file_def path_div_def path_parts_def path_parent_def)
  have e: "path_parent (path_div (out_path a) ''detailed_report.json'') = out_path a"
    by (simp add: path_div_def path_parts_def path_parent_def)
  obtain e x where now: "os_now os (ext s) = (e, x)" by fastforce
  obtain report where "report_lines a begun e (s\<lparr>ext := x\<rparr>) = Inr report" using report_lines_returns by metis
  with now obtain report' where g: "generate_comprehensive_report os a begun s = (Inr report', s\<lparr>ext := x\<rparr>)"
    by (simp add: generate_comprehensive_report_def and_then_def on_ext_def)
  let ?p = "path_div (out_path a) ''test_report.txt''"
  have "returns (catch_all (write_file ?p (Text report')) ()) (s\<lparr>ext := x\<rparr>)"
    by (rule returns_catch_all) (auto simp: write_file_eval split: if_splits option.splits)
  then obtain s2 where w: "catch_all (write_file ?p (Text report')) () (s\<lparr>ext := x\<rparr>) = (Inr (), s2)"
    by (auto elim: returnsE)
  have w2: "dirs s2 = dirs s" using framesD [OF frames_catch_all [OF frames_world_write(1)] w] by simp
  show ?thesis using d e g w w2
    by (auto simp: generate_and_save_final_report_def save_detailed_json_report_def and_then_def on_ext_def
        safe_save_eval split: prod.splits option.splits)
qed

section \<open>The modes of a run\<close>

lemma suite_log:
  assumes "run_single_test_suite os a None sk att ty s = (Inr r, s')"
  obtains p header env x x' where
    "os_run os (the_command os a None sk att ty (ext s)) env None x = (Inr p, x')" "success r = (returncode p = 0)"
    "files s' (path_of (the (log_file r))) = Some (Text (header @ out p))"
proof (rule run_single_elim [OF assms])
  fix p env x x' lg content t0 and du :: rat
  assume "os_run os (the_command os a None sk att ty (ext s)) env None x = (Inr p, x')"
    "content = log_header (the_command os a None sk att ty (ext s)) (os_getcwd os x) @ out p"
    "r = result_from None att ty (fst (os_time os x') - t0) lg (unreadable s lg) p content" "path_ok lg"
    "\<not> truthy None \<longrightarrow> files s' lg = Some (Text content)"
  then show ?thesis by (intro that) (simp_all add: result_from_def path_of_path_str)
qed

lemma parse_log_returns:
  assumes "files s p = Some (Text t)"
  shows "parse_failed_tests_from_log p s = (Inr (if unreadable s p then [] else failed_tests_in (universal_newlines t)), s)"
  using assms by (simp add: parse_failed_tests_from_log_def catch_all_def handle_def and_then_def read_text_def open_read_def)

lemma initialize_fresh_returns:
  assumes "machine_ready os a s" and "failed_tests s = []" and "\<not> truthy (arg_rerun_failed a)"
  shows "\<exists>go s'. initialize_run_mode os a s = (Inr go, s') \<and> (go \<longrightarrow> machine_ready os a s')"
proof -
  from assms(1) have m: "machine_ok os" "output_ok a s" by (simp_all add: machine_ready_def)
  have "returns (run_single_test_suite os a None False 1 ''initial'') s"
    by (rule run_single_returns [OF m]) simp
  then obtain r s1 where run: "run_single_test_suite os a None False 1 ''initial'' s = (Inr r, s1)" by (rule returnsE)
  have o1: "output_ok a s1" using run_single_output_ok [OF run] m(2) by simp
  then have "can_write s1 (state_file a)" by (simp add: output_ok_def)
  from report_returns [OF this, of os] have rep: "\<exists>s2. generate_and_save_final_report os a begun s1 = (Inr (), s2)" for begun
    by blast
  obtain t where log: "files s1 (path_of (the (log_file r))) = Some (Text t)"
    by (rule suite_log [OF run])
  have o2: "output_ok a (s1\<lparr>failed_tests := f, initial_result_log := l\<rparr>)" for f l
    using o1 by (subst output_ok_cong [of _ s1]) (simp_all add: disk_def)
  show ?thesis using assms(2,3) m(1) run rep [of "start_time s1"] o2
    by (cases "success r") (auto simp: initialize_run_mode_def run_initial_test_suite_def and_then_def
        parse_log_returns [OF log] machine_ready_def)
qed

text \<open>What \<open>--rerun-failed\<close> needs of its state file, if the mode is used: the file may be missing or
  damaged, but a document in it is empty or an object, whose failed tests, if any are listed, are
  strings.\<close>

definition rerun_ok :: "args \<Rightarrow> ('x, 'z) runner_scheme \<Rightarrow> bool" where
  "rerun_ok a s \<longleftrightarrow> failed_tests s = [] \<longrightarrow> truthy (arg_rerun_failed a) \<longrightarrow>
     (let data = loaded s (path_of (the (arg_rerun_failed a))) in
      json_truthy data \<longrightarrow> (\<exists>names. json_get ''failed_tests'' (JArr []) data = Inr (list_json JStr names)))"

lemma rerun_ok_None: "arg_rerun_failed a = None \<Longrightarrow> rerun_ok a s"
  by (simp add: rerun_ok_def)

lemma load_failed_tests_eval:
  "load_failed_tests_from_state found (Some p) s =
     (let data = loaded s p in
      if \<not> json_truthy data then Inr []
      else res_bind (json_get ''failed_tests'' (JArr []) data) (\<lambda>failed.
           res_bind (json_len failed) (\<lambda>_. un_list un_str failed)), s)"
  by (simp add: load_failed_tests_from_state_def and_then_def safe_load_eval Let_def)

lemma rerun_returns:
  assumes "rerun_ok a s" and "failed_tests s = []" and "truthy (arg_rerun_failed a)"
  obtains names where "load_failed_tests_for_rerun a s = (if names = [] then (Inr False, s)
    else (Inr True, s\<lparr>failed_tests := names\<rparr>))"
proof -
  let ?p = "path_of (the (arg_rerun_failed a))"
  have "\<exists>names. load_failed_tests_from_state [] (Some ?p) s = (Inr names, s)"
  proof (cases "json_truthy (loaded s ?p)")
    case False
    then show ?thesis by (simp add: load_failed_tests_eval Let_def)
  next
    case True
    with assms obtain names where names: "json_get ''failed_tests'' (JArr []) (loaded s ?p) = Inr (list_json JStr names)"
      by (auto simp: rerun_ok_def Let_def)
    have "json_len (list_json JStr names) = Inr (length names)" by (simp add: list_json_def)
    then show ?thesis using True by (simp add: load_failed_tests_eval Let_def names str_codec.of_to_list)
  qed
  then obtain names where "load_failed_tests_from_state [] (Some ?p) s = (Inr names, s)" ..
  then show ?thesis by (intro that [of names]) (simp add: load_failed_tests_for_rerun_def and_then_def)
qed

lemma initialize_returns:
  assumes "machine_ready os a s" and "rerun_ok a s"
  shows "\<exists>go s'. initialize_run_mode os a s = (Inr go, s') \<and> (go \<longrightarrow> machine_ready os a s')"
proof -
  consider "failed_tests s \<noteq> []" | (rerun) "failed_tests s = []" "truthy (arg_rerun_failed a)"
    | (fresh) "failed_tests s = []" "\<not> truthy (arg_rerun_failed a)" by blast
  then show ?thesis
  proof cases
    case 1
    with assms(1) show ?thesis by (auto simp: initialize_run_mode_def)
  next
    case rerun
    obtain names where "load_failed_tests_for_rerun a s = (if names = [] then (Inr False, s)
      else (Inr True, s\<lparr>failed_tests := names\<rparr>))"
      by (rule rerun_returns [OF assms(2) rerun])
    moreover have "machine_ready os a (s\<lparr>failed_tests := names\<rparr>)"
      using assms(1) by (subst machine_ready_cong [of _ s]) (simp_all add: disk_def)
    ultimately show ?thesis using rerun
      by (intro exI [of _ "names \<noteq> []"] exI [of _ "if names = [] then s else s\<lparr>failed_tests := names\<rparr>"])
         (simp add: initialize_run_mode_def)
  next
    case fresh
    show ?thesis by (rule initialize_fresh_returns [OF assms(1) fresh])
  qed
qed

lemma strategy_from_run:
  assumes "run os sched a s = (Inr exit_code, s')" and "initialize_run_mode os a s = (Inr go, s1)"
  shows "if go then \<exists>ok s2. execute_test_retries (executor_of os a) sched a s1 = (Inr ok, s2) \<and>
    (ok \<longrightarrow> runner_fields s' = runner_fields s2 \<and> exit_code = (if with_status ''failed'' s' = [] then 0 else 1))
    else exit_code = 0 \<and> s' = s1"
  using assms
  by (auto simp: run_def and_then_Inr finalize_and_report_def elim!: and_then_resultE dest!: report_fields split: if_splits)

text \<open>A runner that resumes with two failed tests, on the scripted machine.\<close>

definition sample_resumed :: "(rat \<times> (rat \<times> proc) list) runner" where
  "sample_resumed = (sample_runner [])\<lparr>failed_tests := [''smoke'', ''resources'']\<rparr>"

lemma sample_resumed_ready: "machine_ready sample_os sample_args sample_resumed"
  using sample_machine_ready by (subst machine_ready_cong [of _ "sample_runner []"]) (simp_all add: sample_resumed_def disk_def)

lemma sample_resumed_simps [simp]:
  "failed_tests sample_resumed = [''smoke'', ''resources'']" "test_summaries sample_resumed = []"
  "parallel_attempts_done sample_resumed = 0" "serial_attempts_done sample_resumed = []" "results sample_resumed = []"
  by (simp_all add: sample_resumed_def sample_runner_def)

lemma sample_args_simps [simp]:
  "arg_parallel sample_args = 2" "arg_attempts_parallel sample_args = 1" "arg_attempts_serial sample_args = 2"
  "arg_rerun_failed sample_args = None" "arg_resume sample_args = None"
  by (simp_all add: sample_args_def)

lemma scheduler_rev: "scheduler_ok (\<lambda>_. rev)"
  by (simp add: scheduler_ok_def)

lemma sample_retries_return:
  obtains s' where "execute_test_retries (executor_of sample_os sample_args) (\<lambda>_. rev) sample_args sample_resumed = (Inr True, s')"
  using auto_machine.strategy_returns [OF sample_resumed_ready, of "\<lambda>_. rev"] by auto

lemma run_returns:
  assumes "machine_ready os a s" and "0 < arg_parallel a" and "rerun_ok a s"
  shows "\<exists>exit_code s'. run os sched a s = (Inr exit_code, s') \<and> exit_code \<in> {0, 1}"
proof -
  obtain go s1 where init: "initialize_run_mode os a s = (Inr go, s1)" "go \<longrightarrow> machine_ready os a s1"
    using initialize_returns [OF assms(1,3)] by blast
  show ?thesis
  proof (cases go)
    case True
    then obtain s2 where retries: "execute_test_retries (executor_of os a) sched a s1 = (Inr True, s2)" "machine_ready os a s2"
      using auto_machine.strategy_returns [of os a s1 sched] init(2) assms(2) by blast
    obtain s3 where "generate_and_save_final_report os a (start_time s2) s2 = (Inr (), s3)"
      using report_returns [OF machine_ready_saves [OF retries(2)]] by blast
    with init True retries show ?thesis by (simp add: run_def and_then_def finalize_and_report_def)
  qed (use init in \<open>simp add: run_def and_then_def\<close>)
qed

section \<open>Properties\<close>

text \<open>C1: Retrying is exhaustive: on a machine that is ready, the retries of a run return; and a failed test
  that gets the status \<open>failed\<close> has used every parallel and every serial attempt that the options
  (and, in a resumed run, the counters) left to it, in order, and failed in each of them.\<close>

theorem retries_exhaustive:
  assumes "machine_ready os a s" and "0 < arg_parallel a" and "scheduler_ok sched"
    and "distinct (failed_tests s)" and "[] \<notin> set (failed_tests s)"
  shows "\<exists>s'. execute_test_retries (executor_of os a) sched a s = (Inr True, s') \<and>
    (\<forall>n\<in>set (failed_tests s). \<not> dict_has (test_summaries s) n \<longrightarrow>
      (\<exists>t. dict_get (test_summaries s') n = Some t \<and> (final_status t = ''failed'' \<longrightarrow>
         map attempt (retry_results t) = [1..parallel_left a s] @ [1..serial_left a s n] \<and>
         (\<forall>r\<in>set (retry_results t). \<not> success r))))"
proof -
  obtain s' where run: "execute_test_retries (executor_of os a) sched a s = (Inr True, s')"
    using auto_machine.strategy_returns [OF assms(1,2)] by blast
  have full: "True \<longrightarrow> parallel_whole (executor_of os a) sched a s"
    using auto_machine.parallel_strategy_returns [OF assms(1,2,4,5,3)] by (auto simp: parallel_whole_def)
  have "final_status t = ''failed'' \<longrightarrow>
      map attempt (retry_results t) = [1..parallel_left a s] @ [1..serial_left a s n] \<and>
      (\<forall>r\<in>set (retry_results t). \<not> success r)"
    if "summary_ok True a (parallel_left a s) (serial_left a s n) (initial_result_log s) n t" for n t
    using retries_okD(4) [OF conjunct1 [OF that [unfolded summary_ok_def]] left_nonneg TrueI] summary_okD(4) [OF that]
    by (auto simp: any_success_def list_ex_iff)
  then show ?thesis
    using run by - (rule auto_exec.strategy_summaries [OF run assms(4,5,3) full], blast)
qed

theorem retries_exhaustive_witness:
  "\<exists>s'. execute_test_retries (executor_of sample_os sample_args) (\<lambda>_. rev) sample_args sample_resumed = (Inr True, s') \<and>
    (\<forall>n\<in>set (failed_tests sample_resumed). \<not> dict_has (test_summaries sample_resumed) n \<longrightarrow>
      (\<exists>t. dict_get (test_summaries s') n = Some t \<and> (final_status t = ''failed'' \<longrightarrow>
         map attempt (retry_results t) = [1..parallel_left sample_args sample_resumed] @ [1..serial_left sample_args sample_resumed n] \<and>
         (\<forall>r\<in>set (retry_results t). \<not> success r))))"
  by (rule retries_exhaustive [OF sample_resumed_ready _ scheduler_rev]) simp_all

text \<open>C2: What a summary says is what happened. When the retries of a run return, every failed test
  without a summary has got one: it shows the initial failure and exactly the results recorded for
  this test during the retries, at most as many as attempts were left; nothing follows a success; the
  status is \<open>flaky\<close> if the last retry was a success and \<open>failed\<close> otherwise; and the summaries that were
  there are kept.\<close>

theorem retry_summaries:
  assumes "execute_test_retries (executor_of os a) sched a s = (Inr ok, s')" and "scheduler_ok sched"
    and "distinct (failed_tests s)" and "[] \<notin> set (failed_tests s)"
  shows "\<exists>rs. results s' = results s @ rs \<and>
    dict_keys (test_summaries s') =
      dict_keys (test_summaries s) @ filter (\<lambda>n. \<not> dict_has (test_summaries s) n) (failed_tests s) \<and>
    (\<forall>n\<in>set (failed_tests s). \<not> dict_has (test_summaries s) n \<longrightarrow>
      (\<exists>t. dict_get (test_summaries s') n = Some t \<and> ts_test_name t = n \<and> \<not> success (initial_result t) \<and>
         retry_results t = filter (\<lambda>r. tr_test_name r = n) rs \<and>
         total_attempts t = 1 + int (length (retry_results t)) \<and>
         int (length (retry_results t)) \<le> parallel_left a s + serial_left a s n \<and>
         (\<forall>r\<in>set (butlast (retry_results t)). \<not> success r) \<and>
         final_status t = (if retry_results t \<noteq> [] \<and> success (last (retry_results t)) then ''flaky'' else ''failed'')))"
proof -
  have "ts_test_name t = n \<and> \<not> success (initial_result t) \<and> total_attempts t = 1 + int (length (retry_results t)) \<and>
      int (length (retry_results t)) \<le> parallel_left a s + serial_left a s n \<and>
      (\<forall>r\<in>set (butlast (retry_results t)). \<not> success r) \<and>
      final_status t = (if retry_results t \<noteq> [] \<and> success (last (retry_results t)) then ''flaky'' else ''failed'')"
    if "summary_ok False a (parallel_left a s) (serial_left a s n) (initial_result_log s) n t" for n t
    using summary_okD [OF that] retries_okD(1,2) [OF conjunct1 [OF that [unfolded summary_ok_def]] left_nonneg]
      last_success [of "retry_results t"] by (auto simp: any_success_def list_ex_iff)
  then show ?thesis
    by - (rule auto_exec.strategy_summaries [OF assms(1,3,4,2), of False], simp, blast)
qed

theorem retry_summaries_witness:
  "\<exists>s' rs. execute_test_retries (executor_of sample_os sample_args) (\<lambda>_. rev) sample_args sample_resumed = (Inr True, s') \<and>
    results s' = rs \<and> dict_keys (test_summaries s') = [''smoke'', ''resources'']"
proof -
  obtain s' where run:
    "execute_test_retries (executor_of sample_os sample_args) (\<lambda>_. rev) sample_args sample_resumed = (Inr True, s')"
    by (rule sample_retries_return)
  from retry_summaries [OF run scheduler_rev] run show ?thesis by auto
qed

text \<open>C3: The exit code of a run that starts without summaries: it is 1 exactly when the run went on to the
  retries and some failed test has a summary whose retries contain no success, and 0 otherwise; after
  the retries the summaries are those of the failed tests, in their order.\<close>

theorem run_exit_code:
  assumes "run os sched a s = (Inr exit_code, s')" and "initialize_run_mode os a s = (Inr go, s1)"
    and "scheduler_ok sched" and "distinct (failed_tests s1)" and "[] \<notin> set (failed_tests s1)"
    and "test_summaries s1 = []"
  shows "(go \<longrightarrow> dict_keys (test_summaries s') = failed_tests s1) \<and>
    exit_code = (if go \<and> (\<exists>t\<in>set (dict_values (test_summaries s')). \<forall>r\<in>set (retry_results t). \<not> success r) then 1 else 0)"
proof (cases go)
  case False
  then show ?thesis using strategy_from_run [OF assms(1,2)] by simp
next
  case True
  then obtain ok s2 where retries: "execute_test_retries (executor_of os a) sched a s1 = (Inr ok, s2)"
    and fin: "ok \<longrightarrow> runner_fields s' = runner_fields s2 \<and> exit_code = (if with_status ''failed'' s' = [] then 0 else 1)"
    using strategy_from_run [OF assms(1,2)] by auto
  show ?thesis
  proof (rule auto_exec.strategy_summaries [OF retries assms(4,5,3), of False])
    fix rs
    assume ok: "ok" and keys: "dict_keys (test_summaries s2) = dict_keys (test_summaries s1) @
        filter (\<lambda>n. \<not> dict_has (test_summaries s1) n) (failed_tests s1)"
      and sums: "\<And>n. n \<in> set (failed_tests s1) \<Longrightarrow> \<not> dict_has (test_summaries s1) n \<Longrightarrow>
      \<exists>t. dict_get (test_summaries s2) n = Some t \<and> retry_results t = filter (\<lambda>r. tr_test_name r = n) rs \<and>
        summary_ok False a (parallel_left a s1) (serial_left a s1 n) (initial_result_log s1) n t"
    from fin ok have s': "test_summaries s' = test_summaries s2" and exit_code: "exit_code = (if with_status ''failed'' s' = [] then 0 else 1)"
      by (simp_all add: runner_fields_def)
    have k: "dict_keys (test_summaries s2) = failed_tests s1" using keys assms(6) by simp
    have "final_status t = (if any_success (retry_results t) then ''flaky'' else ''failed'')"
      if "t \<in> set (dict_values (test_summaries s2))" for t
    proof -
      from that obtain n where n: "(n, t) \<in> set (test_summaries s2)" by auto
      then have "n \<in> set (failed_tests s1)" unfolding k [symmetric] by force
      moreover have "dict_get (test_summaries s2) n = Some t" using n k assms(4) by simp
      ultimately show ?thesis using sums [of n] assms(6) summary_okD(4) by fastforce
    qed
    then have "with_status ''failed'' s' = [] \<longleftrightarrow> (\<forall>t\<in>set (dict_values (test_summaries s')). any_success (retry_results t))"
      unfolding s' with_status_def by (auto simp: filter_empty_conv simp del: set_map)
    then show ?thesis using True exit_code k s' by (auto simp: any_success_def list_ex_iff simp del: set_map)
  qed simp
qed

theorem run_exit_code_witness:
  "\<exists>exit_code s'. run sample_os (\<lambda>_. rev) sample_args sample_resumed = (Inr exit_code, s') \<and>
    dict_keys (test_summaries s') = [''smoke'', ''resources''] \<and>
    exit_code = (if \<exists>t\<in>set (dict_values (test_summaries s')). \<forall>r\<in>set (retry_results t). \<not> success r then 1 else 0)"
proof -
  obtain exit_code s' where run: "run sample_os (\<lambda>_. rev) sample_args sample_resumed = (Inr exit_code, s')"
    using run_returns [OF sample_resumed_ready _ rerun_ok_None, of "\<lambda>_. rev"] by auto
  have init: "initialize_run_mode sample_os sample_args sample_resumed = (Inr True, sample_resumed)"
    by (simp add: initialize_run_mode_def)
  from run_exit_code [OF run init scheduler_rev] run show ?thesis by auto
qed

text \<open>C4: A run never raises on a machine that is ready, with at least one parallel worker: fresh, resumed or
  a rerun of the failed tests of a state file, it returns the exit code 0 or 1. A rerun needs a state
  file that is missing, damaged or empty, or else an object whose failed tests are strings (the next
  property tells what other documents do).\<close>

theorem run_never_raises:
  assumes "machine_ready os a s" and "0 < arg_parallel a"
    and "failed_tests s = [] \<longrightarrow> truthy (arg_rerun_failed a) \<longrightarrow>
      (let data = loaded s (path_of (the (arg_rerun_failed a))) in
       json_truthy data \<longrightarrow> (\<exists>names. json_get ''failed_tests'' (JArr []) data = Inr (list_json JStr names)))"
  shows "\<exists>exit_code s'. run os sched a s = (Inr exit_code, s') \<and> exit_code \<in> {0, 1}"
  by (rule run_returns [OF assms(1,2)]) (use assms(3) in \<open>simp only: rerun_ok_def\<close>)

text \<open>A runner with a state file that lists one failed test.\<close>

definition sample_rerun_args :: args where
  "sample_rerun_args = sample_args\<lparr>arg_rerun_failed := Some ''old.json''\<rparr>"

definition sample_rerun :: "json \<Rightarrow> (rat \<times> (rat \<times> proc) list) runner" where
  "sample_rerun data = (sample_runner [])\<lparr>files := [path_of ''old.json'' \<mapsto> Json data]\<rparr>"

lemma sample_rerun_ready: "machine_ready sample_os sample_rerun_args (sample_rerun data)"
proof -
  have "machine_ready sample_os sample_args (sample_rerun data)"
    using sample_machine_ready by (subst machine_ready_cong [of _ "sample_runner []"]) (simp_all add: sample_rerun_def)
  then show ?thesis
    by (simp add: machine_ready_def output_ok_def sample_rerun_args_def out_path_def runtime_file_def state_file_def)
qed

lemma sample_rerun_simps [simp]:
  "failed_tests (sample_rerun data) = []" "loaded (sample_rerun data) (path_of ''old.json'') = data"
  "arg_rerun_failed sample_rerun_args = Some ''old.json''" "arg_parallel sample_rerun_args = 2"
  by (simp_all add: sample_rerun_def sample_rerun_args_def loaded_def sample_runner_def sample_world_def)

theorem run_never_raises_witness:
  "\<exists>exit_code s'. run sample_os (\<lambda>_ ts. ts) sample_rerun_args (sample_rerun (JObj [(''failed_tests'', JArr [JStr ''smoke''])])) =
     (Inr exit_code, s') \<and> exit_code \<in> {0, 1}"
proof (rule run_never_raises [OF sample_rerun_ready])
  have "JArr [JStr ''smoke''] = list_json JStr [''smoke'']" by (simp add: list_json_def)
  then show "failed_tests (sample_rerun (JObj [(''failed_tests'', JArr [JStr ''smoke''])])) = [] \<longrightarrow>
      truthy (arg_rerun_failed sample_rerun_args) \<longrightarrow>
      (let data = loaded (sample_rerun (JObj [(''failed_tests'', JArr [JStr ''smoke''])])) (path_of (the (arg_rerun_failed sample_rerun_args))) in
       json_truthy data \<longrightarrow> (\<exists>names. json_get ''failed_tests'' (JArr []) data = Inr (list_json JStr names)))"
    by (auto simp: Let_def)
qed simp



text \<open>C18: An infrastructure failure looks like a success: when the initial run of the whole suite fails but
  its log announces no failed test (the script says that tests could not run), the exit code is 0, and
  no report is written.\<close>

theorem infrastructure_failure_exits_0:
  assumes "failed_tests s = []" and "\<not> truthy (arg_rerun_failed a)"
    and "run_single_test_suite os a None False 1 ''initial'' s = (Inr r, s1)" and "\<not> success r"
    and "fst (parse_failed_tests_from_log (path_of (the (log_file r))) s1) = Inr []"
  shows "run os sched a s = (Inr 0, s1)"
proof -
  obtain t where "files s1 (path_of (the (log_file r))) = Some (Text t)" by (rule suite_log [OF assms(3)])
  from parse_log_returns [OF this] assms(5) have
    "parse_failed_tests_from_log (path_of (the (log_file r))) s1 = (Inr [], s1)" by simp
  then show ?thesis using assms(1-4)
    by (simp add: run_def initialize_run_mode_def run_initial_test_suite_def and_then_def)
qed

theorem infrastructure_failure_exits_0_witness:
  "\<exists>r s1. run_single_test_suite sample_os sample_args None False 1 ''initial'' (sample_runner []) = (Inr r, s1) \<and>
    \<not> success r \<and> run sample_os (\<lambda>_ ts. ts) sample_args (sample_runner []) = (Inr 0, s1)"
proof -
  have "case run_single_test_suite sample_os sample_args None False 1 ''initial'' (sample_runner []) of
      (Inr r, s1) \<Rightarrow> \<not> success r \<and> fst (parse_failed_tests_from_log (path_of (the (log_file r))) s1) = Inr []
    | _ \<Rightarrow> False" by code_simp
  then obtain r s1 where
    run: "run_single_test_suite sample_os sample_args None False 1 ''initial'' (sample_runner []) = (Inr r, s1)"
      "\<not> success r" "fst (parse_failed_tests_from_log (path_of (the (log_file r))) s1) = Inr []"
    by (auto split: prod.splits sum.splits)
  have "failed_tests (sample_runner []) = []" "\<not> truthy (arg_rerun_failed sample_args)"
    by (simp_all add: sample_runner_def)
  from infrastructure_failure_exits_0 [OF this run] run show ?thesis by blast
qed

text \<open>C20: Without parallel workers (\<open>--parallel 0\<close>) the parallel retries start nothing: the thread pool
  refuses and the retries of the run raise \<open>ValueError\<close>, for every executor, as soon as a parallel attempt
  is left and a test needs it.\<close>

theorem no_workers_raises:
  assumes "arg_parallel a \<le> 0" and "0 < parallel_left a s" and "n \<in> set (failed_tests s)" and "\<not> already_passed s n"
  shows "execute_test_retries exec sched a s = (Inl (ValueError ''max_workers must be greater than 0''), s)"
proof -
  let ?ts = "filter (\<lambda>n. \<not> already_passed s n) (failed_tests s)"
  have ts: "?ts \<noteq> []" using assms(3,4) by (auto simp: filter_empty_conv)
  have "tests_to_retry ?ts (no_attempts ?ts) = ?ts" by (simp add: tests_to_retry_def)
  moreover have "[1..parallel_left a s] = 1 # [2..parallel_left a s]" using assms(2) by (simp add: upto_rec1)
  moreover have "execute_parallel_retries exec sched a s =
      parallel_attempts exec sched a ?ts (parallel_left a s) (arg_attempts_serial a > 0) [1..parallel_left a s]
        (no_attempts ?ts) s"
    using ts assms(2) by (auto simp: execute_parallel_retries_def parallel_left_def retry_tests_in_parallel_def Let_def split: if_splits)
  ultimately have "execute_parallel_retries exec sched a s = (Inl (ValueError ''max_workers must be greater than 0''), s)"
    using ts assms(1) by (simp add: Let_def)
  then show ?thesis by (simp add: execute_test_retries_def and_then_def)
qed

theorem no_workers_raises_witness:
  "execute_test_retries (executor_of sample_os sample_args) (\<lambda>_ ts. ts) (sample_args\<lparr>arg_parallel := 0\<rparr>) sample_resumed =
    (Inl (ValueError ''max_workers must be greater than 0''), sample_resumed)"
  by (rule no_workers_raises [where n = "''smoke''"]) (simp_all add: parallel_left_def already_passed_def)

text \<open>C19: A resumed run forgets a success in the last serial attempt: a failed test without a summary (a
  state file saved during the retries has none) whose serial counter has reached the number of serial
  attempts gets, when no parallel attempt is left, the status \<open>failed\<close> without any retry, whatever
  results of it were restored.\<close>

theorem resume_forgets_success:
  assumes "execute_test_retries (executor_of os a) sched a s = (Inr ok, s')" and "scheduler_ok sched"
    and "distinct (failed_tests s)" and "[] \<notin> set (failed_tests s)"
    and "n \<in> set (failed_tests s)" and "\<not> dict_has (test_summaries s) n"
    and "arg_attempts_parallel a \<le> parallel_attempts_done s" and "arg_attempts_serial a \<le> serial_done s n"
  shows "\<exists>t. dict_get (test_summaries s') n = Some t \<and> final_status t = ''failed'' \<and> retry_results t = []"
proof -
  have left: "parallel_left a s = 0" "serial_left a s n = 0" using assms(7,8) by (simp_all add: parallel_left_def serial_left_def)
  have "final_status t = ''failed'' \<and> retry_results t = []"
    if "summary_ok False a (parallel_left a s) (serial_left a s n) (initial_result_log s) n t" for t
    using summary_okD(4) [OF that] retries_okD(1) [OF conjunct1 [OF that [unfolded summary_ok_def]] left_nonneg] left by simp
  then show ?thesis using assms(5,6)
    by - (rule auto_exec.strategy_summaries [OF assms(1,3,4,2), of False], simp, blast)
qed

theorem resume_forgets_success_witness:
  "let s = sample_resumed\<lparr>parallel_attempts_done := 1, serial_attempts_done := [(''smoke'', 2)],
        results := [(initial_failure ''smoke'' None)\<lparr>attempt := 2, attempt_type := ''serial'', success := True\<rparr>]\<rparr> in
   \<exists>s' t. execute_test_retries (executor_of sample_os sample_args) (\<lambda>_. rev) sample_args s = (Inr True, s') \<and>
     dict_get (test_summaries s') ''smoke'' = Some t \<and> final_status t = ''failed'' \<and> retry_results t = []"
proof -
  let ?s = "sample_resumed\<lparr>parallel_attempts_done := 1, serial_attempts_done := [(''smoke'', 2)],
        results := [(initial_failure ''smoke'' None)\<lparr>attempt := 2, attempt_type := ''serial'', success := True\<rparr>]\<rparr>"
  have "machine_ready sample_os sample_args ?s"
    using sample_resumed_ready by (subst machine_ready_cong [of _ sample_resumed]) (simp_all add: disk_def)
  from auto_machine.strategy_returns [OF this, of "\<lambda>_. rev"] obtain s' where
    run: "execute_test_retries (executor_of sample_os sample_args) (\<lambda>_. rev) sample_args ?s = (Inr True, s')" by auto
  from resume_forgets_success [OF run scheduler_rev, of "''smoke''"] run show ?thesis
    by (auto simp: serial_done_def)
qed

end
