(* ===== verification/Release_File.thy ===== *)
theory Release_File
  imports File_System
begin

text \<open>
  The context manager \<open>release_file\<close> of \<open>scripts/run-tests\<close>: the copy of \<open>tests/release.yaml\<close> with
  the versions of \<open>--operator\<close> put in and the products of \<open>--skip-operator\<close> taken out, in a temporary
  file that lives as long as the body of the \<open>with\<close> statement.
\<close>

section \<open>Patching\<close>

text \<open>\<open>line.rstrip("\n")\<close>.\<close>

definition rstrip_newlines :: "string \<Rightarrow> string" where
  "rstrip_newlines s = rev (dropWhile (\<lambda>c. c = LF) (rev s))"

text \<open>
  The replacement of \<open>re.sub\<close>, for a pattern without groups, is a template: a backslash starts an
  escape. Templates are read from left to right, before the line is looked at; what cannot be read
  raises \<open>re.error\<close>, and a group referred to by a name raises \<open>IndexError\<close>. A text without a
  backslash is put in as it is.
\<close>

datatype template_item = Literal string | Whole_match

definition is_octal :: "char \<Rightarrow> bool" where
  "is_octal c \<longleftrightarrow> 48 \<le> code c \<and> code c \<le> 55"

definition octal_value :: "string \<Rightarrow> nat" where
  "octal_value s = foldl (\<lambda>a c. 8 * a + (code c - 48)) 0 s"

definition is_ascii_letter :: "char \<Rightarrow> bool" where
  "is_ascii_letter c \<longleftrightarrow> (let n = code c in 65 \<le> n \<and> n \<le> 90 \<or> 97 \<le> n \<and> n \<le> 122)"

text \<open>\<open>str.isidentifier\<close>.\<close>

definition ident_start :: "char \<Rightarrow> bool" where
  "ident_start c \<longleftrightarrow> (let n = code c in
     is_ascii_letter c \<or> n = 95 \<or> n = 170 \<or> n = 181 \<or> n = 186 \<or>
     192 \<le> n \<and> n \<le> 214 \<or> 216 \<le> n \<and> n \<le> 246 \<or> 248 \<le> n)"

definition is_identifier :: "string \<Rightarrow> bool" where
  "is_identifier s \<longleftrightarrow> s \<noteq> [] \<and> ident_start (hd s) \<and>
     list_all (\<lambda>c. ident_start c \<or> is_digit c \<or> code c = 183) s"

definition escaped_char :: "char \<Rightarrow> char option" where
  "escaped_char c = map_of [(CHR ''a'', CHR 0x07), (CHR ''b'', CHR 0x08), (CHR ''f'', CHR 0x0C), (CHR ''n'', LF),
     (CHR ''r'', CR), (CHR ''t'', CHR 0x09), (CHR ''v'', CHR 0x0B), (CHR 0x5C, CHR 0x5C)] c"

text \<open>The group reference \<open>\g<name>\<close>, after its first two characters, with the number of characters
  that it takes after them. A backslash at the very end of the template is found first.\<close>

definition parse_group :: "string \<Rightarrow> (template_item \<times> nat) result" where
  "parse_group s =
     (let name = takeWhile (\<lambda>c. c \<noteq> CHR ''>'' \<and> c \<noteq> CHR 0x5C) (tl s);
          rest = drop (length name) (tl s) in
      if s = [] \<or> hd s \<noteq> CHR ''<'' \<or> name = [] \<or> rest = [] \<or> hd rest \<noteq> CHR ''>'' then Inl ReError
      else if list_all is_digit name
      then if list_all (\<lambda>c. c = CHR ''0'') name then Inr (Whole_match, length name + 2) else Inl ReError
      else if is_identifier name \<and> tl rest \<noteq> [CHR 0x5C] then Inl IndexError
      else Inl ReError)"

text \<open>What follows a backslash, with the number of characters that it takes.\<close>

definition parse_escape :: "string \<Rightarrow> (template_item \<times> nat) result" where
  "parse_escape s = (case s of [] \<Rightarrow> Inl ReError
   | c # r \<Rightarrow>
      if c = CHR ''g'' then res_bind (parse_group r) (\<lambda>(item, n). Inr (item, Suc n))
      else if c = CHR ''0''
      then let n = 1 + length (takeWhile is_octal (take 2 r)) in Inr (Literal [char_of (octal_value (take n s))], n)
      else if is_digit c
      then if 3 \<le> length s \<and> list_all is_octal (take 3 s) \<and> octal_value (take 3 s) \<le> 255
           then Inr (Literal [char_of (octal_value (take 3 s))], 3) else Inl ReError
      else case escaped_char c of
        Some d \<Rightarrow> Inr (Literal [d], 1)
      | None \<Rightarrow> if is_ascii_letter c then Inl ReError else Inr (Literal [CHR 0x5C, c], 1))"

fun parse_template :: "string \<Rightarrow> template_item list result" where
  "parse_template [] = Inr []"
| "parse_template (c # s) =
     (if c \<noteq> CHR 0x5C then res_bind (parse_template s) (\<lambda>items. Inr (Literal [c] # items))
      else case parse_escape s of
        Inl e \<Rightarrow> Inl e
      | Inr (item, n) \<Rightarrow> res_bind (parse_template (drop n s)) (\<lambda>items. Inr (item # items)))"

definition expand :: "string \<Rightarrow> template_item list \<Rightarrow> string" where
  "expand match items = concat (map (\<lambda>item. case item of Literal s \<Rightarrow> s | Whole_match \<Rightarrow> match) items)"

text \<open>\<open>re.sub(":.+$", f": {version}", line)\<close> on a line of a file: the first colon, when something
  follows it on the line, starts the only match, which ends before the line end.\<close>

definition sub_version :: "string \<Rightarrow> string \<Rightarrow> string result" where
  "sub_version version line =
     res_bind (parse_template ('': '' @ version)) (\<lambda>items.
     let line_end = (if line \<noteq> [] \<and> last line = LF then [LF] else []);
         body = (if line_end = [] then line else butlast line);
         (before, after) = split_once (CHR '':'') body in
     Inr (if CHR '':'' \<in> set body \<and> after \<noteq> []
          then before @ expand (CHR '':'' # after) items @ line_end
          else line))"

text \<open>The loop over the lines of the file, with its \<open>patch_version\<close>: the operators that were patched,
  and the lines without their line ends.\<close>

fun patch_loop :: "(string \<times> string) list \<Rightarrow> string \<Rightarrow> string list \<Rightarrow> (string list \<times> string list) result" where
  "patch_loop operators patch_version [] = Inr ([], [])"
| "patch_loop operators patch_version (line # rest) =
     (if patch_version \<noteq> []
      then res_bind (sub_version patch_version line) (\<lambda>line'.
           res_bind (patch_loop operators [] rest) (\<lambda>(ops, kept).
           Inr (ops, rstrip_newlines line' # kept)))
      else case find (\<lambda>(op, version). contains op line) operators of
             None \<Rightarrow> res_bind (patch_loop operators [] rest) (\<lambda>(ops, kept).
                       Inr (ops, rstrip_newlines line # kept))
           | Some (op, version) \<Rightarrow> res_bind (patch_loop operators version rest) (\<lambda>(ops, kept).
                       Inr (op # ops, rstrip_newlines line # kept)))"

text \<open>The loop that filters the skipped operators, with its counter \<open>skip_lines\<close>.\<close>

fun skip_loop :: "string list \<Rightarrow> nat \<Rightarrow> string list \<Rightarrow> string list \<times> string list" where
  "skip_loop skip_ops skip_lines [] = ([], [])"
| "skip_loop skip_ops (Suc k) (line # rest) = skip_loop skip_ops k rest"
| "skip_loop skip_ops 0 (line # rest) = (case find (\<lambda>op. contains op line) skip_ops of
     Some op \<Rightarrow> (case skip_loop skip_ops 1 rest of (valid, kept) \<Rightarrow> (op # valid, kept))
   | None \<Rightarrow> (case skip_loop skip_ops 0 rest of (valid, kept) \<Rightarrow> (valid, line # kept)))"

definition patched_contents :: "(string \<times> string) list \<Rightarrow> string list \<Rightarrow> string \<Rightarrow> string result" where
  "patched_contents operators skip_ops content =
     res_bind (patch_loop operators [] (file_lines content)) (\<lambda>(patched_ops, patched_release).
     if \<not> set (map fst operators) \<subseteq> set patched_ops then Inl TestRunnerException
     else case skip_loop skip_ops 0 patched_release of (valid_skip_ops, release_contents) \<Rightarrow>
       if \<not> set skip_ops \<subseteq> set valid_skip_ops then Inl TestRunnerException
       else Inr (join [LF] release_contents))"

definition patch_release ::
  "'x os \<Rightarrow> (string \<times> string) list \<Rightarrow> string list \<Rightarrow> (('x, 'z) world_scheme, path) step" where
  "patch_release os operators skip_ops =
     and_then (read_text (path_of ''tests/release.yaml'')) (\<lambda>content.
     and_then (of_result (patched_contents operators skip_ops content)) (\<lambda>contents.
     and_then (on_ext (os_tempfile os)) (\<lambda>f.
     and_then (write_file f (Text contents)) (\<lambda>_. ret f))))"

section \<open>The context manager\<close>

text \<open>\<open>try: m finally: last\<close>.\<close>

definition finally_do :: "('s, 'a) step \<Rightarrow> ('s, unit) step \<Rightarrow> ('s, 'a) step" where
  "finally_do m last_step s = (case m s of (r, s1) \<Rightarrow> (case last_step s1 of
     (Inl e, s2) \<Rightarrow> (Inl e, s2) | (Inr u, s2) \<Rightarrow> (r, s2)))"

text \<open>The removal of the temporary file. \<open>except FileNotFoundError | OSError\<close> names no exception class:
  when the removal raises, looking for the handler raises \<open>TypeError\<close>.\<close>

definition remove_patched :: "path \<Rightarrow> (('x, 'z) world_scheme, unit) step" where
  "remove_patched f =
     (if contains ''patched'' (path_str f)
      then handle (remove_file f)
             (\<lambda>e. raise (TypeError ''catching classes that do not inherit from BaseException is not allowed''))
      else ret ())"

definition release_file ::
  "'x os \<Rightarrow> (string \<times> string) list \<Rightarrow> string list \<Rightarrow> (path \<Rightarrow> (('x, 'z) world_scheme, 'a) step) \<Rightarrow>
     (('x, 'z) world_scheme, 'a) step" where
  "release_file os operators skip_ops body =
     and_then (patch_release os operators skip_ops) (\<lambda>f. finally_do (body f) (remove_patched f))"

section \<open>The release as data\<close>

text \<open>A release file of the usual shape: lines before the products, and for each product the line of its
  name and one line \<open>key: value\<close>.\<close>

datatype product = Product (p_header: string) (p_key: string) (p_value: string)

definition product_lines :: "product \<Rightarrow> string list" where
  "product_lines p = [p_header p, p_key p @ '':'' @ p_value p]"

definition release_lines :: "string list \<Rightarrow> product list \<Rightarrow> string list" where
  "release_lines pre ps = pre @ concat (map product_lines ps)"

definition file_text :: "string list \<Rightarrow> string" where
  "file_text ls = concat (map (\<lambda>l. l @ [LF]) ls)"

text \<open>The operator whose version a product gets, and the operator that takes it kept.\<close>

definition chosen :: "(string \<times> string) list \<Rightarrow> product \<Rightarrow> (string \<times> string) option" where
  "chosen operators p = find (\<lambda>(op, version). contains op (p_header p)) operators"

definition skipped :: "string list \<Rightarrow> product \<Rightarrow> string option" where
  "skipped skip_ops p = find (\<lambda>op. contains op (p_header p)) skip_ops"

definition with_version :: "(string \<times> string) list \<Rightarrow> product \<Rightarrow> product" where
  "with_version operators p = (case chosen operators p of
     None \<Rightarrow> p | Some (op, version) \<Rightarrow> Product (p_header p) (p_key p) ('' '' @ version))"

text \<open>What is asked of the file and the options: one line each, no operator named in a line that is no
  product's name, versions that are not empty and hold no line end and no backslash.\<close>

definition product_ok :: "(string \<times> string) list \<Rightarrow> string list \<Rightarrow> product \<Rightarrow> bool" where
  "product_ok operators skip_ops p \<longleftrightarrow> LF \<notin> set (p_header p) \<and> LF \<notin> set (p_key p) \<and> LF \<notin> set (p_value p) \<and>
     CHR '':'' \<notin> set (p_key p) \<and> p_value p \<noteq> [] \<and>
     list_all (\<lambda>(op, version). \<not> contains op (p_key p @ '':'' @ p_value p)) operators \<and>
     list_all (\<lambda>op. \<not> contains op (p_key p @ '':'' @ p_value (with_version operators p))) skip_ops"

definition release_ok :: "(string \<times> string) list \<Rightarrow> string list \<Rightarrow> string list \<Rightarrow> product list \<Rightarrow> bool" where
  "release_ok operators skip_ops pre ps \<longleftrightarrow>
     list_all (\<lambda>l. LF \<notin> set l \<and> list_all (\<lambda>(op, version). \<not> contains op l) operators \<and>
                   list_all (\<lambda>op. \<not> contains op l) skip_ops) pre \<and>
     list_all (\<lambda>(op, version). op \<noteq> [] \<and> LF \<notin> set op \<and> version \<noteq> [] \<and> LF \<notin> set version \<and> CHR 0x5C \<notin> set version) operators \<and>
     list_all (product_ok operators skip_ops) ps"

section \<open>Lemmas\<close>

lemma rstrip_line: "LF \<notin> set l \<Longrightarrow> rstrip_newlines (l @ [LF]) = l"
  by (cases l rule: rev_cases) (auto simp: rstrip_newlines_def)

lemma contains_full_line: "LF \<notin> set op \<Longrightarrow> op \<noteq> [] \<Longrightarrow> contains op (l @ [LF]) = contains op l"
proof
  assume op: "LF \<notin> set op" "op \<noteq> []" and "contains op (l @ [LF])"
  then obtain a b where e: "l @ [LF] = (a @ op) @ b" by (auto simp: contains_iff)
  show "contains op l"
  proof (cases b rule: rev_cases)
    case Nil
    with e have "last (a @ op) = LF" by (metis append_Nil2 last_snoc)
    with op show ?thesis by (metis last_appendR last_in_set)
  next
    case (snoc b' c)
    with e have "l = a @ op @ b'" by (metis append.assoc butlast_snoc)
    then show ?thesis by (auto simp: contains_iff)
  qed
qed (use contains_append [of op l "[]" "[LF]"] in simp)

lemma find_chosen:
  assumes "list_all (\<lambda>(op, version). op \<noteq> [] \<and> LF \<notin> set op) operators"
  shows "find (\<lambda>(op, version). contains op (l @ [LF])) operators = find (\<lambda>(op, version). contains op l) operators"
  using assms by (intro find_cong) (auto simp: list_all_iff contains_full_line)

lemma find_none: "list_all (\<lambda>(op, version). \<not> contains op l) operators \<Longrightarrow> find (\<lambda>(op, version). contains op l) operators = None"
  by (auto simp: find_None_iff list_all_iff)

lemma find_none': "list_all (\<lambda>op. \<not> contains op l) ops \<Longrightarrow> find (\<lambda>op. contains op l) ops = None"
  by (auto simp: find_None_iff list_all_iff)

lemma parse_template_plain: "CHR 0x5C \<notin> set t \<Longrightarrow> parse_template t = Inr (map (\<lambda>c. Literal [c]) t)"
  by (induction t) auto

lemma expand_plain: "expand m (map (\<lambda>c. Literal [c]) t) = t"
  by (induction t) (auto simp: expand_def)

text \<open>Reading a template fails with one of the two exceptions.\<close>

lemma parse_template_errors: "parse_template t = Inl e \<Longrightarrow> e = ReError \<or> e = IndexError"
proof (induction t rule: parse_template.induct)
  case (2 c s)
  have "parse_group r = Inl e' \<Longrightarrow> e' = ReError \<or> e' = IndexError" for r e'
    by (auto simp: parse_group_def Let_def split: if_splits)
  then have esc: "parse_escape s = Inl e' \<Longrightarrow> e' = ReError \<or> e' = IndexError" for e'
    by (cases "parse_group (tl s)")
       (auto simp: parse_escape_def Let_def split: list.splits if_splits option.splits)
  show ?case
  proof (cases "c = CHR 0x5C")
    case False
    with 2 show ?thesis by (cases "parse_template s") auto
  next
    case True
    show ?thesis
    proof (cases "parse_escape s")
      case (Inl e')
      with 2(3) True esc show ?thesis by simp
    next
      case (Inr p)
      obtain item n where p: "p = (item, n)" by (cases p)
      with 2 True Inr show ?thesis by (cases "parse_template (drop n s)") auto
    qed
  qed
qed simp

lemma sub_version_line:
  assumes "CHR '':'' \<notin> set k" and "v \<noteq> []" and "CHR 0x5C \<notin> set version"
  shows "sub_version version (k @ '':'' @ v @ [LF]) = Inr (k @ '': '' @ version @ [LF])"
proof -
  have "butlast (k @ '':'' @ v @ [LF]) = k @ CHR '':'' # v" by (simp add: butlast_append)
  moreover have "parse_template ('': '' @ version) = Inr (map (\<lambda>c. Literal [c]) ('': '' @ version))"
    using assms(3) by (intro parse_template_plain) simp
  ultimately show ?thesis using assms(1,2) split_once_append [OF assms(1), of v]
    by (simp add: sub_version_def Let_def expand_plain del: list.map map_append append_Cons append.simps)
qed

lemma file_lines_text:
  assumes "list_all (\<lambda>l. LF \<notin> set l) ls"
  shows "file_lines (file_text ls) = map (\<lambda>l. l @ [LF]) ls"
proof -
  have "lines_ok (map (\<lambda>l. l @ [LF]) ls)" using assms
    by (induction ls rule: induct_list012) (auto simp: full_line_def open_line_def)
  then show ?thesis unfolding file_text_def by (rule file_lines_concat)
qed

lemma map_filter_Cons: "List.map_filter f (x # xs) = (case f x of None \<Rightarrow> List.map_filter f xs | Some y \<Rightarrow> y # List.map_filter f xs)"
  by (simp add: List.map_filter_def split: option.split)

lemma p_with_version [simp]: "p_header (with_version operators p) = p_header p" "p_key (with_version operators p) = p_key p"
  by (simp_all add: with_version_def split: option.split)

lemma skipped_with_version [simp]: "skipped ops (with_version operators p) = skipped ops p"
  by (simp add: skipped_def)

lemma chosen_in: "chosen operators p = Some (op, version) \<Longrightarrow> (op, version) \<in> set operators"
  by (auto simp: chosen_def find_Some_iff in_set_conv_nth)

lemma patch_loop_prelude:
  assumes "list_all (\<lambda>(op, version). op \<noteq> [] \<and> LF \<notin> set op) operators"
    and "list_all (\<lambda>l. LF \<notin> set l \<and> list_all (\<lambda>(op, version). \<not> contains op l) operators) pre"
  shows "patch_loop operators [] (map (\<lambda>l. l @ [LF]) pre @ rest) =
    res_bind (patch_loop operators [] rest) (\<lambda>(ops, kept). Inr (ops, pre @ kept))"
  using assms(2)
proof (induction pre)
  case Nil
  show ?case by (cases "patch_loop operators [] rest") auto
next
  case (Cons l pre)
  then show ?case
    by (cases "patch_loop operators [] rest") (auto simp: find_chosen [OF assms(1)] find_none rstrip_line)
qed

lemma patch_loop_products:
  assumes "list_all (\<lambda>(op, version). op \<noteq> [] \<and> LF \<notin> set op \<and> version \<noteq> [] \<and> LF \<notin> set version \<and> CHR 0x5C \<notin> set version) operators"
    and "list_all (product_ok operators skip_ops) ps"
  shows "patch_loop operators [] (map (\<lambda>l. l @ [LF]) (concat (map product_lines ps))) =
    Inr (map fst (List.map_filter (chosen operators) ps), concat (map product_lines (map (with_version operators) ps)))"
  using assms(2)
proof (induction ps)
  case (Cons p ps)
  have ops: "list_all (\<lambda>(op, version). op \<noteq> [] \<and> LF \<notin> set op) operators"
    using assms(1) by (auto simp: list_all_iff)
  from Cons.prems have p: "LF \<notin> set (p_header p)" "LF \<notin> set (p_key p @ '':'' @ p_value p)" "CHR '':'' \<notin> set (p_key p)"
    "p_value p \<noteq> []" "list_all (\<lambda>(op, version). \<not> contains op (p_key p @ '':'' @ p_value p)) operators"
    by (simp_all add: product_ok_def)
  have config: "find (\<lambda>(op, version). contains op (p_key p @ CHR '':'' # p_value p @ [LF])) operators = None"
    using find_chosen [OF ops, of "p_key p @ '':'' @ p_value p"] find_none [OF p(5)] by simp
  show ?case
  proof (cases "chosen operators p")
    case None
    then show ?thesis using Cons p config rstrip_line [OF p(2)] find_chosen [OF ops, of "p_header p"]
      by (simp add: product_lines_def chosen_def with_version_def map_filter_Cons rstrip_line)
  next
    case (Some c)
    obtain op version where c: "c = (op, version)" by (cases c)
    have v: "version \<noteq> []" "CHR 0x5C \<notin> set version" "LF \<notin> set (p_key p @ '': '' @ version)"
      using chosen_in [OF Some [unfolded c]] assms(1) p(2) by (auto simp: list_all_iff)
    then show ?thesis
      using Cons Some c p(1) sub_version_line [OF p(3,4) v(2)] rstrip_line [OF v(3)] find_chosen [OF ops, of "p_header p"]
      by (simp add: product_lines_def chosen_def with_version_def map_filter_Cons rstrip_line)
  qed
qed (simp add: List.map_filter_def)

lemma skip_loop_prelude:
  assumes "list_all (\<lambda>l. list_all (\<lambda>op. \<not> contains op l) skip_ops) pre"
  shows "skip_loop skip_ops 0 (pre @ rest) = (case skip_loop skip_ops 0 rest of (valid, kept) \<Rightarrow> (valid, pre @ kept))"
  using assms by (induction pre) (auto simp: find_none' split: prod.splits)

lemma skip_loop_products:
  assumes "list_all (\<lambda>p. list_all (\<lambda>op. \<not> contains op (p_key p @ '':'' @ p_value p)) skip_ops) ps"
  shows "skip_loop skip_ops 0 (concat (map product_lines ps)) =
    (List.map_filter (skipped skip_ops) ps, concat (map product_lines (filter (\<lambda>p. skipped skip_ops p = None) ps)))"
  using assms
proof (induction ps)
  case (Cons p ps)
  then show ?case
    by (cases "skipped skip_ops p")
       (auto simp: product_lines_def skipped_def map_filter_Cons find_none' numeral_eq_Suc)
qed (simp add: List.map_filter_def)

lemma patched_contents_eval:
  assumes "release_ok operators skip_ops pre ps"
  shows "patched_contents operators skip_ops (file_text (release_lines pre ps)) =
    (if set (map fst operators) \<subseteq> fst ` set (List.map_filter (chosen operators) ps) \<and>
        set skip_ops \<subseteq> set (List.map_filter (skipped skip_ops) ps)
     then Inr (join [LF] (release_lines pre (map (with_version operators) (filter (\<lambda>p. skipped skip_ops p = None) ps))))
     else Inl TestRunnerException)"
proof -
  have ops: "list_all (\<lambda>(op, version). op \<noteq> [] \<and> LF \<notin> set op) operators"
    and ops2: "list_all (\<lambda>(op, version). op \<noteq> [] \<and> LF \<notin> set op \<and> version \<noteq> [] \<and> LF \<notin> set version \<and> CHR 0x5C \<notin> set version) operators"
    and pre: "list_all (\<lambda>l. LF \<notin> set l \<and> list_all (\<lambda>(op, version). \<not> contains op l) operators) pre"
    and pre2: "list_all (\<lambda>l. list_all (\<lambda>op. \<not> contains op l) skip_ops) pre"
    and ps: "list_all (product_ok operators skip_ops) ps"
    using assms by (auto simp: release_ok_def list_all_iff)
  have "list_all (\<lambda>l. LF \<notin> set l) (release_lines pre ps)"
    using pre ps by (auto simp: release_lines_def product_lines_def product_ok_def list_all_iff)
  then have lines: "file_lines (file_text (release_lines pre ps)) =
      map (\<lambda>l. l @ [LF]) pre @ map (\<lambda>l. l @ [LF]) (concat (map product_lines ps))"
    by (simp add: file_lines_text release_lines_def)
  let ?qs = "map (with_version operators) ps"
  have loop: "patch_loop operators [] (file_lines (file_text (release_lines pre ps))) =
      Inr (map fst (List.map_filter (chosen operators) ps), pre @ concat (map product_lines ?qs))"
    unfolding lines patch_loop_prelude [OF ops pre] patch_loop_products [OF ops2 ps] by simp
  have "list_all (\<lambda>p. list_all (\<lambda>op. \<not> contains op (p_key p @ '':'' @ p_value p)) skip_ops) ?qs"
    using ps by (auto simp: list_all_iff product_ok_def)
  then have "skip_loop skip_ops 0 (pre @ concat (map product_lines ?qs)) =
      (List.map_filter (skipped skip_ops) ?qs, pre @ concat (map product_lines (filter (\<lambda>p. skipped skip_ops p = None) ?qs)))"
    by (simp add: skip_loop_prelude [OF pre2] skip_loop_products del: map_map)
  moreover have "List.map_filter (skipped skip_ops) ?qs = List.map_filter (skipped skip_ops) ps"
    by (simp add: List.map_filter_def filter_map comp_def)
  moreover have "filter (\<lambda>p. skipped skip_ops p = None) ?qs = map (with_version operators) (filter (\<lambda>p. skipped skip_ops p = None) ps)"
    by (simp add: filter_map comp_def)
  ultimately show ?thesis unfolding patched_contents_def loop res_bind.simps prod.case by (simp add: release_lines_def)
qed

text \<open>The temporary file: what is written, and that nothing else is touched.\<close>

lemma patch_release_eval:
  assumes "files s (path_of ''tests/release.yaml'') = Some (Text content)" and "\<not> unreadable s (path_of ''tests/release.yaml'')"
    and "patched_contents operators skip_ops (universal_newlines content) = Inr contents"
    and "os_tempfile os (ext s) = (f, x)" and "can_write s f"
  shows "patch_release os operators skip_ops s = (Inr f, s\<lparr>ext := x, files := (files s)(f \<mapsto> Text contents)\<rparr>)"
proof -
  have "can_write (s\<lparr>ext := x\<rparr>) f" using assms(5) by (simp add: can_write_def)
  then show ?thesis using assms(3,4) read_text_Some [OF assms(1,2)]
    by (simp add: patch_release_def and_then_def on_ext_def write_file_ok)
qed

lemma remove_patched_ok:
  assumes "contains ''patched'' (path_str f)" and "files s f \<noteq> None" and "\<not> unwritable s f"
  shows "remove_patched f s = (Inr (), s\<lparr>files := (files s)(f := None)\<rparr>)"
  using assms by (auto simp: remove_patched_def remove_file_def handle_def)

lemma remove_patched_fails:
  assumes "contains ''patched'' (path_str f)" and "files s f = None \<or> unwritable s f"
  shows "remove_patched f s =
    (Inl (TypeError ''catching classes that do not inherit from BaseException is not allowed''), s)"
  using assms by (auto simp: remove_patched_def remove_file_def handle_def split: option.split)

section \<open>Properties\<close>

text \<open>C8: Patching the release is the update it claims to be: on a release file of the usual shape, whose
  lines name an operator only where a product begins, the result is the file with the chosen versions
  put in and the skipped products left out, nothing else changed; it is \<open>TestRunnerException\<close> exactly
  when an operator of the options picks no product.\<close>

theorem release_patch_spec:
  assumes "release_ok operators skip_ops pre ps"
  shows "patched_contents operators skip_ops (file_text (release_lines pre ps)) =
    (if (\<forall>op\<in>set (map fst operators). \<exists>p\<in>set ps. \<exists>version. chosen operators p = Some (op, version)) \<and>
        (\<forall>op\<in>set skip_ops. \<exists>p\<in>set ps. skipped skip_ops p = Some op)
     then Inr (join [LF] (release_lines pre (map (with_version operators) (filter (\<lambda>p. skipped skip_ops p = None) ps))))
     else Inl TestRunnerException)"
proof -
  have "fst ` set (List.map_filter (chosen operators) ps) =
      {op. \<exists>p\<in>set ps. \<exists>version. chosen operators p = Some (op, version)}"
    and "set (List.map_filter (skipped skip_ops) ps) = {op. \<exists>p\<in>set ps. skipped skip_ops p = Some op}"
    by (force simp: List.map_filter_def)+
  then show ?thesis unfolding patched_contents_eval [OF assms] by (simp add: subset_iff)
qed

definition sample_products :: "product list" where
  "sample_products = [Product ''      commons:'' ''        operatorVersion'' '' 0.0.0-dev'',
     Product ''      listener:'' ''        operatorVersion'' '' 0.0.0-dev'']"

theorem release_patch_spec_witness:
  "patched_contents [(''commons'', ''0.0.0-pr7'')] [''listener''] (file_text (release_lines [''  tests:''] sample_products)) =
    Inr (join [LF] [''  tests:'', ''      commons:'', ''        operatorVersion: 0.0.0-pr7''])"
proof -
  have "release_ok [(''commons'', ''0.0.0-pr7'')] [''listener''] [''  tests:''] sample_products" by code_simp
  from release_patch_spec [OF this] show ?thesis
    by (simp add: sample_products_def chosen_def skipped_def with_version_def release_lines_def product_lines_def)
qed

text \<open>C12: The temporary file does not outlive the \<open>with\<close> statement: whatever its body returns or raises,
  the statement passes it on, and afterwards the file is gone and nothing else has changed since the
  body ended, provided the body left the file there and it may be removed.\<close>

theorem release_file_removed:
  assumes "patch_release os operators skip_ops s = (Inr f, s1)" and "contains ''patched'' (path_str f)"
    and "body f s1 = (r, s2)" and "files s2 f \<noteq> None" and "\<not> unwritable s2 f"
  shows "release_file os operators skip_ops body s = (r, s2\<lparr>files := (files s2)(f := None)\<rparr>)"
  using remove_patched_ok [OF assms(2,4,5)] assms(1,3)
  by (simp add: release_file_def and_then_def finally_do_def)

definition sample_release :: "(rat \<times> proc) list \<Rightarrow> (rat \<times> (rat \<times> proc) list) world" where
  "sample_release script = (sample_world script)\<lparr>files :=
     [path_of ''tests/release.yaml'' \<mapsto> Text (file_text (release_lines [''  tests:''] sample_products))]\<rparr>"

lemma sample_patch:
  "patch_release sample_os [] [] (sample_release script) = (Inr (Path ''/'' [''tmp'', ''patched0'']),
    (sample_release script)\<lparr>files := (files (sample_release script))
      (Path ''/'' [''tmp'', ''patched0''] \<mapsto> Text (join [LF] (release_lines [''  tests:''] sample_products)))\<rparr>)"
proof -
  have c: "patched_contents [] [] (universal_newlines (file_text (release_lines [''  tests:''] sample_products))) =
      Inr (join [LF] (release_lines [''  tests:''] sample_products))" by code_simp
  show ?thesis
    by (subst patch_release_eval [OF _ _ c, where f = "Path ''/'' [''tmp'', ''patched0'']" and x = "ext (sample_release script)"])
       (simp_all add: sample_release_def sample_world_def sample_os_def can_write_def path_parent_def)
qed

lemma sample_tmp_name: "contains ''patched'' (path_str (Path ''/'' [''tmp'', ''patched0'']))"
  by (simp add: path_str_def)

theorem release_file_removed_witness:
  "\<exists>s'. release_file sample_os [] [] (\<lambda>f. raise TestRunnerException) (sample_release []) = (Inl TestRunnerException, s') \<and>
    files s' (Path ''/'' [''tmp'', ''patched0'']) = None"
proof -
  let ?f = "Path ''/'' [''tmp'', ''patched0'']"
  obtain s1 where s1: "patch_release sample_os [] [] (sample_release []) = (Inr ?f, s1)" "files s1 ?f \<noteq> None" "\<not> unwritable s1 ?f"
    using sample_patch [of "[]"] by (simp add: sample_release_def sample_world_def)
  have "raise TestRunnerException s1 = (Inl TestRunnerException, s1)" by simp
  from release_file_removed [where body = "\<lambda>f. raise TestRunnerException", OF s1(1) sample_tmp_name this s1(2,3)]
  show ?thesis by auto
qed

text \<open>C21: The clean-up's exception handler does not work: if the temporary file cannot be removed (or is gone
  already), the statement raises \<open>TypeError\<close>, whatever its body returned or raised, because
  \<open>FileNotFoundError | OSError\<close> is no exception class.\<close>

theorem release_file_removal_fails:
  assumes "patch_release os operators skip_ops s = (Inr f, s1)" and "contains ''patched'' (path_str f)"
    and "body f s1 = (r, s2)" and "files s2 f = None \<or> unwritable s2 f"
  shows "release_file os operators skip_ops body s =
    (Inl (TypeError ''catching classes that do not inherit from BaseException is not allowed''), s2)"
  using remove_patched_fails [OF assms(2,4)] assms(1,3)
  by (simp add: release_file_def and_then_def finally_do_def)

theorem release_file_removal_fails_witness:
  "\<exists>s'. release_file sample_os [] [] (\<lambda>f. and_then (remove_file f) (\<lambda>_. ret (0::int))) (sample_release []) =
    (Inl (TypeError ''catching classes that do not inherit from BaseException is not allowed''), s')"
proof -
  let ?f = "Path ''/'' [''tmp'', ''patched0'']"
  obtain s1 where s1: "patch_release sample_os [] [] (sample_release []) = (Inr ?f, s1)" "files s1 ?f \<noteq> None" "\<not> unwritable s1 ?f"
    using sample_patch [of "[]"] by (simp add: sample_release_def sample_world_def)
  have "and_then (remove_file ?f) (\<lambda>_. ret (0::int)) s1 = (Inr 0, s1\<lparr>files := (files s1)(?f := None)\<rparr>)"
    using s1 by (auto simp: remove_file_def and_then_def)
  from release_file_removal_fails [where body = "\<lambda>f. and_then (remove_file f) (\<lambda>_. ret 0)", OF s1(1) sample_tmp_name this] show ?thesis by auto
qed

end
