(* ===== verification/Run_Tests.thy ===== *)
theory Run_Tests
  imports Release_File
begin

text \<open>
  The program \<open>scripts/run-tests\<close> after its arguments are parsed: the tools it needs, the
  generation of the tests with \<open>beku\<close>, the installation of the release, and the run of the tests
  with \<open>kuttl\<close>. Log messages are not modelled.
\<close>

section \<open>Options\<close>

record opts =
  skip_delete :: bool
  skip_tests :: bool
  skip_release :: bool
  opt_parallel :: int
  operator :: "(string \<times> string) list"
  skip_operator :: "string list"
  test :: "string option"
  test_suite :: "string option"
  log_level :: int
  opt_namespace :: "string option"
  work_dir :: string
  listener_class_preset :: "string option"

definition cli_parse_operator_args :: "string \<Rightarrow> (string \<times> string) result" where
  "cli_parse_operator_args arg =
     (if CHR ''='' \<notin> set arg
      then Inl (ArgumentTypeError (''Invalid operator argument: '' @ arg @ ''. Must be in format <operator>=<version>''))
      else Inr (split_once (CHR ''='') arg))"

definition cli_log_level :: "string \<Rightarrow> int result" where
  "cli_log_level cli_arg =
     (if cli_arg = ''debug'' then Inr 10
      else if cli_arg = ''info'' then Inr 20
      else if cli_arg = ''error'' then Inr 40
      else if cli_arg = ''warning'' then Inr 30
      else if cli_arg = ''critical'' then Inr 50
      else Inl (ArgumentTypeError ''Invalid log level''))"

section \<open>The steps of the program\<close>

definition required_commands :: "string list" where
  "required_commands = [''beku'', ''stackablectl'', ''kubectl'', ''kubectl-kuttl'']"

definition have_requirements :: "'x os \<Rightarrow> (('x, 'z) world_scheme, unit) step" where
  "have_requirements os =
     and_then (gets (\<lambda>s. list_ex (\<lambda>c. \<not> os_which os c (ext s)) required_commands)) (\<lambda>missing.
     if missing then raise TestRunnerException else ret ())"

text \<open>\<open>except subprocess.CalledProcessError\<close>: the handler gets the program's standard error.\<close>

definition on_failed :: "('s, 'a) step \<Rightarrow> (string \<Rightarrow> ('s, 'a) step) \<Rightarrow> ('s, 'a) step" where
  "on_failed m h = handle m (\<lambda>e. case e of CalledProcessError rc stderr \<Rightarrow> h stderr | _ \<Rightarrow> raise e)"

definition stackablectl_cmd :: "string \<Rightarrow> string option \<Rightarrow> string list" where
  "stackablectl_cmd release preset =
     [''stackablectl'', ''release'', ''install'', ''--release-file'', release] @
     (if truthy preset then [''--listener-class-preset'', the preset] else []) @ [''tests'']"

definition maybe_install_release ::
  "'x os \<Rightarrow> bool \<Rightarrow> path \<Rightarrow> string option \<Rightarrow> (('x, 'z) world_scheme, unit) step" where
  "maybe_install_release os skip release preset =
     (if skip then ret ()
      else on_failed
        (and_then (run_check os (stackablectl_cmd (path_str release) preset) None) (\<lambda>p.
         if contains ''error'' (lower (err p)) then raise TestRunnerException else ret ()))
        (\<lambda>stderr. raise TestRunnerException))"

definition beku_cmd :: "string option \<Rightarrow> string option \<Rightarrow> string \<Rightarrow> string list" where
  "beku_cmd suite ns dir =
     [''beku'', ''--test_definition'', ''tests/test-definition.yaml'',
      ''--kuttl_test'', ''tests/kuttl-test.yaml.jinja2'',
      ''--template_dir'', ''tests/templates/kuttl'', ''--output_dir'', dir] @
     (if truthy suite then [''--suite'', the suite] else []) @
     (if truthy ns then [''--namespace'', the ns] else [])"

definition gen_tests ::
  "'x os \<Rightarrow> string option \<Rightarrow> string option \<Rightarrow> string \<Rightarrow> (('x, 'z) world_scheme, unit) step" where
  "gen_tests os suite ns dir =
     on_failed (and_then (run_check os (beku_cmd suite ns dir) None) (\<lambda>_. ret ()))
       (\<lambda>stderr. raise TestRunnerException)"

definition ensure_namespace_exists :: "'x os \<Rightarrow> string \<Rightarrow> (('x, 'z) world_scheme, unit) step" where
  "ensure_namespace_exists os ns =
     on_failed (and_then (run_check os [''kubectl'', ''get'', ''namespace'', ns] None) (\<lambda>_. ret ()))
       (\<lambda>_. on_failed (and_then (run_check os [''kubectl'', ''create'', ''namespace'', ns] None) (\<lambda>_. ret ()))
         (\<lambda>stderr. if contains ''already exists'' stderr then ret ()
           else if contains ''forbidden'' (lower stderr) then ret ()
           else raise TestRunnerException))"

definition kuttl_cmd :: "string option \<Rightarrow> int \<Rightarrow> string option \<Rightarrow> bool \<Rightarrow> string list" where
  "kuttl_cmd t par ns keep =
     [''kubectl-kuttl'', ''test''] @
     (if truthy t then [''--test'', the t] else []) @
     (if par \<noteq> 0 then [''--parallel'', int_str par] else []) @
     (if keep then [''--skip-delete''] else []) @
     (if truthy ns then [''--namespace'', the ns] else [])"

definition run_tests ::
  "'x os \<Rightarrow> string option \<Rightarrow> int \<Rightarrow> string option \<Rightarrow> bool \<Rightarrow> string \<Rightarrow> (('x, 'z) world_scheme, unit) step" where
  "run_tests os t par ns keep dir =
     on_failed
       (and_then (if truthy ns then ensure_namespace_exists os (the ns) else ret ()) (\<lambda>_.
        and_then (run_check os (kuttl_cmd t par ns keep) (Some dir)) (\<lambda>_. ret ())))
       (\<lambda>stderr. raise TestRunnerException)"

text \<open>The body of \<open>main\<close>'s \<open>try\<close> statement after \<open>parse_args\<close>, and \<open>main\<close>: its result is the exit code.\<close>

definition main_steps :: "'x os \<Rightarrow> opts \<Rightarrow> (('x, 'z) world_scheme, unit) step" where
  "main_steps os opt =
     and_then (have_requirements os) (\<lambda>_.
     and_then (gen_tests os (test_suite opt) (opt_namespace opt) (work_dir opt)) (\<lambda>_.
     and_then (release_file os (operator opt) (skip_operator opt)
        (\<lambda>f. maybe_install_release os (skip_release opt) f (listener_class_preset opt))) (\<lambda>_.
     if skip_tests opt then ret ()
     else run_tests os (test opt) (opt_parallel opt) (opt_namespace opt) (skip_delete opt) (work_dir opt))))"

definition run_tests_main :: "'x os \<Rightarrow> opts \<Rightarrow> (('x, 'z) world_scheme, int) step" where
  "run_tests_main os opt =
     handle (and_then (main_steps os opt) (\<lambda>_. ret 0))
       (\<lambda>e. case e of TestRunnerException \<Rightarrow> ret 1 | _ \<Rightarrow> raise e)"

section \<open>The commands a step starts\<close>

text \<open>\<open>follows A m\<close>: the step starts the commands of one of the sequences of \<open>A\<close>, all of them if it returns, a
  prefix of them otherwise.\<close>

definition follows :: "string list list set \<Rightarrow> (('x, 'z) world_scheme, 'a) step \<Rightarrow> bool" where
  "follows A m \<longleftrightarrow> (\<forall>s r s'. m s = (r, s') \<longrightarrow> (\<exists>cs. commands s' = commands s @ cs \<and>
     (\<exists>as\<in>A. prefix cs as) \<and> (\<not> isl r \<longrightarrow> cs \<in> A)))"

named_theorems follows_intros "introduction rules for the commands of a step"

lemma followsD:
  assumes "follows A m" and "m s = (r, s')"
  obtains cs as where "commands s' = commands s @ cs" "as \<in> A" "prefix cs as" "\<not> isl r \<longrightarrow> cs \<in> A"
  using assms unfolding follows_def by blast

lemma follows_quiet [follows_intros]: "frames commands m \<Longrightarrow> follows {[]} m"
  unfolding follows_def by (fastforce dest: framesD)

lemma follows_run_check [follows_intros]: "follows {[cmd]} (run_check os cmd cwd)"
  by (auto simp: follows_def run_check_def and_then_def run_proc_def on_ext_result_def
      split: prod.splits sum.splits if_splits)

definition after :: "string list list set \<Rightarrow> string list list set \<Rightarrow> string list list set" where
  "after A B = (\<lambda>(as, bs). as @ bs) ` (A \<times> B)"

lemma afterI: "as \<in> A \<Longrightarrow> bs \<in> B \<Longrightarrow> as @ bs \<in> after A B"
  by (force simp: after_def)

lemma after_Nil [simp]: "after {[]} B = B"
  by (force simp: after_def)

lemma after_single: "after {as} {bs} = {as @ bs}"
  by (simp add: after_def)

lemma follows_and_then:
  assumes "follows A m" and "\<And>a. follows B (f a)" and "B \<noteq> {}"
  shows "follows (after A B) (and_then m f)"
  unfolding follows_def
proof (intro allI impI)
  fix s r s'
  assume run: "and_then m f s = (r, s')"
  obtain r1 s1 where m: "m s = (r1, s1)" by fastforce
  obtain cs as where a: "commands s1 = commands s @ cs" "as \<in> A" "prefix cs as" "\<not> isl r1 \<longrightarrow> cs \<in> A"
    by (rule followsD [OF assms(1) m])
  show "\<exists>cs. commands s' = commands s @ cs \<and>
      (\<exists>as\<in>after A B. prefix cs as) \<and> (\<not> isl r \<longrightarrow> cs \<in> after A B)"
  proof (cases r1)
    case (Inl e)
    with run m have "r = Inl e" "s' = s1" by (simp_all add: and_then_def)
    moreover obtain bs where "bs \<in> B" using assms(3) by blast
    ultimately show ?thesis using a afterI [OF a(2), of bs] by (intro exI [of _ cs]) (auto intro: prefix_prefix)
  next
    case (Inr v)
    with run m have f: "f v s1 = (r, s')" by (simp add: and_then_def)
    obtain ds bs where b: "commands s' = commands s1 @ ds" "bs \<in> B" "prefix ds bs" "\<not> isl r \<longrightarrow> ds \<in> B"
      by (rule followsD [OF assms(2) f])
    have "cs \<in> A" using a(4) Inr by simp
    then have "cs @ bs \<in> after A B" "ds \<in> B \<Longrightarrow> cs @ ds \<in> after A B" using b(2) by (simp_all add: afterI)
    moreover have "prefix (cs @ ds) (cs @ bs)" using b(3) by simp
    ultimately show ?thesis using a(1) b(1,4) by (intro exI [of _ "cs @ ds"] conjI bexI [of _ "cs @ bs"]) auto
  qed
qed

lemma follows_handle_quiet:
  assumes "follows A m" and "\<And>e. frames commands (h e)" and "\<And>e s. isl (fst (h e s))"
  shows "follows A (handle m h)"
  unfolding follows_def
proof (intro allI impI)
  fix s r s'
  assume run: "handle m h s = (r, s')"
  obtain r1 s1 where m: "m s = (r1, s1)" by fastforce
  obtain cs as where a: "commands s1 = commands s @ cs" "as \<in> A" "prefix cs as" "\<not> isl r1 \<longrightarrow> cs \<in> A"
    by (rule followsD [OF assms(1) m])
  show "\<exists>cs. commands s' = commands s @ cs \<and> (\<exists>as\<in>A. prefix cs as) \<and> (\<not> isl r \<longrightarrow> cs \<in> A)"
  proof (cases r1)
    case (Inl e)
    with run m have h: "h e s1 = (r, s')" by (simp add: handle_def)
    with a framesD [OF assms(2) h] assms(3) [of e s1] show ?thesis by auto
  next
    case (Inr v)
    with run m a show ?thesis by (auto simp: handle_def)
  qed
qed

lemma on_failed_raises: "isl (fst (case e of CalledProcessError rc er \<Rightarrow> raise TestRunnerException s | _ \<Rightarrow> raise e s))"
  by (cases e) simp_all

lemma follows_on_failed:
  assumes "follows A m"
  shows "follows A (on_failed m (\<lambda>_. raise TestRunnerException))"
  unfolding on_failed_def using assms
  by (rule follows_handle_quiet) (simp_all add: frames_def split: py_exc.split)

lemma follows_weaken: "follows A m \<Longrightarrow> A \<subseteq> B \<Longrightarrow> follows B m"
  unfolding follows_def by blast

lemma follows_if: "(b \<Longrightarrow> follows A m) \<Longrightarrow> (\<not> b \<Longrightarrow> follows B m') \<Longrightarrow> follows (if b then A else B) (if b then m else m')"
  by simp

lemma follows_seq:
  assumes "follows {as} m" and "\<And>a. follows {bs} (f a)"
  shows "follows {as @ bs} (and_then m f)"
  using follows_and_then [OF assms] by (simp add: after_single)

text \<open>The whole program.\<close>

lemma quiet_requirements: "frames commands (have_requirements os)"
  unfolding have_requirements_def by (intro frame_intros)

lemma follows_gen_tests: "follows {[beku_cmd suite ns dir]} (gen_tests os suite ns dir)"
  unfolding gen_tests_def
  using follows_on_failed [OF follows_seq [OF follows_run_check follows_quiet [OF frames_basic(1)]]] by simp

lemma follows_install:
  "follows {if skip then [] else [stackablectl_cmd (path_str f) preset]} (maybe_install_release os skip f preset)"
proof (cases skip)
  case True
  then show ?thesis by (simp add: maybe_install_release_def follows_quiet frames_basic)
next
  case False
  have "follows {[stackablectl_cmd (path_str f) preset] @ []}
      (and_then (run_check os (stackablectl_cmd (path_str f) preset) None) (\<lambda>p.
         if contains ''error'' (lower (err p)) then raise TestRunnerException else ret ()))"
    by (intro follows_seq follows_intros frame_intros)
  from follows_on_failed [OF this] False show ?thesis by (simp add: maybe_install_release_def)
qed

lemma quiet_patch: "frames commands (patch_release os operators skip_ops)"
  unfolding patch_release_def by (intro frame_intros)

lemma quiet_remove: "frames commands (remove_patched f)"
  by (auto simp: frames_def remove_patched_def handle_def remove_file_def split: option.split)

lemma follows_finally:
  assumes "follows A m" and "frames commands l"
  shows "follows A (finally_do m l)"
  unfolding follows_def
proof (intro allI impI)
  fix s r s'
  assume run: "finally_do m l s = (r, s')"
  obtain r1 s1 r2 s2 where m: "m s = (r1, s1)" and l: "l s1 = (r2, s2)" by fastforce
  obtain cs as where a: "commands s1 = commands s @ cs" "as \<in> A" "prefix cs as" "\<not> isl r1 \<longrightarrow> cs \<in> A"
    by (rule followsD [OF assms(1) m])
  from run m l framesD [OF assms(2) l] a show "\<exists>cs. commands s' = commands s @ cs \<and> (\<exists>as\<in>A. prefix cs as) \<and> (\<not> isl r \<longrightarrow> cs \<in> A)"
    by (auto simp: finally_do_def split: sum.splits)
qed

definition install_commands :: "opts \<Rightarrow> string list list set" where
  "install_commands opt = (if skip_release opt then {[]}
     else range (\<lambda>f. [stackablectl_cmd (path_str f) (listener_class_preset opt)]))"

lemma follows_release:
  "follows (install_commands opt) (release_file os (operator opt) (skip_operator opt)
     (\<lambda>f. maybe_install_release os (skip_release opt) f (listener_class_preset opt)))"
proof -
  have "follows (install_commands opt)
      (finally_do (maybe_install_release os (skip_release opt) f (listener_class_preset opt)) (remove_patched f))" for f
    by (rule follows_weaken [OF follows_finally [OF follows_install quiet_remove]])
       (auto simp: install_commands_def)
  moreover have "install_commands opt \<noteq> {}" by (auto simp: install_commands_def)
  ultimately have "follows (after {[]} (install_commands opt))
      (release_file os (operator opt) (skip_operator opt)
        (\<lambda>f. maybe_install_release os (skip_release opt) f (listener_class_preset opt)))"
    unfolding release_file_def by (intro follows_and_then follows_quiet [OF quiet_patch]) auto
  then show ?thesis by simp
qed

definition namespace_commands :: "string option \<Rightarrow> string list list set" where
  "namespace_commands ns = (if truthy ns
     then {[[''kubectl'', ''get'', ''namespace'', the ns]],
           [[''kubectl'', ''get'', ''namespace'', the ns], [''kubectl'', ''create'', ''namespace'', the ns]]}
     else {[]})"

lemma run_check_eval:
  assumes "os_run os cmd None cwd (ext s) = (q, x)"
  shows "run_check os cmd cwd s =
    ((case q of Inl e \<Rightarrow> Inl e | Inr p \<Rightarrow> if returncode p = 0 then Inr p else Inl (CalledProcessError (returncode p) (err p))),
     s\<lparr>commands := commands s @ [cmd], ext := x\<rparr>)"
  using assms by (simp add: run_check_def and_then_def run_proc_def on_ext_result_def split: sum.split)

lemma follows_namespace:
  "follows (namespace_commands ns) (if truthy ns then ensure_namespace_exists os (the ns) else ret ())"
proof (cases "truthy ns")
  case False
  then show ?thesis by (simp add: namespace_commands_def follows_quiet frames_basic)
next
  case True
  let ?get = "[''kubectl'', ''get'', ''namespace'', the ns]" and ?create = "[''kubectl'', ''create'', ''namespace'', the ns]"
  have "\<exists>cs. commands s' = commands s @ cs \<and> (\<exists>as\<in>{[?get], [?get, ?create]}. prefix cs as) \<and> (\<not> isl r \<longrightarrow> cs \<in> {[?get], [?get, ?create]})"
    if run: "ensure_namespace_exists os (the ns) s = (r, s')" for s r s'
  proof -
    obtain q x where g: "os_run os ?get None None (ext s) = (q, x)" by fastforce
    obtain q' x' where c: "os_run os ?create None None x = (q', x')" by fastforce
    have "commands s' = commands s @ [?get] \<or> commands s' = commands s @ [?get, ?create]"
      using run c
      by (auto simp: ensure_namespace_exists_def on_failed_def handle_def and_then_def run_check_eval [OF g]
          run_check_eval split: sum.splits if_splits prod.splits py_exc.splits)
    then show ?thesis by auto
  qed
  with True show ?thesis by (auto simp: follows_def namespace_commands_def)
qed

definition test_commands :: "opts \<Rightarrow> string list list set" where
  "test_commands opt = (if skip_tests opt then {[]}
     else after (namespace_commands (opt_namespace opt))
            {[kuttl_cmd (test opt) (opt_parallel opt) (opt_namespace opt) (skip_delete opt)]})"

text \<open>All command sequences of a complete run.\<close>

definition program :: "opts \<Rightarrow> string list list set" where
  "program opt = after {[beku_cmd (test_suite opt) (opt_namespace opt) (work_dir opt)]}
     (after (install_commands opt) (test_commands opt))"

lemma commands_nonempty [simp]: "install_commands opt \<noteq> {}" "namespace_commands ns \<noteq> {}" "test_commands opt \<noteq> {}"
  by (auto simp: install_commands_def namespace_commands_def test_commands_def after_def)

lemma after_nonempty [simp]: "after A B = {} \<longleftrightarrow> A = {} \<or> B = {}"
  by (auto simp: after_def)

lemma follows_run_tests:
  "follows (after (namespace_commands ns) {[kuttl_cmd t par ns keep]}) (run_tests os t par ns keep dir)"
proof -
  have "follows {[kuttl_cmd t par ns keep] @ []} (and_then (run_check os (kuttl_cmd t par ns keep) (Some dir)) (\<lambda>_. ret ()))"
    by (intro follows_seq follows_intros frame_intros)
  then have "follows {[kuttl_cmd t par ns keep]} (and_then (run_check os (kuttl_cmd t par ns keep) (Some dir)) (\<lambda>_. ret ()))"
    by simp
  then show ?thesis
    unfolding run_tests_def by (intro follows_on_failed follows_and_then follows_namespace) simp_all
qed

lemma follows_main_steps: "follows (program opt) (main_steps os opt)"
proof -
  have "follows (test_commands opt) (if skip_tests opt then ret ()
      else run_tests os (test opt) (opt_parallel opt) (opt_namespace opt) (skip_delete opt) (work_dir opt))"
    by (simp add: test_commands_def follows_quiet frames_basic follows_run_tests)
  then have "follows (after {[]} (program opt)) (main_steps os opt)"
    unfolding main_steps_def program_def
    by (intro follows_and_then follows_quiet [OF quiet_requirements] follows_gen_tests follows_release) simp_all
  then show ?thesis by simp
qed

lemma main_returns_0:
  "run_tests_main os opt s = (Inr 0, s') \<longleftrightarrow> main_steps os opt s = (Inr (), s')"
  by (auto simp: run_tests_main_def handle_def and_then_def split: prod.splits sum.splits py_exc.splits)

lemma main_state: "snd (run_tests_main os opt s) = snd (main_steps os opt s)"
  by (simp add: run_tests_main_def handle_def and_then_def split: prod.splits sum.splits py_exc.splits)

section \<open>Programs that succeeded\<close>

lemma run_check_returned:
  assumes "run_check os cmd cwd s = (Inr p, s')"
  shows "os_run os cmd None cwd (ext s) = (Inr p, ext s')" "returncode p = 0"
proof -
  obtain q x where "os_run os cmd None cwd (ext s) = (q, x)" by fastforce
  with assms show "os_run os cmd None cwd (ext s) = (Inr p, ext s')" "returncode p = 0"
    by (auto simp: run_check_eval split: sum.splits if_splits)
qed

lemma on_failed_returned:
  "on_failed m (\<lambda>_. raise TestRunnerException) s = (Inr a, s') \<longleftrightarrow> m s = (Inr a, s')"
  by (auto simp: on_failed_def handle_def split: prod.splits sum.splits py_exc.splits)

lemma gen_tests_returned:
  assumes "gen_tests os suite ns dir s = (Inr u, s')"
  obtains p where "os_run os (beku_cmd suite ns dir) None None (ext s) = (Inr p, ext s')" "returncode p = 0"
  using assms unfolding gen_tests_def on_failed_returned
  by (elim and_then_resultE) (auto intro: that dest: run_check_returned)

lemma install_returned:
  assumes "maybe_install_release os False f preset s = (Inr u, s')"
  obtains p where "os_run os (stackablectl_cmd (path_str f) preset) None None (ext s) = (Inr p, ext s')"
    "returncode p = 0" "\<not> contains ''error'' (lower (err p))"
  using assms unfolding maybe_install_release_def if_False on_failed_returned
  by (elim and_then_resultE) (auto intro: that dest: run_check_returned split: if_splits)

text \<open>\<open>ensure_namespace_exists\<close> in every case.\<close>

lemma ensure_namespace_eval:
  assumes "os_run os [''kubectl'', ''get'', ''namespace'', ns] None None (ext s) = (Inr p, x)"
    and "os_run os [''kubectl'', ''create'', ''namespace'', ns] None None x = (Inr q, y)"
  shows "ensure_namespace_exists os ns s =
    (if returncode p = 0
     then (Inr (), s\<lparr>commands := commands s @ [[''kubectl'', ''get'', ''namespace'', ns]], ext := x\<rparr>)
     else (if returncode q = 0 \<or> contains ''already exists'' (err q) \<or> contains ''forbidden'' (lower (err q))
           then Inr () else Inl TestRunnerException,
           s\<lparr>commands := commands s @ [[''kubectl'', ''get'', ''namespace'', ns], [''kubectl'', ''create'', ''namespace'', ns]], ext := y\<rparr>))"
  using assms
  by (simp add: ensure_namespace_exists_def on_failed_def handle_def and_then_def run_check_eval)

text \<open>\<open>subprocess.run\<close> itself, without \<open>check\<close>, does not raise \<open>CalledProcessError\<close>.\<close>

definition start_errors_only :: "'x os \<Rightarrow> bool" where
  "start_errors_only os \<longleftrightarrow> (\<forall>cmd env cwd x rc stderr. fst (os_run os cmd env cwd x) \<noteq> Inl (CalledProcessError rc stderr))"

lemma ensure_namespace_returned:
  assumes "ensure_namespace_exists os ns s = (Inr u, s')" and "start_errors_only os"
  obtains p x where "os_run os [''kubectl'', ''get'', ''namespace'', ns] None None (ext s) = (Inr p, x)"
    "if returncode p = 0 then ext s' = x
     else \<exists>q. os_run os [''kubectl'', ''create'', ''namespace'', ns] None None x = (Inr q, ext s') \<and>
       (returncode q = 0 \<or> contains ''already exists'' (err q) \<or> contains ''forbidden'' (lower (err q)))"
proof -
  obtain q x where g: "os_run os [''kubectl'', ''get'', ''namespace'', ns] None None (ext s) = (q, x)" by fastforce
  obtain r y where c: "os_run os [''kubectl'', ''create'', ''namespace'', ns] None None x = (r, y)" by fastforce
  have honest: "q \<noteq> Inl (CalledProcessError rc er)" "r \<noteq> Inl (CalledProcessError rc er)" for rc er
    using assms(2) g c unfolding start_errors_only_def by (metis fst_conv)+
  from assms(1) honest(1) obtain p where p: "q = Inr p"
    by (cases q) (auto simp: ensure_namespace_exists_def on_failed_def handle_def and_then_def
        run_check_eval [OF g] split: py_exc.splits)
  show ?thesis
  proof (rule that [OF g [unfolded p]], cases "returncode p = 0")
    case True
    then show "if returncode p = 0 then ext s' = x else \<exists>q. os_run os [''kubectl'', ''create'', ''namespace'', ns] None None x = (Inr q, ext s') \<and>
        (returncode q = 0 \<or> contains ''already exists'' (err q) \<or> contains ''forbidden'' (lower (err q)))"
      using assms(1) by (auto simp: ensure_namespace_exists_def on_failed_def handle_def and_then_def
          run_check_eval [OF g] p)
  next
    case False
    let ?s1 = "s\<lparr>commands := commands s @ [[''kubectl'', ''get'', ''namespace'', ns]], ext := x\<rparr>"
    have "os_run os [''kubectl'', ''create'', ''namespace'', ns] None None (ext ?s1) = (r, y)" using c by simp
    note create = run_check_eval [OF this]
    from assms(1) False honest(2) obtain q' where q': "r = Inr q'"
      by (cases r) (auto simp: ensure_namespace_exists_def on_failed_def handle_def and_then_def
          run_check_eval [OF g] p create split: py_exc.splits)
    from ensure_namespace_eval [OF g [unfolded p] c [unfolded q']] assms(1) False c q'
    show "if returncode p = 0 then ext s' = x else \<exists>q. os_run os [''kubectl'', ''create'', ''namespace'', ns] None None x = (Inr q, ext s') \<and>
        (returncode q = 0 \<or> contains ''already exists'' (err q) \<or> contains ''forbidden'' (lower (err q)))"
      by (auto split: if_splits)
  qed
qed

lemma run_tests_returned:
  assumes "run_tests os t par ns keep dir s = (Inr u, s')"
  obtains s1 p where "(if truthy ns then ensure_namespace_exists os (the ns) else ret ()) s = (Inr (), s1)"
    "os_run os (kuttl_cmd t par ns keep) None (Some dir) (ext s1) = (Inr p, ext s')" "returncode p = 0"
proof -
  from assms obtain s1 p s2 where "(if truthy ns then ensure_namespace_exists os (the ns) else ret ()) s = (Inr (), s1)"
    and k: "run_check os (kuttl_cmd t par ns keep) (Some dir) s1 = (Inr p, s')"
    unfolding run_tests_def on_failed_returned by (auto elim!: and_then_resultE)
  then show ?thesis using run_check_returned [OF k] by (intro that)
qed

lemma finally_returned: "finally_do m l s = (Inr a, s') \<Longrightarrow> \<exists>s1. m s = (Inr a, s1)"
  by (auto simp: finally_do_def split: prod.splits sum.splits)

lemma install_in_finally:
  assumes "finally_do (maybe_install_release os skip f preset) (remove_patched f) s = (Inr (), s')"
  shows "if skip then ext s' = ext s
     else \<exists>p. os_run os (stackablectl_cmd (path_str f) preset) None None (ext s) = (Inr p, ext s') \<and>
       returncode p = 0 \<and> \<not> contains ''error'' (lower (err p))"
proof -
  from assms obtain s1 u where i: "maybe_install_release os skip f preset s = (Inr (), s1)"
    and r: "remove_patched f s1 = (u, s')"
    by (auto simp: finally_do_def split: prod.splits sum.splits)
  have "frames ext (remove_patched f :: ('a, 'b) world_scheme \<Rightarrow> _)"
    by (auto simp: frames_def remove_patched_def handle_def remove_file_def split: option.split)
  from framesD [OF this r] have e: "ext s' = ext s1" .
  show ?thesis
  proof (cases skip)
    case True
    with i e show ?thesis by (simp add: maybe_install_release_def)
  next
    case False
    with i have "maybe_install_release os False f preset s = (Inr (), s1)" by simp
    from install_returned [OF this] False e show ?thesis by (metis (no_types))
  qed
qed

lemma patch_release_tempfile:
  assumes "patch_release os operators skip_ops s = (Inr f, s')"
  shows "os_tempfile os (ext s) = (f, ext s')"
proof -
  from assms obtain c contents s1 s2 where "read_text (path_of ''tests/release.yaml'') s = (Inr c, s1)"
    and t: "on_ext (os_tempfile os) s1 = (Inr f, s2)" and w: "write_file f (Text contents) s2 = (Inr (), s')"
    unfolding patch_release_def by (auto elim!: and_then_resultE)
  then have "s1 = s" using read_text_state by (metis snd_conv)
  moreover have "ext s' = ext s2" using framesD [OF frames_world_write(6) w] .
  ultimately show ?thesis using t by (auto simp: on_ext_def split: prod.splits)
qed

lemma tests_trace:
  assumes "run_tests os t par ns keep dir s = (Inr u, s')" and "start_errors_only os"
  shows "\<exists>x4 p. os_run os (kuttl_cmd t par ns keep) None (Some dir) x4 = (Inr p, ext s') \<and> returncode p = 0 \<and>
       (if \<not> truthy ns then x4 = ext s
        else \<exists>g y. os_run os [''kubectl'', ''get'', ''namespace'', the ns] None None (ext s) = (Inr g, y) \<and>
          (if returncode g = 0 then x4 = y
           else \<exists>c. os_run os [''kubectl'', ''create'', ''namespace'', the ns] None None y = (Inr c, x4) \<and>
             (returncode c = 0 \<or> contains ''already exists'' (err c) \<or> contains ''forbidden'' (lower (err c)))))"
proof -
  obtain s1 p where k: "(if truthy ns then ensure_namespace_exists os (the ns) else ret ()) s = (Inr (), s1)"
    "os_run os (kuttl_cmd t par ns keep) None (Some dir) (ext s1) = (Inr p, ext s')" "returncode p = 0"
    by (rule run_tests_returned [OF assms(1)])
  show ?thesis
  proof (cases "truthy ns")
    case False
    with k show ?thesis by auto
  next
    case True
    with k(1) have "ensure_namespace_exists os (the ns) s = (Inr (), s1)" by simp
    from ensure_namespace_returned [OF this assms(2)] obtain g y where
      "os_run os [''kubectl'', ''get'', ''namespace'', the ns] None None (ext s) = (Inr g, y)"
      "if returncode g = 0 then ext s1 = y
       else \<exists>c. os_run os [''kubectl'', ''create'', ''namespace'', the ns] None None y = (Inr c, ext s1) \<and>
         (returncode c = 0 \<or> contains ''already exists'' (err c) \<or> contains ''forbidden'' (lower (err c)))" by blast
    then show ?thesis using True k(2,3) by (intro exI [of _ "ext s1"] exI [of _ p]) simp
  qed
qed

lemma have_requirements_returned:
  "have_requirements os s = (Inr u, s') \<longleftrightarrow> s' = s \<and> (\<forall>c\<in>set required_commands. os_which os c (ext s))"
  by (auto simp: have_requirements_def list_ex_iff)

section \<open>A machine on which run-tests does not crash\<close>

text \<open>The machine: programs can be started, the release file can be read, and temporary files are new, have
  the prefix asked for and can be written.\<close>

definition run_tests_ready :: "'x os \<Rightarrow> ('x, 'z) world_scheme \<Rightarrow> bool" where
  "run_tests_ready os s \<longleftrightarrow> (\<forall>cmd env cwd x. \<not> isl (fst (os_run os cmd env cwd x))) \<and>
     (\<exists>t. files s (path_of ''tests/release.yaml'') = Some (Text t)) \<and> \<not> unreadable s (path_of ''tests/release.yaml'') \<and>
     (\<forall>x. can_write s (fst (os_tempfile os x)) \<and> files s (fst (os_tempfile os x)) = None \<and>
          contains ''patched'' (path_str (fst (os_tempfile os x))))"

text \<open>The options: every version can be read as a replacement of \<open>re.sub\<close>.\<close>

definition versions_ok :: "(string \<times> string) list \<Rightarrow> bool" where
  "versions_ok operators \<longleftrightarrow> list_all (\<lambda>(op, version). \<not> isl (parse_template ('': '' @ version))) operators"

lemma isl_bind_pair: "isl (res_bind r (\<lambda>(x, y). Inr (f x y))) \<longleftrightarrow> isl r"
  by (cases r) (simp_all add: case_prod_beta)

lemma patch_loop_results:
  assumes "versions_ok operators" and "\<not> isl (parse_template ('': '' @ pv))"
  shows "\<not> isl (patch_loop operators pv ls)"
  using assms(2)
proof (induction ls arbitrary: pv)
  case (Cons l ls)
  have v: "\<not> isl (parse_template ('': '' @ version))" if "find (\<lambda>(op, version). contains op l) operators = Some (op, version)" for op version
    using chosen_in [of operators "Product l [] []"] that assms(1) by (fastforce simp: chosen_def versions_ok_def list_all_iff)
  have plain: "\<not> isl (parse_template ('': '' @ []))" by simp
  obtain l' where "sub_version pv l = Inr l'" using Cons.prems
    by (cases "parse_template ('': '' @ pv)") (auto simp: sub_version_def Let_def case_prod_beta)
  then show ?case using Cons.IH v Cons.IH [OF plain] by (auto simp: isl_bind_pair split: option.split)
qed simp

lemma patched_contents_results:
  assumes "versions_ok operators"
  obtains c where "patched_contents operators skip_ops content = Inr c"
  | "patched_contents operators skip_ops content = Inl TestRunnerException"
proof -
  obtain ops kept where "patch_loop operators [] (file_lines content) = Inr (ops, kept)"
    using patch_loop_results [OF assms, of "[]" "file_lines content"]
    by (cases "patch_loop operators [] (file_lines content)") auto
  moreover obtain valid contents where "skip_loop skip_ops 0 kept = (valid, contents)" by fastforce
  ultimately have "patched_contents operators skip_ops content \<in> {Inl TestRunnerException, Inr (join [LF] contents)}"
    by (simp add: patched_contents_def)
  then show ?thesis using that by blast
qed

text \<open>A step that, when every program can be started, returns or raises \<open>TestRunnerException\<close>.\<close>

definition tame :: "'x os \<Rightarrow> (('x, 'z) world_scheme, unit) step \<Rightarrow> bool" where
  "tame os m \<longleftrightarrow> ((\<forall>cmd env cwd x. \<not> isl (fst (os_run os cmd env cwd x))) \<longrightarrow>
     (\<forall>s. fst (m s) \<in> {Inr (), Inl TestRunnerException}))"

lemma tame_run_check:
  assumes "\<And>p s. fst (f p s) \<in> {Inr (), Inl TestRunnerException}"
  shows "tame os (on_failed (and_then (run_check os cmd cwd) f) (\<lambda>_. raise TestRunnerException))"
  unfolding tame_def
proof (intro impI allI)
  fix s :: "('a, 'b) world_scheme"
  assume total: "\<forall>cmd env cwd x. \<not> isl (fst (os_run os cmd env cwd x))"
  obtain q x where q: "os_run os cmd None cwd (ext s) = (q, x)" by fastforce
  then obtain p where p: "q = Inr p" using total by (cases q) (metis fst_conv sum.disc(1))+
  obtain r s' where "f p (s\<lparr>commands := commands s @ [cmd], ext := x\<rparr>) = (r, s')" by fastforce
  with assms [of p "s\<lparr>commands := commands s @ [cmd], ext := x\<rparr>"] run_check_eval [OF q] p
  show "fst (on_failed (and_then (run_check os cmd cwd) f) (\<lambda>_. raise TestRunnerException) s) \<in> {Inr (), Inl TestRunnerException}"
    by (auto simp: on_failed_def handle_def and_then_def)
qed

lemma tame_gen_tests: "tame os (gen_tests os suite ns dir)"
  unfolding gen_tests_def by (rule tame_run_check) simp

lemma tame_install: "tame os (maybe_install_release os skip f preset)"
proof (cases skip)
  case True
  then show ?thesis by (simp add: maybe_install_release_def tame_def)
next
  case False
  then show ?thesis unfolding maybe_install_release_def if_False by (simp add: tame_run_check)
qed

lemma tame_namespace: "tame os (ensure_namespace_exists os ns)"
  unfolding tame_def
proof (intro impI allI)
  fix s :: "('a, 'b) world_scheme"
  assume total: "\<forall>cmd env cwd x. \<not> isl (fst (os_run os cmd env cwd x))"
  then have "\<exists>p x. os_run os cmd None None y = (Inr p, x)" for cmd y
    by (metis sum.collapse(2) prod.collapse)
  then obtain p x q y where "os_run os [''kubectl'', ''get'', ''namespace'', ns] None None (ext s) = (Inr p, x)"
    "os_run os [''kubectl'', ''create'', ''namespace'', ns] None None x = (Inr q, y)" by metis
  from ensure_namespace_eval [OF this]
  show "fst (ensure_namespace_exists os ns s) \<in> {Inr (), Inl TestRunnerException}" by simp
qed

lemma tameE:
  assumes "tame os m" and "\<forall>cmd env cwd x. \<not> isl (fst (os_run os cmd env cwd x))"
  obtains s1 where "m s = (Inr (), s1)" | s1 where "m s = (Inl TestRunnerException, s1)"
proof -
  have "fst (m s) \<in> {Inr (), Inl TestRunnerException}" using assms by (simp add: tame_def)
  then show ?thesis using that by (cases "m s") auto
qed

lemma tame_and_then: "tame os m \<Longrightarrow> (\<And>a. tame os (f a)) \<Longrightarrow> tame os (and_then m f)"
proof (subst tame_def, intro impI allI)
  fix s
  assume m: "tame os m" and f: "\<And>a. tame os (f a)" and total: "\<forall>cmd env cwd x. \<not> isl (fst (os_run os cmd env cwd x))"
  show "fst (and_then m f s) \<in> {Inr (), Inl TestRunnerException}"
  proof (rule tameE [OF m total, of s])
    fix s1
    assume "m s = (Inr (), s1)"
    then show ?thesis by (rule_tac tameE [OF f total, of "()" s1]) (simp_all add: and_then_def)
  qed (simp add: and_then_def)
qed

lemma tame_on_failed:
  assumes "tame os m"
  shows "tame os (on_failed m (\<lambda>_. raise TestRunnerException))"
proof (subst tame_def, intro impI allI)
  fix s
  assume total: "\<forall>cmd env cwd x. \<not> isl (fst (os_run os cmd env cwd x))"
  show "fst (on_failed m (\<lambda>_. raise TestRunnerException) s) \<in> {Inr (), Inl TestRunnerException}"
    by (rule tameE [OF assms total, of s]) (simp_all add: on_failed_def handle_def)
qed

lemma tame_simple: "tame os (ret ())" "tame os (have_requirements os)"
  by (auto simp: tame_def have_requirements_def)

lemma on_failed_once:
  "on_failed (and_then m f) (\<lambda>_. raise TestRunnerException) =
   and_then (on_failed m (\<lambda>_. raise TestRunnerException)) (\<lambda>a. on_failed (f a) (\<lambda>_. raise TestRunnerException))"
  by (auto simp: fun_eq_iff on_failed_def and_then_def handle_def split: prod.splits sum.splits py_exc.splits)

lemma tame_run_tests: "tame os (run_tests os t par ns keep dir)"
  unfolding run_tests_def on_failed_once [of "if b then m else m'" for b m m']
  by (intro tame_and_then tame_on_failed tame_run_check) (simp_all add: tame_namespace tame_simple)

section \<open>What the programs do not touch\<close>

text \<open>An observation of the state that starting a program does not change.\<close>

locale unaffected =
  fixes f :: "('x, 'z) world_scheme \<Rightarrow> 'b"
  assumes by_ext: "f (s\<lparr>ext := x\<rparr>) = f s" and by_commands: "f (s\<lparr>commands := c\<rparr>) = f s"
begin

lemma fr_check: "frames f (run_check os cmd cwd)"
  unfolding run_check_def by (intro frame_intros frames_run_proc by_ext by_commands)

lemma fr_on_failed: "frames f m \<Longrightarrow> (\<And>e. frames f (h e)) \<Longrightarrow> frames f (on_failed m h)"
  unfolding on_failed_def by (intro frame_intros) (auto intro: frame_intros split: py_exc.split)

lemma fr_requirements: "frames f (have_requirements os)"
  unfolding have_requirements_def by (intro frame_intros)

lemma fr_gen_tests: "frames f (gen_tests os suite ns dir)"
  unfolding gen_tests_def by (intro fr_on_failed frame_intros fr_check)

lemma fr_install: "frames f (maybe_install_release os skip release preset)"
  unfolding maybe_install_release_def by (intro fr_on_failed frame_intros fr_check)

lemma fr_namespace: "frames f (ensure_namespace_exists os ns)"
  unfolding ensure_namespace_exists_def by (intro fr_on_failed frame_intros fr_check)

lemma fr_run_tests: "frames f (run_tests os t par ns keep dir)"
  unfolding run_tests_def by (intro fr_on_failed frame_intros fr_check fr_namespace)

end

interpretation on_files: unaffected files
  by unfold_locales simp_all

interpretation on_disk: unaffected disk
  by unfold_locales simp_all

interpretation on_hidden: unaffected unreadable
  by unfold_locales simp_all

lemma ready_frame:
  assumes "files s' = files s" and "disk s' = disk s" and "unreadable s' = unreadable s"
  shows "run_tests_ready os s' = run_tests_ready os s"
  using assms by (simp add: run_tests_ready_def can_write_cong [OF assms(2)])

lemma gen_tests_ready:
  "gen_tests os suite ns dir s = (r, s') \<Longrightarrow> run_tests_ready os s' = run_tests_ready os s \<and> files s' = files s"
  using framesD [OF on_files.fr_gen_tests] framesD [OF on_disk.fr_gen_tests] framesD [OF on_hidden.fr_gen_tests]
    ready_frame by metis

text \<open>The \<open>with\<close> statement on such a machine.\<close>

lemma release_install_ready:
  assumes "run_tests_ready os s" and ops: "versions_ok (operator opt)"
  obtains r s' where "release_file os (operator opt) (skip_operator opt)
      (\<lambda>f. maybe_install_release os (skip_release opt) f (listener_class_preset opt)) s = (r, s')"
    "r \<in> {Inr (), Inl TestRunnerException}" "files s' = files s"
proof -
  let ?body = "\<lambda>f. maybe_install_release os (skip_release opt) f (listener_class_preset opt)"
  from assms obtain t where yaml: "files s (path_of ''tests/release.yaml'') = Some (Text t)"
    and readable: "\<not> unreadable s (path_of ''tests/release.yaml'')"
    and total: "\<forall>cmd env cwd x. \<not> isl (fst (os_run os cmd env cwd x))" by (auto simp: run_tests_ready_def)
  obtain f x where tmp: "os_tempfile os (ext s) = (f, x)" by fastforce
  then have f: "can_write s f" "files s f = None" "contains ''patched'' (path_str f)"
    using assms(1) by (auto simp: run_tests_ready_def) (metis fst_conv)+
  show ?thesis
  proof (cases rule: patched_contents_results [OF ops, of "skip_operator opt" "universal_newlines t"])
    case (1 c)
    let ?s1 = "s\<lparr>ext := x, files := (files s)(f \<mapsto> Text c)\<rparr>"
    have patch: "patch_release os (operator opt) (skip_operator opt) s = (Inr f, ?s1)"
      by (rule patch_release_eval [OF yaml readable 1 tmp f(1)])
    obtain r s2 where body: "?body f ?s1 = (r, s2)" "r \<in> {Inr (), Inl TestRunnerException}"
      by (rule tameE [OF tame_install total, of "skip_release opt" f "listener_class_preset opt" ?s1]) auto
    have "files s2 = files ?s1" "unwritable s2 = unwritable ?s1"
      using framesD [OF on_files.fr_install body(1)] framesD [OF on_disk.fr_install body(1)] by (simp_all add: disk_def)
    then have "remove_patched f s2 = (Inr (), s2\<lparr>files := (files s2)(f := None)\<rparr>)" "(files s2)(f := None) = files s"
      using f by (auto simp: can_write_def remove_patched_ok)
    then show ?thesis using patch body
      by (intro that [of r "s2\<lparr>files := (files s2)(f := None)\<rparr>"]) (auto simp: release_file_def and_then_def finally_do_def)
  next
    case 2
    have "patch_release os (operator opt) (skip_operator opt) s = (Inl TestRunnerException, s)"
      using read_text_Some [OF yaml readable] 2 by (simp add: patch_release_def and_then_def)
    then show ?thesis by (intro that) (auto simp: release_file_def and_then_def)
  qed
qed

definition sample_opts :: opts where
  "sample_opts = \<lparr>skip_delete = False, skip_tests = False, skip_release = False, opt_parallel = 2, operator = [],
     skip_operator = [], test = None, test_suite = None, log_level = 20, opt_namespace = Some ''smoke'',
     work_dir = ''tests/_work'', listener_class_preset = None\<rparr>"

lemma sample_run_ready: "run_tests_ready sample_os (sample_release script)"
  by (auto simp: run_tests_ready_def sample_os_def sample_release_def sample_world_def can_write_def
      path_parent_def path_str_def path_of_def path_parts_def split: list.splits prod.splits)

section \<open>Properties\<close>

text \<open>C6: A run of the program never crashes on a machine where programs can be started, the release file can
  be read and the temporary file is a fresh one that can be written, with options whose \<open>--operator\<close>
  versions can be read as a replacement of \<open>re.sub\<close> (every version without a backslash can): it exits
  with 0 or 1, and it leaves the scripts' files as they were (the patched copy of the release is gone).\<close>

theorem run_tests_never_crashes:
  assumes "run_tests_ready os s"
    and "\<forall>(op, version)\<in>set (operator opt). CHR 0x5C \<notin> set version \<or> (\<exists>items. parse_template ('': '' @ version) = Inr items)"
  shows "\<exists>r s'. run_tests_main os opt s = (Inr r, s') \<and> r \<in> {0, 1} \<and> files s' = files s"
proof -
  have ops: "versions_ok (operator opt)"
    using assms(2) parse_template_plain [of "'': '' @ version" for version]
    by (fastforce simp: versions_ok_def list_all_iff)
  have total: "\<forall>cmd env cwd x. \<not> isl (fst (os_run os cmd env cwd x))" using assms(1) by (simp add: run_tests_ready_def)
  have "fst (main_steps os opt s) \<in> {Inr (), Inl TestRunnerException} \<and> files (snd (main_steps os opt s)) = files s"
  proof (cases "have_requirements os s")
    case (Pair r0 s0)
    have s0: "s0 = s" "r0 \<in> {Inr (), Inl TestRunnerException}"
      using Pair by (auto simp: have_requirements_def split: if_splits)
    obtain r1 s1 where g: "gen_tests os (test_suite opt) (opt_namespace opt) (work_dir opt) s = (r1, s1)"
      "r1 \<in> {Inr (), Inl TestRunnerException}" by (rule tameE [OF tame_gen_tests total, of "test_suite opt" "opt_namespace opt" "work_dir opt" s]) auto
    have g2: "run_tests_ready os s1" "files s1 = files s" using gen_tests_ready [OF g(1)] assms(1) by simp_all
    obtain r2 s2 where rel: "release_file os (operator opt) (skip_operator opt)
        (\<lambda>f. maybe_install_release os (skip_release opt) f (listener_class_preset opt)) s1 = (r2, s2)"
      "r2 \<in> {Inr (), Inl TestRunnerException}" "files s2 = files s1" by (rule release_install_ready [OF g2(1) ops])
    obtain r3 s3 where t: "run_tests os (test opt) (opt_parallel opt) (opt_namespace opt) (skip_delete opt) (work_dir opt) s2 = (r3, s3)"
      "r3 \<in> {Inr (), Inl TestRunnerException}"
      by (rule tameE [OF tame_run_tests total, of "test opt" "opt_parallel opt" "opt_namespace opt" "skip_delete opt" "work_dir opt" s2]) auto
    have "files s3 = files s2" by (rule framesD [OF on_files.fr_run_tests t(1)])
    then show ?thesis using Pair s0 g g2 rel t by (auto simp: main_steps_def and_then_def)
  qed
  then show ?thesis
    by (cases "main_steps os opt s") (auto simp: run_tests_main_def handle_def and_then_def)
qed

theorem run_tests_never_crashes_witness:
  "\<exists>r s'. run_tests_main sample_os sample_opts (sample_release []) = (Inr r, s') \<and> r \<in> {0, 1} \<and>
    files s' = files (sample_release [])"
  by (rule run_tests_never_crashes [OF sample_run_ready]) (simp add: sample_opts_def)

text \<open>C38: A version with a backslash that \<open>re.sub\<close> cannot read as a replacement crashes the program: with such a
  version for an operator that the release names, the script ends with \<open>re.error\<close> (or \<open>IndexError\<close>, for a
  named group) after \<open>beku\<close> has run; nothing is installed, and the exception is not turned into exit
  code 1.\<close>

theorem version_template_crashes:
  assumes "\<forall>c\<in>set required_commands. os_which os c (ext s)"
    and "gen_tests os (test_suite opt) (opt_namespace opt) (work_dir opt) s = (Inr (), s1)"
    and "files s1 (path_of ''tests/release.yaml'') = Some (Text t)" and "\<not> unreadable s1 (path_of ''tests/release.yaml'')"
    and "file_lines (universal_newlines t) = pre @ line # next_line # post"
    and "\<forall>l\<in>set pre. \<forall>(op, version)\<in>set (operator opt). \<not> contains op l"
    and "find (\<lambda>(op, version). contains op line) (operator opt) = Some (op, version)"
    and "parse_template ('': '' @ version) = Inl e"
  shows "run_tests_main os opt s = (Inl e, s1) \<and> e \<in> {ReError, IndexError}"
proof -
  let ?ops = "operator opt"
  have "version \<noteq> []" using assms(8) by auto
  then have stop: "patch_loop ?ops [] (line # next_line # post) = Inl e"
    using assms(7,8) by (simp add: sub_version_def)
  have "patch_loop ?ops [] (pre' @ line # next_line # post) = Inl e" if "set pre' \<subseteq> set pre" for pre'
    using that
  proof (induction pre')
    case (Cons l ls)
    have "find (\<lambda>(op, version). contains op l) ?ops = None"
      using Cons.prems assms(6) by (intro find_none) (simp add: list_all_iff)
    with Cons show ?case by simp
  qed (use stop in simp)
  then have "patched_contents ?ops (skip_operator opt) (universal_newlines t) = Inl e"
    by (simp add: patched_contents_def assms(5))
  then have "release_file os ?ops (skip_operator opt) body s1 = (Inl e, s1)"
    for body :: "path \<Rightarrow> (('a, 'b) world_scheme, unit) step"
    using read_text_Some [OF assms(3,4)] by (simp add: release_file_def patch_release_def and_then_def)
  moreover have "have_requirements os s = (Inr (), s)" using assms(1) by (simp add: have_requirements_returned)
  ultimately have "main_steps os opt s = (Inl e, s1)" by (simp add: main_steps_def and_then_def assms(2))
  with parse_template_errors [OF assms(8)] show ?thesis
    by (auto simp: run_tests_main_def handle_def and_then_def)
qed

theorem version_template_crashes_witness:
  "\<exists>s1. run_tests_main sample_os (sample_opts\<lparr>operator := [(''commons'', ''a'' @ [CHR 0x5C] @ ''q'')]\<rparr>)
     (sample_release [(1, \<lparr>returncode = 0, out = [], err = []\<rparr>)]) = (Inl ReError, s1)"
proof -
  let ?opt = "sample_opts\<lparr>operator := [(''commons'', ''a'' @ [CHR 0x5C] @ ''q'')]\<rparr>"
  let ?s = "sample_release [(1, \<lparr>returncode = 0, out = [], err = []\<rparr>)]"
  let ?t = "file_text (release_lines [''  tests:''] sample_products)"
  have "\<exists>s1. gen_tests sample_os (test_suite ?opt) (opt_namespace ?opt) (work_dir ?opt) ?s = (Inr (), s1) \<and>
      files s1 = files ?s \<and> unreadable s1 = unreadable ?s"
    by (simp add: gen_tests_def on_failed_def handle_def and_then_def run_check_def run_proc_def on_ext_result_def
        sample_os_def sample_release_def sample_world_def)
  then obtain s1 where g: "gen_tests sample_os (test_suite ?opt) (opt_namespace ?opt) (work_dir ?opt) ?s = (Inr (), s1)"
    and s1: "files s1 = files ?s" "unreadable s1 = unreadable ?s" by blast
  have tools: "\<forall>c\<in>set required_commands. os_which sample_os c (ext ?s)" by (simp add: sample_os_def)
  have f: "files s1 (path_of ''tests/release.yaml'') = Some (Text ?t)" "\<not> unreadable s1 (path_of ''tests/release.yaml'')"
    unfolding s1 by (simp_all add: sample_release_def sample_world_def)
  have lines: "file_lines (universal_newlines ?t) = [''  tests:'' @ [LF]] @ (''      commons:'' @ [LF]) #
      (''        operatorVersion: 0.0.0-dev'' @ [LF]) # [''      listener:'' @ [LF], ''        operatorVersion: 0.0.0-dev'' @ [LF]]"
    by code_simp
  have first: "\<forall>l\<in>set [''  tests:'' @ [LF]]. \<forall>(op, version)\<in>set (operator ?opt). \<not> contains op l"
    and found: "find (\<lambda>(op, version). contains op (''      commons:'' @ [LF])) (operator ?opt) = Some (''commons'', ''a'' @ [CHR 0x5C] @ ''q'')"
    by (simp_all add: contains_def)
  have bad: "parse_template ('': '' @ ''a'' @ [CHR 0x5C] @ ''q'') = Inl ReError" by code_simp
  from version_template_crashes [OF tools g f lines first found bad] show ?thesis by blast
qed

text \<open>C10: The commands a run starts are those of the program, in its order: \<open>beku\<close> first, then \<open>stackablectl\<close>
  unless the release is skipped, then, unless the tests are skipped, the namespace is looked up and
  created if one is given, and \<open>kuttl\<close> last. Whatever happens, what was started is the beginning of
  such a sequence; all of it if the exit code is 0.\<close>

theorem run_tests_commands:
  assumes "run_tests_main os opt s = (r, s')"
  shows "\<exists>cs. commands s' = commands s @ cs \<and> (\<exists>as\<in>program opt. prefix cs as) \<and> (r = Inr 0 \<longrightarrow> cs \<in> program opt)"
proof -
  obtain r1 s1 where m: "main_steps os opt s = (r1, s1)" by fastforce
  have s1: "s1 = s'" using main_state [of os opt s] assms m by simp
  obtain cs as where c: "commands s1 = commands s @ cs" "as \<in> program opt" "prefix cs as" "\<not> isl r1 \<longrightarrow> cs \<in> program opt"
    by (rule followsD [OF follows_main_steps m])
  have "\<not> isl r1" if "r = Inr 0" using main_returns_0 [of os opt s s'] assms that m by auto
  with c s1 show ?thesis by auto
qed

theorem run_tests_commands_witness:
  "\<exists>r s' cs. run_tests_main sample_os sample_opts (sample_release []) = (r, s') \<and> commands s' = cs \<and>
    (\<exists>as\<in>program sample_opts. prefix cs as) \<and> (r = Inr 0 \<longrightarrow> cs \<in> program sample_opts)"
proof -
  obtain r s' where run: "run_tests_main sample_os sample_opts (sample_release []) = (r, s')" by fastforce
  from run_tests_commands [OF run] run show ?thesis by (auto simp: sample_release_def sample_world_def)
qed

text \<open>C11: What exit code 0 means: the required tools are there, and these programs ran, each on the machine as
  the one before left it: \<open>beku\<close>, which returned 0; unless the release is skipped, \<open>stackablectl\<close> on the
  temporary release file, which returned 0 with no error on its standard error; and unless the tests
  are skipped, \<open>kuttl\<close> with the command line that the options ask for, in the work directory, which
  returned 0, and before it, if a namespace is given, \<open>kubectl get\<close> and, when that failed,
  \<open>kubectl create\<close>, which may fail too, if the namespace exists by now or creating it is forbidden.\<close>

theorem run_tests_exit_0:
  assumes "run_tests_main os opt s = (Inr 0, s')" and "start_errors_only os"
  shows "(\<forall>c\<in>set required_commands. os_which os c (ext s)) \<and> (\<exists>p x1 f x2 x3.
    os_run os (beku_cmd (test_suite opt) (opt_namespace opt) (work_dir opt)) None None (ext s) = (Inr p, x1) \<and>
    returncode p = 0 \<and> os_tempfile os x1 = (f, x2) \<and>
    (if skip_release opt then x3 = x2
     else \<exists>p. os_run os (stackablectl_cmd (path_str f) (listener_class_preset opt)) None None x2 = (Inr p, x3) \<and>
       returncode p = 0 \<and> \<not> contains ''error'' (lower (err p))) \<and>
    (if skip_tests opt then ext s' = x3
     else \<exists>x4 p. os_run os (kuttl_cmd (test opt) (opt_parallel opt) (opt_namespace opt) (skip_delete opt)) None
         (Some (work_dir opt)) x4 = (Inr p, ext s') \<and> returncode p = 0 \<and>
       (if \<not> truthy (opt_namespace opt) then x4 = x3
        else \<exists>g y. os_run os [''kubectl'', ''get'', ''namespace'', the (opt_namespace opt)] None None x3 = (Inr g, y) \<and>
          (if returncode g = 0 then x4 = y
           else \<exists>c. os_run os [''kubectl'', ''create'', ''namespace'', the (opt_namespace opt)] None None y = (Inr c, x4) \<and>
             (returncode c = 0 \<or> contains ''already exists'' (err c) \<or> contains ''forbidden'' (lower (err c)))))))"
proof -
  from assms(1) have "main_steps os opt s = (Inr (), s')" by (simp add: main_returns_0)
  then obtain s1 f s3 s4 where
    h: "have_requirements os s = (Inr (), s)" and
    g: "gen_tests os (test_suite opt) (opt_namespace opt) (work_dir opt) s = (Inr (), s1)" and
    pr: "patch_release os (operator opt) (skip_operator opt) s1 = (Inr f, s3)" and
    b: "finally_do (maybe_install_release os (skip_release opt) f (listener_class_preset opt)) (remove_patched f) s3 = (Inr (), s4)" and
    t: "(if skip_tests opt then ret ()
         else run_tests os (test opt) (opt_parallel opt) (opt_namespace opt) (skip_delete opt) (work_dir opt)) s4 = (Inr (), s')"
    unfolding main_steps_def release_file_def
    by (auto elim!: and_then_resultE simp: have_requirements_returned)
  obtain p where beku: "os_run os (beku_cmd (test_suite opt) (opt_namespace opt) (work_dir opt)) None None (ext s) = (Inr p, ext s1)"
    "returncode p = 0" by (rule gen_tests_returned [OF g])
  have tmp: "os_tempfile os (ext s1) = (f, ext s3)" by (rule patch_release_tempfile [OF pr])
  have install: "if skip_release opt then ext s4 = ext s3
     else \<exists>p. os_run os (stackablectl_cmd (path_str f) (listener_class_preset opt)) None None (ext s3) = (Inr p, ext s4) \<and>
       returncode p = 0 \<and> \<not> contains ''error'' (lower (err p))"
    by (rule install_in_finally [OF b])
  have tests: "if skip_tests opt then ext s' = ext s4
     else \<exists>x4 p. os_run os (kuttl_cmd (test opt) (opt_parallel opt) (opt_namespace opt) (skip_delete opt)) None
         (Some (work_dir opt)) x4 = (Inr p, ext s') \<and> returncode p = 0 \<and>
       (if \<not> truthy (opt_namespace opt) then x4 = ext s4
        else \<exists>g y. os_run os [''kubectl'', ''get'', ''namespace'', the (opt_namespace opt)] None None (ext s4) = (Inr g, y) \<and>
          (if returncode g = 0 then x4 = y
           else \<exists>c. os_run os [''kubectl'', ''create'', ''namespace'', the (opt_namespace opt)] None None y = (Inr c, x4) \<and>
             (returncode c = 0 \<or> contains ''already exists'' (err c) \<or> contains ''forbidden'' (lower (err c)))))"
  proof (cases "skip_tests opt")
    case True
    with t show ?thesis by simp
  next
    case False
    with t have "run_tests os (test opt) (opt_parallel opt) (opt_namespace opt) (skip_delete opt) (work_dir opt) s4 = (Inr (), s')" by simp
    from tests_trace [OF this assms(2)] False show ?thesis by simp
  qed
  have "\<forall>c\<in>set required_commands. os_which os c (ext s)" using h by (simp add: have_requirements_returned)
  then show ?thesis using beku tmp install tests by blast
qed

theorem run_tests_exit_0_witness:
  "\<exists>s'. run_tests_main sample_os sample_opts (sample_release (replicate 4 (1, \<lparr>returncode = 0, out = [], err = []\<rparr>))) = (Inr 0, s') \<and>
    (\<exists>x p. os_run sample_os (kuttl_cmd None 2 (Some ''smoke'') False) None (Some ''tests/_work'') x = (Inr p, ext s') \<and> returncode p = 0)"
proof -
  let ?s = "sample_release (replicate 4 (1, \<lparr>returncode = 0, out = [], err = []\<rparr>))"
  have "map_sum (\<lambda>_. ()) id (fst (run_tests_main sample_os sample_opts ?s)) = Inr 0" by code_simp
  then obtain s' where run: "run_tests_main sample_os sample_opts ?s = (Inr 0, s')"
    by (cases "run_tests_main sample_os sample_opts ?s"; cases "fst (run_tests_main sample_os sample_opts ?s)") auto
  have "start_errors_only sample_os" by (auto simp: start_errors_only_def sample_os_def split: list.split prod.split)
  from run_tests_exit_0 [OF run this] run show ?thesis by (fastforce simp: sample_opts_def)
qed

text \<open>C26: The namespace is made sure of in every case: if \<open>kubectl get\<close> finds it nothing is created; otherwise
  it is created, and a failure is accepted only when the namespace exists by now or creating it is
  forbidden; the commands are exactly these.\<close>

theorem ensure_namespace_spec:
  assumes "os_run os [''kubectl'', ''get'', ''namespace'', ns] None None (ext s) = (Inr p, x)"
    and "os_run os [''kubectl'', ''create'', ''namespace'', ns] None None x = (Inr q, y)"
  shows "ensure_namespace_exists os ns s =
    (if returncode p = 0
     then (Inr (), s\<lparr>commands := commands s @ [[''kubectl'', ''get'', ''namespace'', ns]], ext := x\<rparr>)
     else (if returncode q = 0 \<or> contains ''already exists'' (err q) \<or> contains ''forbidden'' (lower (err q))
           then Inr () else Inl TestRunnerException,
           s\<lparr>commands := commands s @ [[''kubectl'', ''get'', ''namespace'', ns], [''kubectl'', ''create'', ''namespace'', ns]], ext := y\<rparr>))"
  by (rule ensure_namespace_eval [OF assms])

theorem ensure_namespace_spec_witness:
  "fst (ensure_namespace_exists sample_os ''smoke'' (sample_world
     [(1, \<lparr>returncode = 1, out = [], err = ''NotFound''\<rparr>),
      (1, \<lparr>returncode = 1, out = [], err = ''Error from server (Forbidden): namespaces is forbidden''\<rparr>)])) = Inr ()"
proof -
  let ?p = "\<lparr>returncode = 1, out = [], err = ''NotFound''\<rparr>"
  let ?q = "\<lparr>returncode = 1, out = [], err = ''Error from server (Forbidden): namespaces is forbidden''\<rparr>"
  let ?s = "sample_world [(1, ?p), (1, ?q)]"
  have "os_run sample_os [''kubectl'', ''get'', ''namespace'', ''smoke''] None None (ext ?s) = (Inr ?p, (1, [(1, ?q)]))"
    and "os_run sample_os [''kubectl'', ''create'', ''namespace'', ''smoke''] None None (1, [(1, ?q)]) = (Inr ?q, (2, []))"
    by (simp_all add: sample_os_def sample_world_def)
  from ensure_namespace_spec [OF this] show ?thesis
    by (simp add: lower_def lower_char_def code_def Let_def)
qed

text \<open>C29: \<open>--operator\<close> splits its argument at the first equals sign: what it returns, joined again, is the
  argument, and the operator holds no equals sign; an argument without one is refused.\<close>

theorem operator_argument:
  "case cli_parse_operator_args arg of
     Inl e \<Rightarrow> CHR ''='' \<notin> set arg \<and> (\<exists>m. e = ArgumentTypeError m)
   | Inr (op, version) \<Rightarrow> arg = op @ ''='' @ version \<and> CHR ''='' \<notin> set op"
proof (cases "CHR ''='' \<in> set arg")
  case True
  have "CHR ''='' \<notin> set (takeWhile (\<lambda>c. c \<noteq> CHR ''='') arg)" by (auto dest: set_takeWhileD)
  with True split_once_rebuild [OF True] show ?thesis
    by (auto simp: cli_parse_operator_args_def split_once_def)
qed (simp add: cli_parse_operator_args_def)

end
