(* ===== verification/Command_Lines.thy ===== *)
theory Command_Lines
  imports Argparse Run_Laws Run_Tests
begin

text \<open>
  The command lines of \<open>scripts/run-tests\<close> and \<open>scripts/auto-retry-tests.py\<close>: their parsers, both
  programs from their arguments on, and how they fit together: the command line that the one
  builds is read by the other.
\<close>

section \<open>The parser of run-tests\<close>

text \<open>\<open>type=str\<close> with \<open>store\<close>, and a \<open>type\<close> that may refuse its argument.\<close>

definition store :: "(string \<Rightarrow> 'o \<Rightarrow> 'o) \<Rightarrow> 'o action" where
  "store f = One (\<lambda>v ns. Inr (f v ns))"

definition store_as :: "(string \<Rightarrow> 'v result) \<Rightarrow> ('v \<Rightarrow> 'o \<Rightarrow> 'o) \<Rightarrow> 'o action" where
  "store_as convert f = One (\<lambda>v ns. res_bind (convert v) (\<lambda>x. Inr (f x ns)))"

definition run_tests_parser :: "opts parser" where
  "run_tests_parser = [
     (''-h'', Leave), (''--help'', Leave),
     (''--version'', Leave),
     (''--skip-delete'', Flag (\<lambda>r. r\<lparr>skip_delete := True\<rparr>)),
     (''--skip-tests'', Flag (\<lambda>r. r\<lparr>skip_tests := True\<rparr>)),
     (''--skip-release'', Flag (\<lambda>r. r\<lparr>skip_release := True\<rparr>)),
     (''--parallel'', store_as py_int (\<lambda>i r. r\<lparr>opt_parallel := i\<rparr>)),
     (''--operator'', store_as cli_parse_operator_args (\<lambda>x r. r\<lparr>operator := operator r @ [x]\<rparr>)),
     (''--skip-operator'', store (\<lambda>v r. r\<lparr>skip_operator := skip_operator r @ [v]\<rparr>)),
     (''--test'', store (\<lambda>v r. r\<lparr>test := Some v\<rparr>)),
     (''--test-suite'', store (\<lambda>v r. r\<lparr>test_suite := Some v\<rparr>)),
     (''--log-level'', store_as cli_log_level (\<lambda>l r. r\<lparr>log_level := l\<rparr>)),
     (''--namespace'', store (\<lambda>v r. r\<lparr>opt_namespace := Some v\<rparr>)),
     (''--work-dir'', store (\<lambda>v r. r\<lparr>work_dir := v\<rparr>)),
     (''--listener-class-preset'', store (\<lambda>v r. r\<lparr>listener_class_preset := Some v\<rparr>))]"

definition run_tests_defaults :: opts where
  "run_tests_defaults = \<lparr>skip_delete = False, skip_tests = False, skip_release = False, opt_parallel = 2,
     operator = [], skip_operator = [], test = None, test_suite = None, log_level = 20, opt_namespace = None,
     work_dir = ''tests/_work'', listener_class_preset = None\<rparr>"

text \<open>\<open>main(argv)\<close>: \<open>SystemExit\<close> of the parser is not caught.\<close>

definition run_tests_program :: "'x os \<Rightarrow> string list \<Rightarrow> (('x, 'z) world_scheme, int) step" where
  "run_tests_program os argv =
     and_then (of_result (parse_args run_tests_parser run_tests_defaults (tl argv))) (run_tests_main os)"

section \<open>The parser of auto-retry-tests.py\<close>





section \<open>Lemmas\<close>

lemma run_tests_options:
  "map_of run_tests_parser ''--parallel'' = Some (store_as py_int (\<lambda>i r. r\<lparr>opt_parallel := i\<rparr>))"
  "map_of run_tests_parser ''--skip-delete'' = Some (Flag (\<lambda>r. r\<lparr>skip_delete := True\<rparr>))"
  "map_of run_tests_parser ''--test'' = Some (store (\<lambda>v r. r\<lparr>test := Some v\<rparr>))"
  "map_of run_tests_parser ''--work-dir'' = Some (store (\<lambda>v r. r\<lparr>work_dir := v\<rparr>))"
  by (simp_all add: run_tests_parser_def)

text \<open>A number is no option of \<open>run-tests\<close>, not even a negative one.\<close>

lemma token_number: "token run_tests_parser (int_str i) = Inr (Plain (int_str i))"
proof (cases "i < 0")
  case False
  then have "is_digit (hd (int_str i))" using nat_str_digits [OF hd_in_set [OF nat_str_nonempty]] by (simp add: int_str_def)
  then have "hd (int_str i) \<noteq> CHR ''-''" using minus_not_digit by metis
  then show ?thesis by (intro token_plain) simp
next
  case True
  obtain d ds where s: "nat_str (nat (- i)) = d # ds" by (metis nat_str_nonempty neq_Nil_conv)
  have d: "is_digit c" if "c \<in> set (d # ds)" for c using nat_str_digits [of c "nat (- i)"] that s by simp
  have i: "int_str i = CHR ''-'' # d # ds" using True s by (simp add: int_str_def)
  have no: "d \<noteq> CHR ''-''" "d \<noteq> CHR ''h''" "CHR ''='' \<notin> set (d # ds)"
    using d [of d] d [of "CHR ''=''"] by (auto simp: is_digit_def code_def)
  have "map_of run_tests_parser (CHR ''-'' # d # ds) = None" "candidates run_tests_parser (CHR ''-'' # d # ds) = []"
    using no by (auto simp: run_tests_parser_def candidates_def)
  then show ?thesis using no negative_number_int_str [OF True] unfolding i by (simp add: token_def)
qed

lemma parse_parallel:
  assumes "length (int_str i) \<le> 4300"
  shows "parse_args run_tests_parser r (''--parallel'' # int_str i # as) = parse_args run_tests_parser (r\<lparr>opt_parallel := i\<rparr>) as"
proof (rule parse_one [OF run_tests_options(1) [unfolded store_as_def]])
  show "token run_tests_parser (int_str i) = Inr (Plain (int_str i))" by (rule token_number)
  show "int_str i \<noteq> ''--''"
    using str_int_int_str [of i] minus_not_digit nat_str_digits [of "CHR ''-''" "nat (- i)"] nat_str_digits [of "CHR ''-''" "nat i"]
    by (auto simp: int_str_def split: if_splits)
  show "res_bind (py_int (int_str i)) (\<lambda>x. Inr (r\<lparr>opt_parallel := x\<rparr>)) = Inr (r\<lparr>opt_parallel := i\<rparr>)"
    using py_int_int_str [OF assms] by simp
qed simp_all

lemma parse_store:
  assumes "map_of p opt = Some (store f)" and "prefix ''-'' opt" and "opt \<noteq> ''--''" and "v \<noteq> []" and "hd v \<noteq> CHR ''-''"
  shows "parse_args p r (opt # v # as) = parse_args p (f v r) as"
  by (rule parse_one [OF assms(1) [unfolded store_def] assms(2,3)]) (use assms(4,5) in \<open>auto simp: token_plain\<close>)

lemma work_dir_plain: "work_dir_name n att ty now \<noteq> [] \<and> hd (work_dir_name n att ty now) \<noteq> CHR ''-''"
  by (simp add: work_dir_name_def)




section \<open>Properties\<close>

text \<open>C39: The two programs fit together: the command line that a run of a test starts is read by
  \<open>run-tests\<close> as it was meant, when no extra arguments are given and the test's name does not begin
  with a dash: the work directory and \<open>--skip-delete\<close> as asked for; for a single test that test, with
  the default number of workers, and for the suite all tests with the given number (the default
  number again for 0); everything else keeps its default, so that the release is installed again and
  no namespace is fixed.\<close>

theorem retry_command_is_read:
  assumes "arg_extra_args a = []" and "truthy n \<longrightarrow> hd (the n) \<noteq> CHR ''-''" and "length (int_str (arg_parallel a)) \<le> 4300"
  shows "run_tests_program os' (the_command os a n sk att ty x) s = run_tests_main os'
    \<lparr>skip_delete = sk, skip_tests = False, skip_release = False,
     opt_parallel = (if truthy n \<or> arg_parallel a = 0 then 2 else arg_parallel a), operator = [], skip_operator = [],
     test = (if truthy n then n else None), test_suite = None, log_level = 20, opt_namespace = None,
     work_dir = work_dir_name n att ty (fst (os_now os x)), listener_class_preset = None\<rparr> s"
proof -
  let ?w = "work_dir_name n att ty (fst (os_now os x))"
  have w: "truthy (Some ?w)" using work_dir_plain by simp
  note dir = parse_store [OF run_tests_options(4) _ _ conjunct1 [OF work_dir_plain] conjunct2 [OF work_dir_plain]]
  have skip: "parse_args run_tests_parser r (''--skip-delete'' # as) = parse_args run_tests_parser (r\<lparr>skip_delete := True\<rparr>) as" for r as
    by (rule parse_flag [OF run_tests_options(2)]) simp_all
  have test: "parse_args run_tests_parser r (''--test'' # the n # as) = parse_args run_tests_parser (r\<lparr>test := Some (the n)\<rparr>) as"
    if "truthy n" for r as
    by (rule parse_store [OF run_tests_options(3)]) (use that assms(2) in \<open>cases n; simp\<close>)+
  have par: "parse_args run_tests_parser r (''--parallel'' # int_str (arg_parallel a) # as) =
      parse_args run_tests_parser (r\<lparr>opt_parallel := arg_parallel a\<rparr>) as" for r as
    by (rule parse_parallel [OF assms(3)])
  have "n = Some (the n)" if "truthy n" using that by (cases n) simp_all
  then have "parse_args run_tests_parser run_tests_defaults (tl (the_command os a n sk att ty x)) = Inr
    \<lparr>skip_delete = sk, skip_tests = False, skip_release = False,
     opt_parallel = (if truthy n \<or> arg_parallel a = 0 then 2 else arg_parallel a), operator = [], skip_operator = [],
     test = (if truthy n then n else None), test_suite = None, log_level = 20, opt_namespace = None,
     work_dir = ?w, listener_class_preset = None\<rparr>"
    using w assms(1)
    by (cases "truthy n"; cases sk; cases "arg_parallel a = 0")
       (simp_all add: the_command_def build_test_command_def skip test par dir run_tests_defaults_def)
  then show ?thesis by (simp add: run_tests_program_def)
qed

theorem retry_command_is_read_witness:
  "run_tests_program sample_os (the_command sample_os sample_args (Some ''smoke'') True 1 ''serial'' (0, [])) (sample_release []) =
    run_tests_main sample_os (run_tests_defaults\<lparr>skip_delete := True, test := Some ''smoke'',
      work_dir := ''tests/_work_smoke_1_serial_20240229_123015_000''\<rparr>) (sample_release [])"
proof -
  have "work_dir_name (Some ''smoke'') 1 ''serial'' (fst (os_now sample_os (0, []))) = ''tests/_work_smoke_1_serial_20240229_123015_000''"
    "length (int_str (arg_parallel sample_args)) \<le> 4300" by code_simp+
  then show ?thesis
    using retry_command_is_read [of sample_args "Some ''smoke''" sample_os sample_os True 1 "''serial''" "(0, [])" "sample_release []"]
    by (simp add: sample_args_def run_tests_defaults_def)
qed



end
